theory Spec2Isabelle
  imports Complex_Main
begin

unbundle bit_operations_syntax

section \<open>JavaScript values and exceptions\<close>

text \<open>
  A JavaScript number is a double: not-a-number, one of the two infinities, the negative
  zero, or a finite value, given by the real it denotes (\<open>Fin 0\<close> is the positive zero).
  Two numbers are the same value, as \<open>Object.is\<close> has it, exactly when they are equal here.
\<close>

datatype jsnum = NaN | PosInf | NegInf | NegZero | Fin real

text \<open>
  Arithmetic gives the double nearest to the exact result, a tie going to the even
  significand. A double has 53 significant bits, exponents from \<open>- 1022\<close> to 1023 and,
  below them, the multiples of \<open>2 ^ - 1074\<close>; a result that rounds to \<open>2 ^ 1024\<close> or beyond
  is an infinity, and a negative one that rounds to nothing is the negative zero.
\<close>

definition nearestEven :: "real \<Rightarrow> int" where
  "nearestEven r =
     (let f = \<lfloor>r\<rfloor> in
      if r - of_int f < 1 / 2 then f
      else if 1 / 2 < r - of_int f then f + 1
      else if even f then f else f + 1)"

definition roundDouble :: "real \<Rightarrow> jsnum" where
  "roundDouble x =
     (if x = 0 then Fin 0
      else
        let e = max \<lfloor>log 2 \<bar>x\<bar>\<rfloor> (- 1022);
            q = 2 powr (of_int e - 52);
            y = of_int (nearestEven (x / q)) * q
        in if 2 ^ 1024 \<le> \<bar>y\<bar> then (if 0 < x then PosInf else NegInf)
           else if y = 0 then (if 0 < x then Fin 0 else NegZero)
           else Fin y)"

text \<open>The sum of two numbers.\<close>

fun addNum :: "jsnum \<Rightarrow> jsnum \<Rightarrow> jsnum" where
  "addNum NaN b = NaN"
| "addNum a NaN = NaN"
| "addNum PosInf NegInf = NaN"
| "addNum NegInf PosInf = NaN"
| "addNum PosInf b = PosInf"
| "addNum a PosInf = PosInf"
| "addNum NegInf b = NegInf"
| "addNum a NegInf = NegInf"
| "addNum NegZero b = b"
| "addNum a NegZero = a"
| "addNum (Fin x) (Fin y) = roundDouble (x + y)"

text \<open>
  The values that cross the interfaces modelled here. \<open>JFun\<close>, \<open>JObj\<close> and \<open>JArr\<close>
  carry the identity of a function, of an object that is not an array, or of an array.
\<close>

datatype jsval =
    JUndefined
  | JNull
  | JBool bool
  | JNum jsnum
  | JStr string
  | JFun nat
  | JObj nat
  | JArr nat

text \<open>Thrown values: the built-in error classes with their message, or any other value.\<close>

datatype exn =
    TypeError string
  | RangeError string
  | SyntaxError string
  | Error string
  | URIError string
  | Thrown nat

datatype 'a result = Return 'a | Throw exn


section \<open>Rate-edge limiters (\<open>validateDelay\<close>, \<open>rateLimiterImpl\<close>)\<close>

text \<open>\<open>Number.isFinite\<close> does not coerce: only finite numbers pass.\<close>

fun isFinite :: "jsval \<Rightarrow> bool" where
  "isFinite (JNum (Fin x)) = True"
| "isFinite (JNum NegZero) = True"
| "isFinite v = False"

text \<open>\<open>delay <= 0\<close>, read only for a value that passed \<open>Number.isFinite\<close>.\<close>

fun le_zero :: "jsval \<Rightarrow> bool" where
  "le_zero (JNum (Fin x)) = (x \<le> 0)"
| "le_zero (JNum NegZero) = True"
| "le_zero v = False"

definition validateDelay :: "jsval \<Rightarrow> unit result" where
  "validateDelay delay =
     (if \<not> isFinite delay \<or> le_zero delay
      then Throw (RangeError ''Timer delay must be finite and positive'')
      else Return ())"

text \<open>
  The variable \<open>timer\<close> holds \<open>0\<close> at creation, \<open>undefined\<close> once the timeout has fired,
  and otherwise the identifier returned by \<open>setTimeout\<close>. The first two are falsy.
\<close>

datatype timer_slot = TimerZero | TimerUndefined | TimerId nat

fun truthy_timer :: "timer_slot \<Rightarrow> bool" where
  "truthy_timer (TimerId i) = True"
| "truthy_timer t = False"

text \<open>
  The closure variables of one limiter (\<open>delay\<close>, \<open>isThrottler\<close>, \<open>closed\<close>, \<open>start\<close>,
  \<open>timer\<close>, \<open>resolveNext\<close>) together with the part of the host they act on: the pending
  timeouts (identifier to requested delay) and the promises settled so far.
  \<open>resolveNext\<close> is \<open>None\<close> for \<open>noop\<close> and \<open>Some p\<close> for the resolver of promise \<open>p\<close>.
\<close>

record limiter =
  delay :: jsval
  isThrottler :: bool
  closed :: bool
  start :: real
  timer :: timer_slot
  resolveNext :: "nat option"
  timeouts :: "nat \<rightharpoonup> jsnum"
  nextTimeout :: nat
  settled :: "nat \<rightharpoonup> bool"
  nextPromise :: nat

definition clearTimeout :: "timer_slot \<Rightarrow> limiter \<Rightarrow> limiter" where
  "clearTimeout tm L =
     (case tm of TimerId i \<Rightarrow> L\<lparr>timeouts := (timeouts L)(i := None)\<rparr> | _ \<Rightarrow> L)"

text \<open>\<open>setTimeout(callback, ms)\<close>: registers the timeout and returns a fresh, non-zero identifier.\<close>

definition setTimeout :: "jsnum \<Rightarrow> limiter \<Rightarrow> nat \<times> limiter" where
  "setTimeout ms L =
     (let i = Suc (nextTimeout L)
      in (i, L\<lparr>timeouts := (timeouts L)(i \<mapsto> ms), nextTimeout := i\<rparr>))"

text \<open>Calling \<open>resolveNext(v)\<close>: \<open>noop\<close> does nothing; a resolver settles its promise once.\<close>

definition callResolveNext :: "bool \<Rightarrow> limiter \<Rightarrow> limiter" where
  "callResolveNext v L =
     (case resolveNext L of
        None \<Rightarrow> L
      | Some p \<Rightarrow> (if settled L p = None then L\<lparr>settled := (settled L)(p \<mapsto> v)\<rparr> else L))"

text \<open>\<open>new Promise((resolve) => resolveNext = resolve)\<close>.\<close>

definition newPromise :: "limiter \<Rightarrow> nat \<times> limiter" where
  "newPromise L =
     (let p = nextPromise L
      in (p, L\<lparr>resolveNext := Some p, nextPromise := Suc p\<rparr>))"

text \<open>
  \<open>(start - performance.now()) + delay\<close> for a validated delay, which is a number: the
  difference of the two times is rounded, and then the sum.
\<close>

fun rebased :: "real \<Rightarrow> real \<Rightarrow> jsval \<Rightarrow> jsnum" where
  "rebased st now (JNum x) = addNum (roundDouble (st - now)) x"
| "rebased st now v = NaN"

fun delayMs :: "jsval \<Rightarrow> jsnum" where
  "delayMs (JNum x) = x"
| "delayMs v = NaN"

text \<open>
  \<open>rateLimiterImpl(delay = 500, isThrottler)\<close>: the default applies when the argument is
  \<open>undefined\<close> (omitted). The host part of the record is passed in and returned untouched.
\<close>

definition rateLimiterImpl :: "jsval \<Rightarrow> bool \<Rightarrow> limiter \<Rightarrow> limiter result" where
  "rateLimiterImpl delayArg thr host =
     (let dl = (if delayArg = JUndefined then JNum (Fin 500) else delayArg)
      in case validateDelay dl of
           Throw e \<Rightarrow> Throw e
         | Return _ \<Rightarrow>
             Return (host\<lparr>delay := dl, isThrottler := thr, closed := False, start := 0,
                          timer := TimerZero, resolveNext := None\<rparr>))"

definition throttler :: "jsval \<Rightarrow> limiter \<Rightarrow> limiter result" where
  "throttler dl host = rateLimiterImpl dl True host"

definition debouncer :: "jsval \<Rightarrow> limiter \<Rightarrow> limiter result" where
  "debouncer dl host = rateLimiterImpl dl False host"

text \<open>The timeout callback.\<close>

definition callback :: "limiter \<Rightarrow> limiter" where
  "callback L = (callResolveNext False (L\<lparr>timer := TimerUndefined\<rparr>))\<lparr>resolveNext := None\<rparr>"

text \<open>
  The result of one call of the limiter, before the \<open>async\<close> wrapper: \<open>true\<close>,
  \<open>undefined\<close>, or a promise that a later call, the timeout or \<open>dispose\<close> settles.
\<close>

datatype call_result = RTrue | RUndefined | RPromise nat

definition rateLimiter :: "bool \<Rightarrow> real \<Rightarrow> limiter \<Rightarrow> call_result \<times> limiter" where
  "rateLimiter ignoreLeading now L =
     (if closed L then (RTrue, L)
      else
        let L1 = (callResolveNext True L)\<lparr>resolveNext := None\<rparr> in
        if truthy_timer (timer L1) \<and> isThrottler L1 then
          (let (p, L2) = newPromise L1 in (RPromise p, L2))
        else
          let L2 = (if truthy_timer (timer L1) then clearTimeout (timer L1) L1 else L1);
              ignoreLeading' = (ignoreLeading \<or> truthy_timer (timer L1));
              L3 = L2\<lparr>start := now\<rparr>;
              (i, L4) = setTimeout (delayMs (delay L3)) L3;
              L5 = L4\<lparr>timer := TimerId i\<rparr>
          in if \<not> ignoreLeading' then (RUndefined, L5)
             else (let (p, L6) = newPromise L5 in (RPromise p, L6)))"

definition update :: "jsval \<Rightarrow> real \<Rightarrow> limiter \<Rightarrow> unit result \<times> limiter" where
  "update newDelay now L =
     (case validateDelay newDelay of
        Throw e \<Rightarrow> (Throw e, L)
      | Return _ \<Rightarrow>
          let L1 = L\<lparr>delay := newDelay\<rparr> in
          if closed L1 then (Return (), L1)
          else if truthy_timer (timer L1) then
            (let L2 = clearTimeout (timer L1) L1;
                 (i, L3) = setTimeout (rebased (start L2) now (delay L2)) L2
             in (Return (), L3\<lparr>timer := TimerId i\<rparr>))
          else (Return (), L1))"

definition dispose :: "limiter \<Rightarrow> limiter" where
  "dispose L =
     (if closed L then L
      else (callResolveNext True (clearTimeout (timer L) (L\<lparr>closed := True\<rparr>)))
             \<lparr>resolveNext := None\<rparr>)"

text \<open>A host with no pending timeout and no promise, holding a limiter created with 500 ms.\<close>

definition idleHost :: limiter where
  "idleHost = \<lparr>delay = JNum (Fin 500), isThrottler = True, closed = False, start = 0,
                timer = TimerZero, resolveNext = None, timeouts = Map.empty, nextTimeout = 0,
                settled = Map.empty, nextPromise = 0\<rparr>"

text \<open>A delay the limiter accepts: a finite number strictly greater than zero.\<close>

fun finite_positive :: "jsval \<Rightarrow> bool" where
  "finite_positive (JNum (Fin x)) = (0 < x)"
| "finite_positive v = False"


section \<open>Properties of the rate-edge limiters\<close>

lemma validateDelay_iff:
  "validateDelay d = Return () \<longleftrightarrow> finite_positive d"
  by (cases d rule: finite_positive.cases) (auto simp: validateDelay_def)

lemma validateDelay_throws:
  "\<not> finite_positive d \<Longrightarrow>
     validateDelay d = Throw (RangeError ''Timer delay must be finite and positive'')"
  by (cases d rule: finite_positive.cases) (auto simp: validateDelay_def)

text \<open>
  C10. A delay that is not a finite number strictly greater than zero makes the creation of
  a throttler or of a debouncer throw a RangeError (an omitted delay, which arrives as
  \<open>undefined\<close>, is accepted instead and the limiter starts with 500 milliseconds), and makes
  \<open>update\<close> throw a RangeError with every variable of the limiter and every pending
  timeout as before the call.
\<close>

theorem limiter_delay_validation:
  "(\<not> finite_positive d \<and> d \<noteq> JUndefined \<longrightarrow>
      throttler d host = Throw (RangeError ''Timer delay must be finite and positive'') \<and>
      debouncer d host = Throw (RangeError ''Timer delay must be finite and positive'')) \<and>
   (\<not> finite_positive d \<longrightarrow>
      update d now L = (Throw (RangeError ''Timer delay must be finite and positive''), L)) \<and>
   (\<exists>L1 L2. throttler JUndefined host = Return L1 \<and> delay L1 = JNum (Fin 500) \<and>
            debouncer JUndefined host = Return L2 \<and> delay L2 = JNum (Fin 500))"
  by (simp add: throttler_def debouncer_def rateLimiterImpl_def update_def
        validateDelay_throws Let_def)
      (simp add: validateDelay_def)

theorem limiter_delay_validation_witness:
  "throttler (JNum (Fin (-1))) idleHost = Throw (RangeError ''Timer delay must be finite and positive'') \<and>
   debouncer (JNum NaN) idleHost = Throw (RangeError ''Timer delay must be finite and positive'') \<and>
   update (JStr ''100'') 0 idleHost =
     (Throw (RangeError ''Timer delay must be finite and positive''), idleHost)"
  using limiter_delay_validation [of "JNum (Fin (-1))" idleHost 0 idleHost]
        limiter_delay_validation [of "JNum NaN" idleHost 0 idleHost]
        limiter_delay_validation [of "JStr ''100''" idleHost 0 idleHost]
  by simp


section \<open>Tracked collections (\<open>trackedState\<close>, \<open>trackedList\<close>)\<close>

text \<open>
  A \<open>Map\<close> keeps its keys in insertion order and a \<open>Set\<close> its members: both are lists
  here. Setting a key that is present keeps its position.
\<close>

definition mapGet :: "('k \<times> 'a) list \<Rightarrow> 'k \<Rightarrow> 'a option" where
  "mapGet mp k = map_of mp k"

definition mapHas :: "('k \<times> 'a) list \<Rightarrow> 'k \<Rightarrow> bool" where
  "mapHas mp k = (k \<in> fst ` set mp)"

definition mapSet :: "'k \<Rightarrow> 'a \<Rightarrow> ('k \<times> 'a) list \<Rightarrow> ('k \<times> 'a) list" where
  "mapSet k x mp =
     (if mapHas mp k then map (\<lambda>p. if fst p = k then (k, x) else p) mp else mp @ [(k, x)])"

definition mapDelete :: "'k \<Rightarrow> ('k \<times> 'a) list \<Rightarrow> ('k \<times> 'a) list" where
  "mapDelete k mp = filter (\<lambda>p. fst p \<noteq> k) mp"

definition setAdd :: "'a \<Rightarrow> 'a list \<Rightarrow> 'a list" where
  "setAdd x xs = (if x \<in> set xs then xs else xs @ [x])"

definition setDelete :: "'a \<Rightarrow> 'a list \<Rightarrow> 'a list" where
  "setDelete x xs = removeAll x xs"

text \<open>
  A handle is an \<open>AbortController\<close> extended with \<open>key\<close> and \<open>value\<close>. \<open>aborted\<close> is
  \<open>signal.aborted\<close>; \<open>selfNull\<close> says that the variable \<open>handle\<close> captured by the
  closures \<open>release\<close> and \<open>remove\<close> has been set to \<open>null\<close>.
\<close>

record ('k, 'v) thandle =
  hkey :: 'k
  hvalue :: 'v
  aborted :: bool
  selfNull :: bool

text \<open>
  The variables of \<open>trackedState\<close>: the map \<open>state\<close>, the weak set \<open>removed\<close>, the set
  \<open>live\<close>, and the handles created so far, each named by a number. The callback
  \<open>redraw\<close> is a notification: the record counts its calls.
\<close>

record ('k, 'v) tracked =
  state :: "('k \<times> nat) list"
  removed :: "nat set"
  live :: "nat list"
  handles :: "nat \<Rightarrow> ('k, 'v) thandle"
  nextHandle :: nat
  redraws :: nat

definition redraw :: "('k, 'v) tracked \<Rightarrow> ('k, 'v) tracked" where
  "redraw T = T\<lparr>redraws := Suc (redraws T)\<rparr>"

text \<open>\<open>abort(prev)\<close>; \<open>prev\<close> is \<open>None\<close> when \<open>state.get\<close> found nothing.\<close>

definition abort :: "nat option \<Rightarrow> ('k, 'v) tracked \<Rightarrow> ('k, 'v) tracked" where
  "abort prev T =
     (case prev of
        None \<Rightarrow> T
      | Some h \<Rightarrow>
          if h \<in> removed T then T\<lparr>live := setDelete h (live T)\<rparr>
          else T\<lparr>handles := (handles T)(h := (handles T h)\<lparr>aborted := True\<rparr>)\<rparr>)"

text \<open>\<open>remove(k, r)\<close> returns what \<open>state.delete(k)\<close> returned.\<close>

definition remove :: "'k \<Rightarrow> bool \<Rightarrow> ('k, 'v) tracked \<Rightarrow> bool \<times> ('k, 'v) tracked" where
  "remove k r T =
     (let prev = mapGet (state T) k;
          res = mapHas (state T) k;
          T1 = T\<lparr>state := mapDelete k (state T)\<rparr>;
          T2 = abort prev T1;
          T3 = (if r then redraw T2 else T2)
      in (res, T3))"

text \<open>
  \<open>setHandle(k, v, bits)\<close>; the two bits are passed as booleans (\<open>bits & 1\<close>,
  \<open>bits & 2\<close>). The new handle takes the next free number.
\<close>

definition setHandle :: "'k \<Rightarrow> 'v \<Rightarrow> bool \<Rightarrow> bool \<Rightarrow> ('k, 'v) tracked \<Rightarrow> ('k, 'v) tracked" where
  "setHandle k v bit1 bit2 T =
     (let prev = mapGet (state T) k;
          h = nextHandle T;
          T1 = T\<lparr>handles := (handles T)(h := \<lparr>hkey = k, hvalue = v, aborted = False,
                                                selfNull = False\<rparr>),
                  nextHandle := Suc h\<rparr>;
          T2 = T1\<lparr>state := mapSet k h (state T1)\<rparr>;
          T3 = T2\<lparr>live := setAdd h (live T2)\<rparr>;
          T4 = (if bit1 then (case prev of None \<Rightarrow> T3
                              | Some q \<Rightarrow> T3\<lparr>live := setDelete q (live T3)\<rparr>)
                else T3);
          T5 = abort prev T4
      in if bit2 then redraw T5 else T5)"

text \<open>\<open>handle.release()\<close> of the handle numbered \<open>h\<close>.\<close>

definition release :: "nat \<Rightarrow> ('k, 'v) tracked \<Rightarrow> ('k, 'v) tracked" where
  "release h T =
     (if selfNull (handles T h) then T
      else if mapGet (state T) (hkey (handles T h)) = Some h then
        T\<lparr>removed := insert h (removed T),
           handles := (handles T)(h := (handles T h)\<lparr>selfNull := True\<rparr>)\<rparr>
      else if h \<in> set (live T) then redraw (T\<lparr>live := setDelete h (live T)\<rparr>)
      else T)"

text \<open>The operations of the object returned by \<open>trackedList\<close>.\<close>

definition tl_live :: "('k, 'v) tracked \<Rightarrow> nat list" where
  "tl_live T = live T"

definition tl_list :: "('k, 'v) tracked \<Rightarrow> ('k \<times> 'v) list" where
  "tl_list T = map (\<lambda>p. (hkey (handles T (snd p)), hvalue (handles T (snd p)))) (state T)"

definition tl_has :: "'k \<Rightarrow> ('k, 'v) tracked \<Rightarrow> bool" where
  "tl_has k T = mapHas (state T) k"

definition tl_get :: "'k \<Rightarrow> ('k, 'v) tracked \<Rightarrow> 'v option" where
  "tl_get k T = (case mapGet (state T) k of None \<Rightarrow> None | Some h \<Rightarrow> Some (hvalue (handles T h)))"

definition tl_set :: "'k \<Rightarrow> 'v \<Rightarrow> ('k, 'v) tracked \<Rightarrow> ('k, 'v) tracked" where
  "tl_set k v T = setHandle k v True True T"

definition tl_replace :: "'k \<Rightarrow> 'v \<Rightarrow> ('k, 'v) tracked \<Rightarrow> ('k, 'v) tracked" where
  "tl_replace k v T = setHandle k v False True T"

definition tl_delete :: "'k \<Rightarrow> ('k, 'v) tracked \<Rightarrow> bool \<times> ('k, 'v) tracked" where
  "tl_delete k T = remove k True T"

definition tl_forget :: "'k \<Rightarrow> ('k, 'v) tracked \<Rightarrow> ('k, 'v) tracked" where
  "tl_forget k T = (case mapGet (state T) k of None \<Rightarrow> T | Some h \<Rightarrow> release h T)"

text \<open>\<open>trackedList(redraw, initial)\<close> for a callable \<open>redraw\<close>.\<close>

definition emptyTracked :: "('k, 'v) tracked" where
  "emptyTracked = \<lparr>state = [], removed = {}, live = [],
     handles = (\<lambda>_. \<lparr>hkey = undefined, hvalue = undefined, aborted = False, selfNull = False\<rparr>),
     nextHandle = 0, redraws = 0\<rparr>"

definition trackedList :: "('k \<times> 'v) list \<Rightarrow> ('k, 'v) tracked" where
  "trackedList initial = foldl (\<lambda>T p. setHandle (fst p) (snd p) True False T) emptyTracked initial"

text \<open>
  Every handle that the collection refers to has been created: its number is below the
  next free one. A new object is never one of the existing ones.
\<close>

definition handles_created :: "('k, 'v) tracked \<Rightarrow> bool" where
  "handles_created T =
     (list_all (\<lambda>p. snd p < nextHandle T) (state T) \<and>
      list_all (\<lambda>h. h < nextHandle T) (live T) \<and>
      (\<forall>h\<in>removed T. h < nextHandle T))"


section \<open>Properties of the tracked collections\<close>

lemma mapHas_mapDelete [simp]: "\<not> mapHas (mapDelete k mp) k"
  by (auto simp: mapHas_def mapDelete_def)

lemma mapGet_mapSet [simp]: "mapGet (mapSet k x mp) k = Some x"
proof (cases "mapHas mp k")
  case True
  then have "map_of (map (\<lambda>p. if fst p = k then (k, x) else p) mp) k = Some x"
    by (induction mp) (auto simp: mapHas_def)
  with True show ?thesis by (simp add: mapGet_def mapSet_def)
next
  case False
  then have "map_of mp k = None" by (simp add: mapHas_def map_of_eq_None_iff)
  with False show ?thesis by (simp add: mapGet_def mapSet_def map_add_def)
qed

lemma mapGet_mapDelete [simp]: "mapGet (mapDelete k mp) k = None"
  by (simp add: mapGet_def mapDelete_def map_of_eq_None_iff image_iff)

lemma mapGet_bound:
  "list_all (\<lambda>p. snd p < n) mp \<Longrightarrow> mapGet mp k = Some h \<Longrightarrow> h < n"
  by (auto simp: mapGet_def list_all_iff dest!: map_of_SomeD)

lemma set_setAdd [simp]: "set (setAdd x xs) = insert x (set xs)"
  by (auto simp: setAdd_def)

lemma set_setDelete [simp]: "set (setDelete x xs) = set xs - {x}"
  by (auto simp: setDelete_def)

lemma list_all_mapDelete:
  "list_all P mp \<Longrightarrow> list_all P (mapDelete k mp)"
  by (simp add: mapDelete_def list_all_iff)

lemma list_all_setDelete:
  "list_all P xs \<Longrightarrow> list_all P (setDelete x xs)"
  by (simp add: setDelete_def list_all_iff)

lemma handles_created_abort:
  "handles_created T \<Longrightarrow> handles_created (abort prev T)"
  by (cases prev) (simp_all add: handles_created_def abort_def list_all_setDelete)

lemma handles_created_redraw:
  "handles_created T \<Longrightarrow> handles_created (redraw T)"
  by (simp add: handles_created_def redraw_def)

text \<open>The operations keep every handle of the collection below the next free number.\<close>

lemma handles_created_remove:
  "handles_created T \<Longrightarrow> handles_created (snd (remove k r T))"
proof -
  assume wf: "handles_created T"
  then have "handles_created (T\<lparr>state := mapDelete k (state T)\<rparr>)"
    by (simp add: handles_created_def list_all_mapDelete)
  then show ?thesis
    by (simp add: remove_def Let_def handles_created_abort handles_created_redraw)
qed

lemma handles_created_release:
  "handles_created T \<Longrightarrow> h < nextHandle T \<Longrightarrow> handles_created (release h T)"
  by (simp add: handles_created_def release_def redraw_def list_all_setDelete)

lemma handles_created_setHandle:
  "handles_created T \<Longrightarrow> handles_created (setHandle k v b1 b2 T)"
proof -
  assume wf: "handles_created T"
  have s: "list_all (\<lambda>p. snd p < Suc (nextHandle T)) (mapSet k (nextHandle T) (state T))"
    using wf by (auto simp: handles_created_def mapSet_def list_all_iff intro: less_SucI)
  have l: "list_all (\<lambda>h. h < Suc (nextHandle T)) (live T)"
    using wf by (auto simp: handles_created_def list_all_iff intro: less_SucI)
  have r: "\<forall>h\<in>removed T. h < Suc (nextHandle T)"
    using wf by (auto simp: handles_created_def intro: less_SucI)
  show ?thesis
    using s l r
    by (cases "mapGet (state T) k")
       (auto simp: handles_created_def setHandle_def Let_def abort_def redraw_def list_all_iff)
qed

lemma handles_created_empty: "handles_created emptyTracked"
  by (simp add: handles_created_def emptyTracked_def)

lemma handles_created_foldl:
  "handles_created T \<Longrightarrow>
   handles_created (foldl (\<lambda>T p. setHandle (fst p) (snd p) True False T) T initial)"
  by (induction initial arbitrary: T) (simp_all add: handles_created_setHandle)

lemma handles_created_trackedList: "handles_created (trackedList initial)"
  by (simp add: trackedList_def handles_created_foldl handles_created_empty)

text \<open>What \<open>set(k, v)\<close> leaves behind: the new handle is the one registered for \<open>k\<close>.\<close>

lemma setHandle_fresh:
  assumes wf: "handles_created T"
  shows "mapGet (state (tl_set k v T)) k = Some (nextHandle T)"
    and "nextHandle T \<in> set (live (tl_set k v T))"
    and "nextHandle T \<notin> removed (tl_set k v T)"
    and "hkey (handles (tl_set k v T) (nextHandle T)) = k"
    and "\<not> selfNull (handles (tl_set k v T) (nextHandle T))"
proof -
  let ?h = "nextHandle T"
  from wf have nr: "?h \<notin> removed T"
    by (auto simp: handles_created_def)
  from wf have prev: "mapGet (state T) k \<noteq> Some ?h"
    by (auto simp: handles_created_def dest: mapGet_bound)
  show "mapGet (state (tl_set k v T)) k = Some ?h"
    by (cases "mapGet (state T) k")
       (simp_all add: tl_set_def setHandle_def Let_def abort_def redraw_def)
  show "?h \<in> set (live (tl_set k v T))"
    using prev by (cases "mapGet (state T) k")
       (simp_all add: tl_set_def setHandle_def Let_def abort_def redraw_def)
  show "?h \<notin> removed (tl_set k v T)"
    using nr by (cases "mapGet (state T) k")
       (simp_all add: tl_set_def setHandle_def Let_def abort_def redraw_def)
  show "hkey (handles (tl_set k v T) ?h) = k"
    using prev by (cases "mapGet (state T) k")
       (simp_all add: tl_set_def setHandle_def Let_def abort_def redraw_def)
  show "\<not> selfNull (handles (tl_set k v T) ?h)"
    using prev by (cases "mapGet (state T) k")
       (simp_all add: tl_set_def setHandle_def Let_def abort_def redraw_def)
qed

text \<open>Deleting the key of a registered, unreleased handle aborts it and keeps it in \<open>live\<close>.\<close>

lemma delete_current:
  assumes "mapGet (state S) k = Some h" and "h \<in> set (live S)" and "h \<notin> removed S"
    and "hkey (handles S h) = k" and "\<not> selfNull (handles S h)"
  shows "\<not> tl_has k (snd (tl_delete k S))"
    and "h \<in> set (tl_live (snd (tl_delete k S)))"
    and "aborted (handles (snd (tl_delete k S)) h)"
    and "h \<notin> set (tl_live (release h (snd (tl_delete k S))))"
  using assms
  by (simp_all add: tl_delete_def tl_has_def tl_live_def remove_def abort_def redraw_def
        release_def Let_def)

text \<open>
  C7, as the code has it. After \<open>set(k, v)\<close> then \<open>delete(k)\<close>, \<open>has(k)\<close> is false; the
  handle created by the \<open>set\<close> is still in the array returned by \<open>live()\<close>, now with its
  signal aborted, and it leaves \<open>live()\<close> when its \<open>release()\<close> is called.
\<close>

theorem tracked_set_then_delete:
  assumes wf: "handles_created T"
  shows "let T1 = tl_set k v T; h = nextHandle T; T2 = snd (tl_delete k T1)
         in \<not> tl_has k T2 \<and> h \<in> set (tl_live T2) \<and> aborted (handles T2 h) \<and>
            h \<notin> set (tl_live (release h T2))"
  using delete_current [OF setHandle_fresh [OF wf, of k v]]
  by (simp add: Let_def)

theorem tracked_set_then_delete_witness:
  "handles_created (emptyTracked :: (nat, nat) tracked) \<and>
   (let T1 = tl_set (1::nat) (10::nat) emptyTracked;
        h = nextHandle (emptyTracked :: (nat, nat) tracked);
        T2 = snd (tl_delete 1 T1)
    in \<not> tl_has 1 T2 \<and> h \<in> set (tl_live T2) \<and> aborted (handles T2 h) \<and>
       h \<notin> set (tl_live (release h T2)))"
proof -
  have wf: "handles_created (emptyTracked :: (nat, nat) tracked)"
    by (simp add: handles_created_def emptyTracked_def)
  from tracked_set_then_delete [OF wf, of 1 10] wf show ?thesis by blast
qed

text \<open>
  C7 as stated fails: on the empty collection, after \<open>set(1, 10)\<close> and \<open>delete(1)\<close> the
  handle created by the \<open>set\<close> (number 0) is in \<open>live()\<close>.
\<close>

theorem tracked_set_then_delete_counterexample:
  "\<not> (\<not> tl_has (1::nat) (snd (tl_delete 1 (tl_set 1 (10::nat) emptyTracked))) \<and>
      0 \<notin> set (tl_live (snd (tl_delete (1::nat) (tl_set 1 (10::nat) emptyTracked)))))"
  by (simp add: tl_set_def tl_delete_def tl_has_def tl_live_def setHandle_def remove_def
        abort_def redraw_def Let_def emptyTracked_def mapGet_def mapSet_def mapHas_def
        mapDelete_def setAdd_def setDelete_def)

section \<open>Virtual nodes and the state of the renderer\<close>

text \<open>
  Objects are named by numbers: \<open>vref\<close> a vnode, \<open>nid\<close> a node of the host document,
  \<open>oref\<close> a plain object, \<open>mref\<close> a \<open>Map\<close>, \<open>fnid\<close> a function. Two references are
  the same object exactly when the numbers are equal.
\<close>

type_synonym vref = nat
type_synonym nid = nat
type_synonym oref = nat
type_synonym mref = nat
type_synonym fnid = nat

definition TYPE_MASK :: int where "TYPE_MASK = 15"
definition TYPE_RETAIN :: int where "TYPE_RETAIN = - 1"
definition TYPE_FRAGMENT :: int where "TYPE_FRAGMENT = 0"
definition TYPE_KEYED :: int where "TYPE_KEYED = 1"
definition TYPE_TEXT :: int where "TYPE_TEXT = 2"
definition TYPE_ELEMENT :: int where "TYPE_ELEMENT = 3"
definition TYPE_COMPONENT :: int where "TYPE_COMPONENT = 4"
definition TYPE_LAYOUT :: int where "TYPE_LAYOUT = 5"
definition TYPE_REMOVE :: int where "TYPE_REMOVE = 6"
definition TYPE_SET_CONTEXT :: int where "TYPE_SET_CONTEXT = 7"
definition TYPE_USE :: int where "TYPE_USE = 8"
definition TYPE_INLINE :: int where "TYPE_INLINE = 9"

definition FLAG_USED :: int where "FLAG_USED = 16"
definition FLAG_IS_REMOVE :: int where "FLAG_IS_REMOVE = 32"
definition FLAG_HTML_ELEMENT :: int where "FLAG_HTML_ELEMENT = 64"
definition FLAG_CUSTOM_ELEMENT :: int where "FLAG_CUSTOM_ELEMENT = 128"
definition FLAG_INPUT_ELEMENT :: int where "FLAG_INPUT_ELEMENT = 256"
definition FLAG_SELECT_ELEMENT :: int where "FLAG_SELECT_ELEMENT = 512"
definition FLAG_OPTION_ELEMENT :: int where "FLAG_OPTION_ELEMENT = 1024"
definition FLAG_TEXTAREA_ELEMENT :: int where "FLAG_TEXTAREA_ELEMENT = 2048"
definition FLAG_IS_FILE_INPUT :: int where "FLAG_IS_FILE_INPUT = 4096"

lemmas type_defs = TYPE_MASK_def TYPE_RETAIN_def TYPE_FRAGMENT_def TYPE_KEYED_def TYPE_TEXT_def
  TYPE_ELEMENT_def TYPE_COMPONENT_def TYPE_LAYOUT_def TYPE_REMOVE_def TYPE_SET_CONTEXT_def
  TYPE_USE_def TYPE_INLINE_def

lemmas flag_defs = FLAG_USED_def FLAG_IS_REMOVE_def FLAG_HTML_ELEMENT_def
  FLAG_CUSTOM_ELEMENT_def FLAG_INPUT_ELEMENT_def FLAG_SELECT_ELEMENT_def
  FLAG_OPTION_ELEMENT_def FLAG_TEXTAREA_ELEMENT_def FLAG_IS_FILE_INPUT_def

text \<open>
  The six fields of a vnode. In the source they are \<open>m\<close>, \<open>t\<close>, \<open>a\<close>, \<open>c\<close>, \<open>s\<close> and
  \<open>d\<close>; here each carries the prefix \<open>v\<close>. The mask \<open>vm\<close> is a 32-bit integer whose
  low four bits are the kind; \<open>- 1\<close> is the retain node. The payloads are typed by what
  the factories store in them:
  \<^item> \<open>vt\<close>: nothing, a selector string, or a component function;
  \<^item> \<open>va\<close>: nothing, an attributes object, the entries object of a context-set node, the
    string of a text node, the \<open>Map\<close> of a keyed group, a function (inline view, hook
    callback), or a dependency array;
  \<^item> \<open>vc\<close>: nothing, an array of children (each a vnode or \<open>null\<close>), or the instance
    vnode of a component or inline view;
  \<^item> \<open>vs\<close>: nothing, the resolved view function, or the event dictionary of an element;
  \<^item> \<open>vd\<close>: the host node, if any.
  The factories never store a payload of a shape other than the one of the node's kind.
  Where the renderer reads a payload of the wrong shape, the model raises a TypeError.
\<close>

datatype tag = TagNull | TagStr string | TagFn fnid
datatype aval = ANull | AAttrs oref | AEntries oref | AText string | AMap mref | AFn fnid
  | ADeps "jsval list"
datatype cval = CNull | CArr "vref option list" | CNode vref
datatype sval = SNull | SFn fnid | SDict nat

record vnode =
  vm :: int
  vt :: tag
  va :: aval
  vc :: cval
  vs :: sval
  vd :: "nid option"

definition Vnode :: "int \<Rightarrow> tag \<Rightarrow> aval \<Rightarrow> cval \<Rightarrow> vnode" where
  "Vnode msk tg attrs children =
     \<lparr>vm = msk, vt = tg, va = attrs, vc = children, vs = SNull, vd = None\<rparr>"

text \<open>
  A plain object with its property descriptors, as \<open>Object.getOwnPropertyDescriptors\<close>,
  \<open>Object.create\<close> and \<open>Object.freeze\<close> see it. Contexts are such objects.
\<close>

datatype pkey = PStr string | PSym nat

datatype pdesc =
    DataDesc (dvalue: jsval) (writable: bool) (enumerable: bool) (configurable: bool)
  | AccessorDesc (getter: jsval) (setter: jsval) (enumerable: bool) (configurable: bool)

record jsobject =
  proto :: "oref option"
  props :: "(pkey \<times> pdesc) list"
  extensible :: bool

text \<open>The cached parse of a selector: \<open>{t: tag, a: attrs or null, c: className}\<close>.\<close>

record selector_state =
  sel_t :: string
  sel_a :: "(string \<times> jsval) list option"
  sel_c :: "string option"

text \<open>The mutations of the host document that the renderer itself performs.\<close>

datatype hostop =
    CreateTextNode nid string
  | CreateElement nid "string option" string jsval
  | SetAttributeIs nid jsval
  | SetType nid jsval
  | After nid "nid option"
  | Prepend nid "nid option"
  | RemoveNode nid
  | SetNodeValue nid string
  | SetTextContent nid
  | Focus nid

text \<open>
  A value handed to \<open>m.normalize\<close>: \<open>null\<close>, \<open>undefined\<close> or a boolean (\<open>TNull\<close>); any
  other primitive, given by the string \<open>String(node)\<close> (\<open>TText\<close>); an array; or an
  object, taken to be a vnode.
\<close>

datatype tree = TNull | TText string | TArr "tree list" | TNode vref

text \<open>
  The state: the stores of vnodes, keyed maps, attribute objects (own enumerable data
  properties, in order), descriptor objects and arrays of children not yet normalised;
  the selector cache; the host document
  (parent of each node, namespace, the vnode tree stored on a render target, owner
  document, active element, body, and the log of the mutations performed); the module
  variables \<open>current...\<close> and \<open>currentlyRendering\<close>; and what \<open>console.error\<close>
  received. An unset module variable (\<open>undefined\<close> or \<open>null\<close>) is \<open>None\<close>.
  The keys of a keyed map are compared as a \<open>Map\<close> compares them; a \<open>Map\<close> never holds
  the negative zero as a key, so this is equality. \<open>hbody\<close> is the body of a document:
  what \<open>activeElement\<close> gives while no element inside has the focus.
\<close>

record rstate =
  vnodes :: "vref \<Rightarrow> vnode"
  nextVnode :: vref
  kmaps :: "mref \<Rightarrow> (jsval \<times> vref option) list"
  attrObjs :: "oref \<Rightarrow> (string \<times> jsval) list"
  objs :: "oref \<Rightarrow> jsobject"
  nextObj :: oref
  arrays :: "nat \<Rightarrow> tree list"
  nextArray :: nat
  selectorCache :: "string \<rightharpoonup> selector_state"
  hparent :: "nid \<Rightarrow> nid option"
  hnamespaceURI :: "nid \<Rightarrow> string option"
  hvnodes :: "nid \<Rightarrow> vref option"
  hdocument :: "nid \<Rightarrow> nat"
  hactive :: "nat \<Rightarrow> nid option"
  hbody :: "nat \<Rightarrow> nid option"
  nextNode :: nid
  hlog :: "hostop list"
  currentHooks :: "vref list"
  currentRedraw :: jsval
  currentParent :: "nid option"
  currentRefNode :: "nid option"
  currentNamespace :: "string option"
  currentDocument :: "nat option"
  currentContext :: "oref option"
  currentRemoveOnThrow :: bool
  currentlyRendering :: "nid list"
  console :: "exn list"

text \<open>
  How a call ends: normally, by an exception, or not at all within the recursion depth
  granted (\<open>Timeout\<close>). Both of the first two carry the state reached.
\<close>

datatype outcome = Done rstate | Raised exn rstate | Timeout

definition andThen :: "outcome \<Rightarrow> (rstate \<Rightarrow> outcome) \<Rightarrow> outcome" where
  "andThen oc f = (case oc of Done st \<Rightarrow> f st | Raised e st \<Rightarrow> Raised e st | Timeout \<Rightarrow> Timeout)"

definition tryCatch :: "outcome \<Rightarrow> (exn \<Rightarrow> rstate \<Rightarrow> outcome) \<Rightarrow> outcome" where
  "tryCatch oc h = (case oc of Done st \<Rightarrow> Done st | Raised e st \<Rightarrow> h e st | Timeout \<Rightarrow> Timeout)"

definition tryFinally :: "outcome \<Rightarrow> (rstate \<Rightarrow> rstate) \<Rightarrow> outcome" where
  "tryFinally oc fin =
     (case oc of Done st \<Rightarrow> Done (fin st) | Raised e st \<Rightarrow> Raised e (fin st) | Timeout \<Rightarrow> Timeout)"

text \<open>\<open>xs.forEach(f)\<close>, and \<open>for\<close> over a fixed sequence: stops at the first exception.\<close>

fun forEach :: "('a \<Rightarrow> rstate \<Rightarrow> outcome) \<Rightarrow> 'a list \<Rightarrow> rstate \<Rightarrow> outcome" where
  "forEach f [] st = Done st"
| "forEach f (x # xs) st = andThen (f x st) (forEach f xs)"

text \<open>
  A counted loop inside a \<open>try\<close>: when an iteration throws, the caller's \<open>catch\<close> sees
  the exception together with the value of the counter.
\<close>

datatype loop_outcome = LoopDone rstate | LoopRaised nat exn rstate | LoopTimeout

fun countLoop :: "('a \<Rightarrow> rstate \<Rightarrow> outcome) \<Rightarrow> nat \<Rightarrow> 'a list \<Rightarrow> rstate \<Rightarrow> loop_outcome" where
  "countLoop f i [] st = LoopDone st"
| "countLoop f i (x # xs) st =
     (case f x st of
        Done st' \<Rightarrow> countLoop f (Suc i) xs st'
      | Raised e st' \<Rightarrow> LoopRaised i e st'
      | Timeout \<Rightarrow> LoopTimeout)"

definition logError :: "exn \<Rightarrow> rstate \<Rightarrow> rstate" where
  "logError e st = st\<lparr>console := console st @ [e]\<rparr>"

definition notAnObject :: exn where
  "notAnObject = TypeError ''Cannot read properties of null or undefined''"

definition notAFunction :: exn where
  "notAFunction = TypeError ''not a function''"

definition setVnode :: "vref \<Rightarrow> (vnode \<Rightarrow> vnode) \<Rightarrow> rstate \<Rightarrow> rstate" where
  "setVnode r f st = st\<lparr>vnodes := (vnodes st)(r := f (vnodes st r))\<rparr>"

definition allocVnode :: "vnode \<Rightarrow> rstate \<Rightarrow> vref \<times> rstate" where
  "allocVnode v st =
     (nextVnode st, st\<lparr>vnodes := (vnodes st)(nextVnode st := v), nextVnode := Suc (nextVnode st)\<rparr>)"

definition allocObj :: "jsobject \<Rightarrow> rstate \<Rightarrow> oref \<times> rstate" where
  "allocObj ob st =
     (nextObj st, st\<lparr>objs := (objs st)(nextObj st := ob), nextObj := Suc (nextObj st)\<rparr>)"


section \<open>Normalising what a view returns (\<open>m.normalize\<close>)\<close>

fun normalize :: "tree \<Rightarrow> rstate \<Rightarrow> vref option \<times> rstate"
  and normalizeAll :: "tree list \<Rightarrow> rstate \<Rightarrow> vref option list \<times> rstate" where
  "normalize TNull st = (None, st)"
| "normalize (TText s) st =
     (let (r, st') = allocVnode (Vnode TYPE_TEXT TagNull (AText s) CNull) st in (Some r, st'))"
| "normalize (TArr ts) st =
     (let (cs, st1) = normalizeAll ts st;
          (r, st2) = allocVnode (Vnode TYPE_FRAGMENT TagNull ANull (CArr cs)) st1
      in (Some r, st2))"
| "normalize (TNode r) st = (Some r, st)"
| "normalizeAll [] st = ([], st)"
| "normalizeAll (t # ts) st =
     (let (c, st1) = normalize t st; (cs, st2) = normalizeAll ts st1 in (c # cs, st2))"

section \<open>The host document and the code supplied by the user\<close>

text \<open>
  What lies outside the renderer is a parameter of the model: the views of components
  and inline views and the callbacks of hooks (any function of the state, returning or
  throwing), the string forms of functions and other values, the refusal of the host to
  create an element, and the attribute patcher \<open>setAttr\<close> together with the two
  corrections of a new \<open>select\<close> element, which act on the live element only.
  A view returns a function or a value to normalise. \<open>inherited\<close> is what a lookup in an
  object literal finds under a name that is not one of its own keys, when that is truthy
  (\<open>toString\<close> and the other members of \<open>Object.prototype\<close>), as the string that
  \<open>createElementNS\<close> makes of it.
\<close>

datatype ret = RetFn fnid | RetTree tree

record env =
  component :: "fnid \<Rightarrow> oref option \<Rightarrow> aval \<Rightarrow> aval option \<Rightarrow> rstate \<Rightarrow> ret result \<times> rstate"
  inlineView :: "fnid \<Rightarrow> oref option \<Rightarrow> rstate \<Rightarrow> ret result \<times> rstate"
  hookCallback :: "fnid \<Rightarrow> nid option \<Rightarrow> rstate \<Rightarrow> unit result \<times> rstate"
  fnSource :: "fnid \<Rightarrow> string"
  toStr :: "jsval \<Rightarrow> string"
  createElementError :: "string option \<Rightarrow> string \<Rightarrow> exn option"
  setAttr :: "vref \<Rightarrow> nid \<Rightarrow> int \<Rightarrow> string \<Rightarrow> aval option \<Rightarrow> aval \<Rightarrow> rstate \<Rightarrow> outcome"
  selectValue :: "nid \<Rightarrow> aval \<Rightarrow> rstate \<Rightarrow> outcome"
  selectIndex :: "nid \<Rightarrow> aval \<Rightarrow> rstate \<Rightarrow> outcome"
  inherited :: "string \<Rightarrow> string option"

type_synonym updater = "vref option \<Rightarrow> vref option \<Rightarrow> rstate \<Rightarrow> outcome"
type_synonym mover = "vref option \<Rightarrow> rstate \<Rightarrow> outcome"

fun truthy :: "jsval \<Rightarrow> bool" where
  "truthy JUndefined = False"
| "truthy JNull = False"
| "truthy (JBool b) = b"
| "truthy (JNum NaN) = False"
| "truthy (JNum NegZero) = False"
| "truthy (JNum (Fin x)) = (x \<noteq> 0)"
| "truthy (JNum i) = True"
| "truthy (JStr s) = (s \<noteq> [])"
| "truthy (JFun f) = True"
| "truthy (JObj r) = True"
| "truthy (JArr r) = True"

fun isFunction :: "jsval \<Rightarrow> bool" where
  "isFunction (JFun f) = True"
| "isFunction v = False"

definition stringOf :: "env \<Rightarrow> jsval \<Rightarrow> string" where
  "stringOf E v = (case v of JStr s \<Rightarrow> s | _ \<Rightarrow> toStr E v)"

definition xlinkNs :: string where "xlinkNs = ''http://www.w3.org/1999/xlink''"
definition htmlNs :: string where "htmlNs = ''http://www.w3.org/1999/xhtml''"

text \<open>\<open>nameSpace[tag]\<close>, when it is truthy.\<close>

definition nameSpace :: "env \<Rightarrow> string \<Rightarrow> string option" where
  "nameSpace E tg =
     (if tg = ''svg'' then Some ''http://www.w3.org/2000/svg''
      else if tg = ''math'' then Some ''http://www.w3.org/1998/Math/MathML''
      else inherited E tg)"

text \<open>
  \<open>a.contains(b)\<close>: \<open>b\<close> is \<open>a\<close> or a descendant of \<open>a\<close>. The walk from \<open>b\<close> towards
  the root takes at most as many steps as there are nodes.
\<close>

fun climb :: "nat \<Rightarrow> (nid \<Rightarrow> nid option) \<Rightarrow> nid \<Rightarrow> nid \<Rightarrow> bool" where
  "climb 0 par a b = (a = b)"
| "climb (Suc k) par a b = (a = b \<or> (case par b of None \<Rightarrow> False | Some q \<Rightarrow> climb k par a q))"

definition contains :: "rstate \<Rightarrow> nid \<Rightarrow> nid \<Rightarrow> bool" where
  "contains st a b = climb (nextNode st) (hparent st) a b"

text \<open>
  When the element that has the focus leaves the document, alone or inside a node that
  is taken out of its parent, the focus falls back: \<open>activeElement\<close> is the body from then
  on, or nothing when the body has left as well. \<open>gone\<close> tells which nodes leave.
\<close>

definition blurred :: "(nid \<Rightarrow> bool) \<Rightarrow> nat \<Rightarrow> rstate \<Rightarrow> rstate" where
  "blurred gone doc st =
     (case hactive st doc of
        None \<Rightarrow> st
      | Some a \<Rightarrow>
          if gone a then
            st\<lparr>hactive := (hactive st)
                 (doc := (case hbody st doc of
                            None \<Rightarrow> None
                          | Some b \<Rightarrow> if gone b then None else Some b))\<rparr>
          else st)"

text \<open>A node that has a parent is taken out of it, with all that it contains.\<close>

definition detached :: "nid \<Rightarrow> rstate \<Rightarrow> rstate" where
  "detached x st = blurred (\<lambda>a. hparent st x \<noteq> None \<and> contains st x a) (hdocument st x) st"

text \<open>
  \<open>ref.after(child)\<close> does nothing when \<open>ref\<close> has no parent. A child that is in the
  document already is moved: it leaves its parent before it is inserted.
\<close>

definition hostAfter :: "nid \<Rightarrow> nid option \<Rightarrow> rstate \<Rightarrow> rstate" where
  "hostAfter r child st =
     (let st1 = st\<lparr>hlog := hlog st @ [After r child]\<rparr>
      in case child of
           None \<Rightarrow> st1
         | Some ch \<Rightarrow>
             (case hparent st r of
                None \<Rightarrow> st1
              | Some p \<Rightarrow> (detached ch st1)\<lparr>hparent := (hparent st)(ch := Some p)\<rparr>))"

definition hostPrepend :: "nid \<Rightarrow> nid option \<Rightarrow> rstate \<Rightarrow> rstate" where
  "hostPrepend p child st =
     (let st1 = st\<lparr>hlog := hlog st @ [Prepend p child]\<rparr>
      in case child of
           None \<Rightarrow> st1
         | Some ch \<Rightarrow> (detached ch st1)\<lparr>hparent := (hparent st)(ch := Some p)\<rparr>)"

definition hostRemove :: "nid \<Rightarrow> rstate \<Rightarrow> rstate" where
  "hostRemove x st =
     (detached x st)\<lparr>hlog := hlog st @ [RemoveNode x], hparent := (hparent st)(x := None)\<rparr>"

definition hostCreateTextNode :: "string \<Rightarrow> rstate \<Rightarrow> nid result \<times> rstate" where
  "hostCreateTextNode s st =
     (case currentDocument st of
        None \<Rightarrow> (Throw notAnObject, st)
      | Some doc \<Rightarrow>
          let x = nextNode st
          in (Return x,
              st\<lparr>nextNode := Suc x, hparent := (hparent st)(x := None),
                 hnamespaceURI := (hnamespaceURI st)(x := None),
                 hdocument := (hdocument st)(x := doc),
                 hlog := hlog st @ [CreateTextNode x s]\<rparr>))"

text \<open>\<open>createElementNS(ns, tag, opts)\<close> when \<open>ns\<close> is given, \<open>createElement(tag, opts)\<close> otherwise.\<close>

definition hostCreateElement :: "env \<Rightarrow> string option \<Rightarrow> string \<Rightarrow> jsval \<Rightarrow> rstate \<Rightarrow> nid result \<times> rstate" where
  "hostCreateElement E ns tg isv st =
     (case currentDocument st of
        None \<Rightarrow> (Throw notAnObject, st)
      | Some doc \<Rightarrow>
          (case createElementError E ns tg of
             Some e \<Rightarrow> (Throw e, st)
           | None \<Rightarrow>
               let x = nextNode st
               in (Return x,
                   st\<lparr>nextNode := Suc x, hparent := (hparent st)(x := None),
                      hnamespaceURI := (hnamespaceURI st)
                        (x := (case ns of None \<Rightarrow> Some htmlNs | Some u \<Rightarrow> Some u)),
                      hdocument := (hdocument st)(x := doc),
                      hlog := hlog st @ [CreateElement x ns tg isv]\<rparr>)))"

text \<open>\<open>dom.textContent = ""\<close> detaches every child of \<open>dom\<close>.\<close>

definition clearContent :: "nid \<Rightarrow> rstate \<Rightarrow> rstate" where
  "clearContent dm st =
     (blurred (\<lambda>a. a \<noteq> dm \<and> contains st dm a) (hdocument st dm) st)
       \<lparr>hlog := hlog st @ [SetTextContent dm],
        hparent := (\<lambda>x. if hparent st x = Some dm then None else hparent st x)\<rparr>"

text \<open>
  \<open>active.focus()\<close>, called on the element that was the active one when the render
  began. It could take the focus then, and it takes it again if it lies in the body of
  its document and the body is in the document; otherwise the call changes nothing.
\<close>

definition hostFocus :: "nid \<Rightarrow> rstate \<Rightarrow> rstate" where
  "hostFocus x st =
     (let st1 = st\<lparr>hlog := hlog st @ [Focus x]\<rparr>
      in case hbody st (hdocument st x) of
           None \<Rightarrow> st1
         | Some b \<Rightarrow>
             if hparent st b \<noteq> None \<and> contains st b x
             then st1\<lparr>hactive := (hactive st)(hdocument st x := Some x)\<rparr>
             else st1)"

text \<open>
  Reading a property of an attributes object, and \<open>for (key in attrs)\<close>. The names the
  renderer reads (\<open>is\<close>, \<open>xmlns\<close>, \<open>type\<close>, \<open>class\<close>, \<open>className\<close>, \<open>children\<close>) are not
  members of \<open>Object.prototype\<close>: a name that is not a key of the object gives \<open>undefined\<close>.
\<close>

definition attrGet :: "rstate \<Rightarrow> aval \<Rightarrow> string \<Rightarrow> jsval" where
  "attrGet st attrs k =
     (case attrs of
        AAttrs r \<Rightarrow> (case map_of (attrObjs st r) k of Some x \<Rightarrow> x | None \<Rightarrow> JUndefined)
      | _ \<Rightarrow> JUndefined)"

definition attrKeys :: "rstate \<Rightarrow> aval \<Rightarrow> string list" where
  "attrKeys st attrs = (case attrs of AAttrs r \<Rightarrow> map fst (attrObjs st r) | _ \<Rightarrow> [])"


section \<open>The reconciliation core\<close>

definition insertAfterCurrentRefNode :: "nid option \<Rightarrow> rstate \<Rightarrow> outcome" where
  "insertAfterCurrentRefNode child st =
     (case currentRefNode st of
        Some r \<Rightarrow> Done ((hostAfter r child st)\<lparr>currentRefNode := child\<rparr>)
      | None \<Rightarrow>
          (case currentParent st of
             None \<Rightarrow> Raised notAnObject st
           | Some p \<Rightarrow> Done ((hostPrepend p child st)\<lparr>currentRefNode := child\<rparr>)))"

text \<open>
  \<open>moveToPosition\<close>: the \<open>while\<close> loop that descends through instance vnodes is the
  recursive call \<open>mv\<close> on the instance.
\<close>

definition moveToPosition_body :: "mover \<Rightarrow> vref option \<Rightarrow> rstate \<Rightarrow> outcome" where
  "moveToPosition_body mv vnode st =
     (case vnode of
        None \<Rightarrow> Raised notAnObject st
      | Some r \<Rightarrow>
          let v = vnodes st r; type = vm v AND TYPE_MASK in
          if type = TYPE_COMPONENT \<or> type = TYPE_INLINE then
            (case vc v of
               CNull \<Rightarrow> Done st
             | CNode i \<Rightarrow> mv (Some i) st
             | CArr cs \<Rightarrow> Raised notAnObject st)
          else if type = TYPE_FRAGMENT \<or> type = TYPE_USE \<or> type = TYPE_SET_CONTEXT then
            (case vc v of
               CArr cs \<Rightarrow> forEach mv cs st
             | _ \<Rightarrow> Raised notAnObject st)
          else if type = TYPE_TEXT \<or> type = TYPE_ELEMENT then
            insertAfterCurrentRefNode (vd v) st
          else if type = TYPE_KEYED then
            (case va v of
               AMap mr \<Rightarrow> forEach mv (map snd (kmaps st mr)) st
             | _ \<Rightarrow> Raised notAFunction st)
          else Done st)"

primrec moveToPosition :: "nat \<Rightarrow> vref option \<Rightarrow> rstate \<Rightarrow> outcome" where
  "moveToPosition 0 vnode st = Timeout"
| "moveToPosition (Suc n) vnode st = moveToPosition_body (moveToPosition n) vnode st"

text \<open>\<open>vnode != null ? vnode.c.length : 0\<close>, with the array it measures.\<close>

definition childrenOf :: "rstate \<Rightarrow> vref option \<Rightarrow> exn + vref option list" where
  "childrenOf st vnode =
     (case vnode of
        None \<Rightarrow> Inr []
      | Some r \<Rightarrow> (case vc (vnodes st r) of CArr cs \<Rightarrow> Inr cs | _ \<Rightarrow> Inl notAnObject))"

text \<open>
  \<open>updateFragment\<close>. The two loops of the \<open>try\<close> block run over the common prefix
  (old child against new child) and then over the extra new children (nothing against
  new child); the variable \<open>i\<close> they share is the counter of \<open>countLoop\<close>.
\<close>

definition updateFragment :: "updater \<Rightarrow> vref option \<Rightarrow> vref option \<Rightarrow> rstate \<Rightarrow> outcome" where
  "updateFragment upd old vnode st =
     (case childrenOf st vnode of
        Inl e \<Rightarrow> Raised e st
      | Inr news \<Rightarrow>
     (case childrenOf st old of
        Inl e \<Rightarrow> Raised e st
      | Inr olds \<Rightarrow>
          let newLength = length news;
              oldLength = length olds;
              commonLength = (if oldLength < newLength then oldLength else newLength)
          in case countLoop (\<lambda>p. upd (fst p) (snd p)) 0
                    (zip (take commonLength olds) (take commonLength news) @
                     map (Pair None) (drop commonLength news)) st of
               LoopTimeout \<Rightarrow> Timeout
             | LoopRaised i e st1 \<Rightarrow>
                 andThen (forEach (\<lambda>x. upd x None) (take i news) st1) (\<lambda>st2.
                 andThen (forEach (\<lambda>x. upd x None) (drop i olds) st2) (\<lambda>st3.
                 Raised e st3))
             | LoopDone st1 \<Rightarrow> forEach (\<lambda>x. upd x None) (drop commonLength olds) st1))"

text \<open>
  \<open>updateUse\<close>. The dependencies of the two nodes are compared one by one with
  \<open>Object.is\<close>, which is equality of values here.
\<close>

definition depsOf :: "rstate \<Rightarrow> vref \<Rightarrow> exn + jsval list" where
  "depsOf st r = (case va (vnodes st r) of ADeps ds \<Rightarrow> Inr ds | _ \<Rightarrow> Inl notAnObject)"

definition updateUse :: "updater \<Rightarrow> vref option \<Rightarrow> vref option \<Rightarrow> rstate \<Rightarrow> outcome" where
  "updateUse upd old vnode st =
     (case (old, vnode) of
        (Some ol, Some v) \<Rightarrow>
          (case depsOf st v of
             Inl e \<Rightarrow> Raised e st
           | Inr nd \<Rightarrow>
          (case depsOf st ol of
             Inl e \<Rightarrow> Raised e st
           | Inr od \<Rightarrow>
               if length nd \<noteq> length od \<or> list_ex (\<lambda>p. fst p \<noteq> snd p) (zip nd od) then
                 andThen (updateFragment upd old None st) (updateFragment upd None vnode)
               else updateFragment upd old vnode st))
      | _ \<Rightarrow> updateFragment upd old vnode st)"

definition removeKeyed :: "updater \<Rightarrow> vref \<Rightarrow> rstate \<Rightarrow> outcome" where
  "removeKeyed upd ol st =
     (case va (vnodes st ol) of
        AMap om \<Rightarrow> forEach (\<lambda>p. upd p None) (map snd (kmaps st om)) st
      | _ \<Rightarrow> Raised notAFunction st)"

text \<open>The callback of \<open>vnode.a.forEach\<close> in \<open>updateKeyed\<close>, for the entry \<open>(k, n)\<close>.\<close>

definition keyedStep :: "updater \<Rightarrow> mover \<Rightarrow> vref option \<Rightarrow> jsval \<times> vref option \<Rightarrow> rstate \<Rightarrow> outcome" where
  "keyedStep upd mv old kn st =
     (case old of
        None \<Rightarrow> upd None (snd kn) st
      | Some ol \<Rightarrow>
          (case va (vnodes st ol) of
             AMap om \<Rightarrow>
               (case mapGet (kmaps st om) (fst kn) of
                  Some (Some p) \<Rightarrow>
                    let prev = currentRefNode st in
                    andThen (mv (Some p) st) (\<lambda>st1.
                    andThen (upd (Some p) (snd kn) (st1\<lparr>currentRefNode := prev\<rparr>)) (\<lambda>st2.
                      (case va (vnodes st2 ol) of
                         AMap om2 \<Rightarrow>
                           Done (st2\<lparr>kmaps := (kmaps st2)(om2 := mapDelete (fst kn) (kmaps st2 om2))\<rparr>)
                       | _ \<Rightarrow> Raised notAFunction st2)))
                | _ \<Rightarrow> upd None (snd kn) st)
           | _ \<Rightarrow> Raised notAFunction st))"

text \<open>
  \<open>updateKeyed\<close>. The counter \<open>added\<close> is the counter of \<open>countLoop\<close>. After a failure
  the loop over \<open>vnode.a.values()\<close> decrements \<open>added\<close> before each test and leaves as
  soon as the result is not zero: it removes the first entry exactly when \<open>added\<close> was 1.
\<close>

definition updateKeyed :: "updater \<Rightarrow> mover \<Rightarrow> vref option \<Rightarrow> vref \<Rightarrow> rstate \<Rightarrow> outcome" where
  "updateKeyed upd mv old v st =
     (let walked =
            (case va (vnodes st v) of
               AMap nm \<Rightarrow> countLoop (keyedStep upd mv old) 0 (kmaps st nm) st
             | _ \<Rightarrow> LoopRaised 0 notAFunction st);
          removeOld = (\<lambda>s. case old of None \<Rightarrow> Done s | Some ol \<Rightarrow> removeKeyed upd ol s)
      in case walked of
           LoopTimeout \<Rightarrow> Timeout
         | LoopDone st1 \<Rightarrow> removeOld st1
         | LoopRaised added e st1 \<Rightarrow>
             andThen (removeOld st1) (\<lambda>st2.
               (case va (vnodes st2 v) of
                  AMap nm \<Rightarrow>
                    (case kmaps st2 nm of
                       [] \<Rightarrow> Raised e st2
                     | kn # rest \<Rightarrow>
                         if added = 1 then andThen (upd (snd kn) None st2) (Raised e)
                         else Raised e st2)
                | _ \<Rightarrow> Raised notAFunction st2)))"

definition updateLayout :: "vref \<Rightarrow> rstate \<Rightarrow> outcome" where
  "updateLayout v st =
     (let st1 = setVnode v (\<lambda>x. x\<lparr>vd := currentParent st\<rparr>) st
      in Done (st1\<lparr>currentHooks := currentHooks st1 @ [v]\<rparr>))"

definition updateRemove :: "vref \<Rightarrow> rstate \<Rightarrow> outcome" where
  "updateRemove v st = Done (setVnode v (\<lambda>x. x\<lparr>vd := currentParent st\<rparr>) st)"

text \<open>
  \<open>updateSet\<close>. The descriptors of the entries: one that is not enumerable is replaced
  by the empty descriptor, which \<open>Object.create\<close> completes with its defaults; an
  accessor loses its setter. An attributes object used as entries has enumerable,
  writable, configurable data properties only.
\<close>

definition neutralize :: "pdesc \<Rightarrow> pdesc" where
  "neutralize ds =
     (if \<not> enumerable ds then DataDesc JUndefined False False False
      else case ds of
             AccessorDesc g s en cf \<Rightarrow> AccessorDesc g JUndefined en cf
           | DataDesc x w en cf \<Rightarrow> ds)"

definition freezeDesc :: "pdesc \<Rightarrow> pdesc" where
  "freezeDesc ds =
     (case ds of
        DataDesc x w en cf \<Rightarrow> DataDesc x False en False
      | AccessorDesc g s en cf \<Rightarrow> AccessorDesc g s en False)"

definition ownDescriptors :: "rstate \<Rightarrow> aval \<Rightarrow> exn + (pkey \<times> pdesc) list" where
  "ownDescriptors st entries =
     (case entries of
        AEntries r \<Rightarrow> Inr (props (objs st r))
      | AAttrs r \<Rightarrow> Inr (map (\<lambda>p. (PStr (fst p), DataDesc (snd p) True True True)) (attrObjs st r))
      | _ \<Rightarrow> Inl notAnObject)"

text \<open>\<open>Object.freeze(Object.create(prevContext, descs))\<close>.\<close>

definition derivedContext :: "oref \<Rightarrow> (pkey \<times> pdesc) list \<Rightarrow> jsobject" where
  "derivedContext prevContext descs =
     \<lparr>proto = Some prevContext,
      props = map (\<lambda>p. (fst p, freezeDesc (neutralize (snd p)))) descs,
      extensible = False\<rparr>"

text \<open>
  \<open>var prevContext = currentContext; currentContext = Object.freeze(Object.create(prevContext, descs))\<close>:
  the derived context is a new object and becomes the current one.
\<close>

definition enterContext :: "oref \<Rightarrow> (pkey \<times> pdesc) list \<Rightarrow> rstate \<Rightarrow> rstate" where
  "enterContext prevContext descs st =
     (snd (allocObj (derivedContext prevContext descs) st))\<lparr>currentContext := Some (nextObj st)\<rparr>"

definition updateSet :: "updater \<Rightarrow> vref option \<Rightarrow> vref \<Rightarrow> rstate \<Rightarrow> outcome" where
  "updateSet upd old v st =
     (case ownDescriptors st (va (vnodes st v)) of
        Inl e \<Rightarrow> Raised e st
      | Inr descs \<Rightarrow>
          (case currentContext st of
             None \<Rightarrow> Raised (TypeError ''Object prototype may only be an Object or null'') st
           | Some prevContext \<Rightarrow>
               andThen (updateFragment upd old (Some v) (enterContext prevContext descs st))
                 (\<lambda>st3. Done (st3\<lparr>currentContext := Some prevContext\<rparr>))))"

definition updateText :: "vref option \<Rightarrow> vref \<Rightarrow> rstate \<Rightarrow> outcome" where
  "updateText old v st =
     (case va (vnodes st v) of
        AText s \<Rightarrow>
          (case old of
             None \<Rightarrow>
               (case hostCreateTextNode s st of
                  (Throw e, st1) \<Rightarrow> Raised e st1
                | (Return x, st1) \<Rightarrow>
                    insertAfterCurrentRefNode (Some x) (setVnode v (\<lambda>n. n\<lparr>vd := Some x\<rparr>) st1))
           | Some ol \<Rightarrow>
               (case va (vnodes st ol) of
                  AText os \<Rightarrow>
                    let od = vd (vnodes st ol);
                        keep = (\<lambda>s1. (setVnode v (\<lambda>n. n\<lparr>vd := od\<rparr>) s1)\<lparr>currentRefNode := od\<rparr>)
                    in if os \<noteq> s then
                         (case od of
                            None \<Rightarrow> Raised notAnObject st
                          | Some x \<Rightarrow> Done (keep (st\<lparr>hlog := hlog st @ [SetNodeValue x s]\<rparr>)))
                       else Done (keep st)
                | _ \<Rightarrow> Raised notAnObject st))
      | _ \<Rightarrow> Raised notAnObject st)"

text \<open>\<open>removeNode\<close>: the host's \<open>remove()\<close> does not throw.\<close>

definition removeNode :: "vref \<Rightarrow> rstate \<Rightarrow> rstate" where
  "removeNode ol st =
     (case vd (vnodes st ol) of
        None \<Rightarrow> st
      | Some x \<Rightarrow> setVnode ol (\<lambda>n. n\<lparr>vd := None\<rparr>) (hostRemove x st))"

definition removeElement :: "updater \<Rightarrow> vref \<Rightarrow> rstate \<Rightarrow> outcome" where
  "removeElement upd ol st = updateFragment upd (Some ol) None (removeNode ol st)"

definition removeInstance :: "updater \<Rightarrow> vref \<Rightarrow> rstate \<Rightarrow> outcome" where
  "removeInstance upd ol st =
     (case vc (vnodes st ol) of
        CNode i \<Rightarrow> upd (Some i) None st
      | CNull \<Rightarrow> upd None None st
      | CArr cs \<Rightarrow> Raised notAnObject st)"

definition handleAttributeError :: "updater \<Rightarrow> vref option \<Rightarrow> exn \<Rightarrow> bool \<Rightarrow> rstate \<Rightarrow> outcome" where
  "handleAttributeError upd old e force st =
     (if currentRemoveOnThrow st \<or> force then
        andThen (case old of None \<Rightarrow> Done st | Some ol \<Rightarrow> removeElement upd ol st) (Raised e)
      else Done (logError e st))"

text \<open>\<open>tag.toUpperCase()\<close> on the letters a to z.\<close>

definition upperChar :: "char \<Rightarrow> char" where
  "upperChar ch =
     (let k = (of_char ch :: nat) in if 97 \<le> k \<and> k \<le> 122 then char_of (k - 32) else ch)"

definition toUpperCase :: "string \<Rightarrow> string" where
  "toUpperCase s = map upperChar s"

definition elementFlags :: "bool \<Rightarrow> string \<Rightarrow> int" where
  "elementFlags custom tg =
     (if custom then FLAG_HTML_ELEMENT OR FLAG_CUSTOM_ELEMENT
      else let up = toUpperCase tg in
        if up = ''INPUT'' then FLAG_HTML_ELEMENT OR FLAG_INPUT_ELEMENT
        else if up = ''SELECT'' then FLAG_HTML_ELEMENT OR FLAG_SELECT_ELEMENT
        else if up = ''OPTION'' then FLAG_HTML_ELEMENT OR FLAG_OPTION_ELEMENT
        else if up = ''TEXTAREA'' then FLAG_HTML_ELEMENT OR FLAG_TEXTAREA_ELEMENT
        else FLAG_HTML_ELEMENT)"

text \<open>
  The first part of \<open>updateElement\<close>, up to \<open>currentRefNode = null\<close>: it creates the
  element or takes over the old one, and yields the element, the mask and the old
  attributes (\<open>None\<close> for \<open>undefined\<close>).
\<close>

definition openElement :: "env \<Rightarrow> vref option \<Rightarrow> vref \<Rightarrow> rstate \<Rightarrow> (nid \<times> int \<times> aval option) result \<times> rstate" where
  "openElement E old v st =
     (let msk = vm (vnodes st v); attrs = va (vnodes st v); prevNamespace = currentNamespace st
      in case old of
           None \<Rightarrow>
             (case vt (vnodes st v) of
                TagStr sel \<Rightarrow>
                  let tg = (case selectorCache st sel of Some entry \<Rightarrow> sel_t entry | None \<Rightarrow> sel);
                      customTag = (CHR ''-'' \<in> set tg);
                      isv = (if customTag then JBool False else attrGet st attrs ''is'');
                      xm = attrGet st attrs ''xmlns'';
                      ns = (if truthy xm then Some (stringOf E xm)
                            else case nameSpace E tg of Some u \<Rightarrow> Some u | None \<Rightarrow> prevNamespace)
                  in (case hostCreateElement E ns tg (if truthy isv then isv else JNull) st of
                        (Throw e, st1) \<Rightarrow> (Throw e, st1)
                      | (Return element, st1) \<Rightarrow>
                          let msk1 = (if ns = None then msk OR elementFlags (truthy isv \<or> customTag) tg
                                      else msk);
                              st2 = (if ns = None then setVnode v (\<lambda>n. n\<lparr>vm := msk1\<rparr>) st1 else st1);
                              st3 = (if ns = None \<and> truthy isv
                                     then st2\<lparr>hlog := hlog st2 @ [SetAttributeIs element isv]\<rparr>
                                     else st2)
                          in (Return (element, msk1, None),
                              st3\<lparr>currentParent := Some element, currentNamespace := ns\<rparr>))
              | _ \<Rightarrow> (Throw notAFunction, st))
         | Some ol \<Rightarrow>
             let od = vd (vnodes st ol);
                 st1 = setVnode v (\<lambda>n. n\<lparr>vs := vs (vnodes st ol), vd := od\<rparr>) st;
                 st2 = st1\<lparr>currentParent := od\<rparr>
             in (case od of
                   None \<Rightarrow> (Throw notAnObject, st2)
                 | Some element \<Rightarrow>
                     (Return (element, msk, Some (va (vnodes st ol))),
                      st2\<lparr>currentNamespace :=
                        (if hnamespaceURI st element = Some htmlNs then None
                         else hnamespaceURI st element)\<rparr>)))"

text \<open>
  The body of the \<open>try\<close> block of \<open>updateElement\<close>. Each key is handed to the attribute
  patcher with the mask of that moment.
\<close>

definition patchAttrs :: "env \<Rightarrow> vref \<Rightarrow> nid \<Rightarrow> int \<Rightarrow> aval option \<Rightarrow> aval \<Rightarrow> rstate \<Rightarrow> outcome" where
  "patchAttrs E v element msk oldAttrs attrs st =
     (if oldAttrs \<noteq> None \<and> oldAttrs \<noteq> Some ANull \<and> oldAttrs = Some attrs then
        Raised (Error ''Attributes object cannot be reused.'') st
      else
        let ty = attrGet st attrs ''type'';
            typed = (attrs \<noteq> ANull \<and> msk AND FLAG_INPUT_ELEMENT \<noteq> 0 \<and> ty \<noteq> JNull \<and> ty \<noteq> JUndefined);
            msk1 = (if typed \<and> ty = JStr ''file'' then msk OR FLAG_IS_FILE_INPUT else msk);
            st1 = (if typed then st\<lparr>hlog := hlog st @ [SetType element ty]\<rparr> else st)
        in andThen (forEach (\<lambda>k. setAttr E v element msk1 k oldAttrs attrs) (attrKeys st1 attrs) st1)
             (\<lambda>st2. forEach (\<lambda>k. setAttr E v element (msk1 OR FLAG_IS_REMOVE) k oldAttrs attrs)
                       (case oldAttrs of None \<Rightarrow> [] | Some oa \<Rightarrow> attrKeys st2 oa) st2))"

definition selectFix :: "env \<Rightarrow> updater \<Rightarrow> nid \<Rightarrow> aval \<Rightarrow> rstate \<Rightarrow> outcome" where
  "selectFix E upd element attrs st =
     andThen (tryCatch (selectValue E element attrs st)
                (\<lambda>e s. handleAttributeError upd None e False s))
       (\<lambda>st1. tryCatch (selectIndex E element attrs st1)
                (\<lambda>e s. handleAttributeError upd None e False s))"

definition updateElement :: "env \<Rightarrow> updater \<Rightarrow> vref option \<Rightarrow> vref \<Rightarrow> rstate \<Rightarrow> outcome" where
  "updateElement E upd old v st =
     (let prevParent = currentParent st;
          prevRefNode = currentRefNode st;
          prevNamespace = currentNamespace st;
          attrs = va (vnodes st v)
      in case openElement E old v st of
           (Throw e, st1) \<Rightarrow> Raised e st1
         | (Return (element, msk, oldAttrs), st1) \<Rightarrow>
             (case patchAttrs E v element msk oldAttrs attrs (st1\<lparr>currentRefNode := None\<rparr>) of
                Timeout \<Rightarrow> Timeout
              | Raised e st2 \<Rightarrow> handleAttributeError upd old e True st2
              | Done st2 \<Rightarrow>
                  andThen (updateFragment upd old (Some v) st2) (\<lambda>st3.
                  andThen (if msk AND FLAG_SELECT_ELEMENT \<noteq> 0 \<and> old = None
                           then selectFix E upd element attrs st3 else Done st3) (\<lambda>st4.
                  let st5 = st4\<lparr>currentParent := prevParent, currentRefNode := prevRefNode,
                                 currentNamespace := prevNamespace\<rparr>
                  in andThen (if old = None
                              then insertAfterCurrentRefNode (Some element)
                                     (setVnode v (\<lambda>n. n\<lparr>vd := Some element\<rparr>) st5)
                              else Done st5) (\<lambda>st6.
                       Done (st6\<lparr>currentRefNode := Some element\<rparr>))))))"

text \<open>
  The end of \<open>updateComponent\<close> and of \<open>updateInline\<close>:
  \<open>updateNode(oldInstance, vnode.c = m.normalize(tree))\<close>.
\<close>

definition treeOf :: "env \<Rightarrow> ret \<Rightarrow> tree" where
  "treeOf E r = (case r of RetTree t \<Rightarrow> t | RetFn f \<Rightarrow> TText (fnSource E f))"

definition patchInstance :: "updater \<Rightarrow> vref option \<Rightarrow> vref \<Rightarrow> tree \<Rightarrow> rstate \<Rightarrow> outcome" where
  "patchInstance upd oldInstance v t st =
     (let (inst, st1) = normalize t st;
          st2 = setVnode v (\<lambda>n. n\<lparr>vc := (case inst of None \<Rightarrow> CNull | Some i \<Rightarrow> CNode i)\<rparr>) st1
      in upd oldInstance inst st2)"

definition instanceOf :: "rstate \<Rightarrow> vref \<Rightarrow> exn + vref option" where
  "instanceOf st r =
     (case vc (vnodes st r) of CNull \<Rightarrow> Inr None | CNode i \<Rightarrow> Inr (Some i) | CArr cs \<Rightarrow> Inl notAnObject)"

definition callView :: "env \<Rightarrow> fnid \<Rightarrow> aval \<Rightarrow> aval option \<Rightarrow> rstate \<Rightarrow> (ret \<Rightarrow> rstate \<Rightarrow> outcome) \<Rightarrow> outcome" where
  "callView E f attrs oldAttrs st k =
     (case component E f (currentContext st) attrs oldAttrs st of
        (Throw e, st1) \<Rightarrow> Raised e st1
      | (Return r, st1) \<Rightarrow> k r st1)"

definition updateComponent :: "env \<Rightarrow> updater \<Rightarrow> vref option \<Rightarrow> vref \<Rightarrow> rstate \<Rightarrow> outcome" where
  "updateComponent E upd old v st =
     tryCatch
       (let attrs = va (vnodes st v)
        in case old of
             Some ol \<Rightarrow>
               (case (vs (vnodes st ol), instanceOf st ol) of
                  (SFn f, Inr oldInstance) \<Rightarrow>
                    callView E f attrs (Some (va (vnodes st ol)))
                      (setVnode v (\<lambda>n. n\<lparr>vs := SFn f\<rparr>) st)
                      (\<lambda>r. patchInstance upd oldInstance v (treeOf E r))
                | (SFn f, Inl e) \<Rightarrow> Raised e st
                | _ \<Rightarrow> Raised notAFunction st)
           | None \<Rightarrow>
               (case vt (vnodes st v) of
                  TagFn f \<Rightarrow>
                    callView E f attrs None (setVnode v (\<lambda>n. n\<lparr>vs := SFn f\<rparr>) st)
                      (\<lambda>r st1. case r of
                          RetFn g \<Rightarrow>
                            callView E g attrs None (setVnode v (\<lambda>n. n\<lparr>vs := SFn g\<rparr>) st1)
                              (\<lambda>r2. patchInstance upd None v (treeOf E r2))
                        | RetTree t \<Rightarrow> patchInstance upd None v t st1)
                | _ \<Rightarrow> Raised notAFunction st))
       (\<lambda>e st1. if currentRemoveOnThrow st1 then Raised e st1 else Done (logError e st1))"

definition updateInline :: "env \<Rightarrow> updater \<Rightarrow> vref option \<Rightarrow> vref \<Rightarrow> rstate \<Rightarrow> outcome" where
  "updateInline E upd old v st =
     tryCatch
       (case (case old of None \<Rightarrow> Inr None | Some ol \<Rightarrow> instanceOf st ol) of
          Inl e \<Rightarrow> Raised e st
        | Inr oldInstance \<Rightarrow>
            (case va (vnodes st v) of
               AFn f \<Rightarrow>
                 (case inlineView E f (currentContext st) st of
                    (Throw e, st1) \<Rightarrow> Raised e st1
                  | (Return r, st1) \<Rightarrow> patchInstance upd oldInstance v (treeOf E r) st1)
             | _ \<Rightarrow> Raised notAFunction st))
       (\<lambda>e st1. if currentRemoveOnThrow st1 then Raised e st1 else Done (logError e st1))"

text \<open>
  The two dispatch tables, indexed by the kind. An index past the last entry reads
  \<open>undefined\<close>, and calling it throws.
\<close>

definition updateNodeDispatch :: "env \<Rightarrow> updater \<Rightarrow> mover \<Rightarrow> int \<Rightarrow> vref option \<Rightarrow> vref \<Rightarrow> rstate \<Rightarrow> outcome" where
  "updateNodeDispatch E upd mv type old v st =
     (if type = 0 then updateFragment upd old (Some v) st
      else if type = 1 then updateKeyed upd mv old v st
      else if type = 2 then updateText old v st
      else if type = 3 then updateElement E upd old v st
      else if type = 4 then updateComponent E upd old v st
      else if type = 5 then updateLayout v st
      else if type = 6 then updateRemove v st
      else if type = 7 then updateSet upd old v st
      else if type = 8 then updateUse upd old (Some v) st
      else if type = 9 then updateInline E upd old v st
      else Raised notAFunction st)"

definition removeNodeDispatch :: "updater \<Rightarrow> int \<Rightarrow> vref \<Rightarrow> rstate \<Rightarrow> outcome" where
  "removeNodeDispatch upd type ol st =
     (if type = 0 then updateFragment upd (Some ol) None st
      else if type = 1 then removeKeyed upd ol st
      else if type = 2 then Done (removeNode ol st)
      else if type = 3 then removeElement upd ol st
      else if type = 4 then removeInstance upd ol st
      else if type = 5 then Done st
      else if type = 6 then Done (st\<lparr>currentHooks := currentHooks st @ [ol]\<rparr>)
      else if type = 7 then updateFragment upd (Some ol) None st
      else if type = 8 then updateFragment upd (Some ol) None st
      else if type = 9 then removeInstance upd ol st
      else Raised notAFunction st)"

text \<open>
  \<open>updateNode\<close>, with its recursive calls as the parameter \<open>upd\<close>. The last \<open>try\<close> block
  of the source is \<open>guarded\<close>: when the update handler throws, the old node is removed
  and the exception thrown again.
\<close>

definition guarded :: "env \<Rightarrow> updater \<Rightarrow> mover \<Rightarrow> int \<Rightarrow> vref option \<Rightarrow> vref \<Rightarrow> rstate \<Rightarrow> outcome" where
  "guarded E upd mv type old v st =
     tryCatch (updateNodeDispatch E upd mv type old v st)
       (\<lambda>e st1. andThen (upd old None st1) (Raised e))"

definition transmute :: "vnode \<Rightarrow> vnode \<Rightarrow> vnode" where
  "transmute ol n = n\<lparr>vm := vm ol, vt := vt ol, vs := vs ol, va := va ol, vc := vc ol, vd := vd ol\<rparr>"

definition updateNode_body :: "env \<Rightarrow> updater \<Rightarrow> mover \<Rightarrow> vref option \<Rightarrow> vref option \<Rightarrow> rstate \<Rightarrow> outcome" where
  "updateNode_body E upd mv old vnode st =
     (if old = vnode then Done st
      else case old of
        None \<Rightarrow>
          (case vnode of
             None \<Rightarrow> Done st
           | Some v \<Rightarrow>
               if vm (vnodes st v) < 0 then Done st
               else if vm (vnodes st v) AND FLAG_USED \<noteq> 0 then
                 Raised (TypeError ''Vnodes must not be reused'') st
               else
                 let type = vm (vnodes st v) AND TYPE_MASK;
                     st1 = setVnode v (\<lambda>n. n\<lparr>vm := vm n OR FLAG_USED\<rparr>) st
                 in guarded E upd mv type None v st1)
      | Some ol \<Rightarrow>
          let type = vm (vnodes st ol) AND TYPE_MASK in
          (case vnode of
             None \<Rightarrow>
               tryCatch
                 (if type \<noteq> (TYPE_RETAIN AND TYPE_MASK) then removeNodeDispatch upd type ol st
                  else Done st)
                 (\<lambda>e st1. Done (logError e st1))
           | Some v \<Rightarrow>
               if vm (vnodes st v) < 0 then
                 Done (setVnode v (transmute (vnodes st ol)) st)
               else if vm (vnodes st v) AND FLAG_USED \<noteq> 0 then
                 Raised (TypeError ''Vnodes must not be reused'') st
               else if type = (vm (vnodes st v) AND TYPE_MASK) \<and>
                       vt (vnodes st v) = vt (vnodes st ol) then
                 guarded E upd mv (vm (vnodes st ol) AND TYPE_MASK) (Some ol) v
                   (setVnode v (\<lambda>n. n\<lparr>vm := vm (vnodes st ol)\<rparr>) st)
               else
                 andThen (upd (Some ol) None st) (\<lambda>st1.
                   guarded E upd mv (vm (vnodes st1 v) AND TYPE_MASK) None v st1)))"

primrec updateNode :: "nat \<Rightarrow> env \<Rightarrow> vref option \<Rightarrow> vref option \<Rightarrow> rstate \<Rightarrow> outcome" where
  "updateNode 0 E old vnode st = Timeout"
| "updateNode (Suc n) E old vnode st =
     updateNode_body E (updateNode n E) (moveToPosition n) old vnode st"

section \<open>The render entry point (\<open>m.render\<close>)\<close>

definition checkCallback :: "jsval \<Rightarrow> bool \<Rightarrow> string \<Rightarrow> jsval result" where
  "checkCallback cb allowNull label =
     (if (allowNull \<and> (cb = JNull \<or> cb = JUndefined)) \<or> isFunction cb then Return cb
      else Throw (TypeError (''`'' @ label @ ''` must be a function'' @
                             (if allowNull then '' if provided.'' else ''.''))))"

text \<open>One turn of the loop over the queued hooks: \<open>try { a(d) } catch (e) { console.error(e) }\<close>.\<close>

definition runHook :: "env \<Rightarrow> rstate \<Rightarrow> vref \<Rightarrow> rstate" where
  "runHook E st h =
     (case va (vnodes st h) of
        AFn f \<Rightarrow>
          (case hookCallback E f (vd (vnodes st h)) st of
             (Return u, st1) \<Rightarrow> st1
           | (Throw e, st1) \<Rightarrow> logError e st1)
      | _ \<Rightarrow> logError notAFunction st)"

text \<open>The body of the \<open>try\<close> block of \<open>m.render\<close>, entered with \<open>currentHooks = []\<close>.\<close>

definition renderBody :: "nat \<Rightarrow> env \<Rightarrow> nid \<Rightarrow> tree \<Rightarrow> jsval \<Rightarrow> jsval \<Rightarrow> nid option \<Rightarrow> string option \<Rightarrow> rstate \<Rightarrow> outcome" where
  "renderBody n E dm vnodeTree redrawOpt removeOnThrow active namespace st =
     (let st1 = st\<lparr>currentlyRendering := currentlyRendering st @ [dm],
                   currentParent := Some dm,
                   currentRedraw := (if isFunction redrawOpt then redrawOpt else JNull),
                   currentRefNode := None,
                   currentNamespace := (if namespace = Some htmlNs then None else namespace),
                   currentDocument := Some (hdocument st dm)\<rparr>;
          (cx, st2) = allocObj \<lparr>proto = None,
                               props = [(PStr ''redraw'', DataDesc redrawOpt True True True)],
                               extensible = True\<rparr> st1;
          st3 = st2\<lparr>currentContext := Some cx, currentRemoveOnThrow := truthy removeOnThrow\<rparr>;
          st4 = (if hvnodes st3 dm = None then clearContent dm st3 else st3);
          (vn, st5) = normalize vnodeTree st4
      in andThen (updateNode n E (hvnodes st5 dm) vn st5) (\<lambda>st6.
           let st7 = st6\<lparr>hvnodes := (hvnodes st6)(dm := vn)\<rparr>;
               st8 = (case active of
                        None \<Rightarrow> st7
                      | Some el \<Rightarrow>
                          (case currentDocument st7 of
                             None \<Rightarrow> st7
                           | Some doc \<Rightarrow> if hactive st7 doc \<noteq> Some el then hostFocus el st7 else st7))
           in Done (foldl (runHook E) st8 (currentHooks st8))))"

text \<open>
  The \<open>finally\<close> block of \<open>m.render\<close>: every module variable takes the value saved at
  entry (the state \<open>saved\<close>), and the target leaves \<open>currentlyRendering\<close>.
\<close>

definition renderFinally :: "rstate \<Rightarrow> rstate \<Rightarrow> rstate" where
  "renderFinally saved s =
     s\<lparr>currentRedraw := currentRedraw saved,
       currentHooks := currentHooks saved,
       currentParent := currentParent saved,
       currentRefNode := currentRefNode saved,
       currentNamespace := currentNamespace saved,
       currentDocument := currentDocument saved,
       currentContext := currentContext saved,
       currentRemoveOnThrow := currentRemoveOnThrow saved,
       currentlyRendering := butlast (currentlyRendering s)\<rparr>"

text \<open>
  \<open>m.render(dom, vnode, {redraw, removeOnThrow})\<close>; the parameter \<open>dom\<close> is \<open>target\<close>
  here, and \<open>n\<close> bounds the depth of the recursion of \<open>updateNode\<close>.
\<close>

definition render :: "nat \<Rightarrow> env \<Rightarrow> nid option \<Rightarrow> tree \<Rightarrow> jsval \<Rightarrow> jsval \<Rightarrow> rstate \<Rightarrow> outcome" where
  "render n E target vnodeTree redrawOpt removeOnThrow st =
     (case target of
        None \<Rightarrow> Raised (TypeError ''DOM element being rendered to does not exist.'') st
      | Some dm \<Rightarrow>
          (case checkCallback redrawOpt True ''redraw'' of
             Throw e \<Rightarrow> Raised e st
           | Return cb \<Rightarrow>
               if list_ex (\<lambda>root. contains st dm root) (currentlyRendering st) then
                 Raised (TypeError ''Node is currently being rendered to and thus is locked.'') st
               else
                 let active = hactive st (hdocument st dm);
                     namespace = hnamespaceURI st dm
                 in tryFinally
                      (renderBody n E dm vnodeTree redrawOpt removeOnThrow active namespace
                         (st\<lparr>currentHooks := []\<rparr>))
                      (renderFinally st)))"


section \<open>Properties of the reconciliation core\<close>

text \<open>The fallback of the focus changes the active element and nothing else.\<close>

lemma blurred_fields [simp]:
  "vnodes (blurred gone doc st) = vnodes st"
  "nextVnode (blurred gone doc st) = nextVnode st"
  "kmaps (blurred gone doc st) = kmaps st"
  "attrObjs (blurred gone doc st) = attrObjs st"
  "objs (blurred gone doc st) = objs st"
  "nextObj (blurred gone doc st) = nextObj st"
  "arrays (blurred gone doc st) = arrays st"
  "nextArray (blurred gone doc st) = nextArray st"
  "selectorCache (blurred gone doc st) = selectorCache st"
  "hparent (blurred gone doc st) = hparent st"
  "hnamespaceURI (blurred gone doc st) = hnamespaceURI st"
  "hvnodes (blurred gone doc st) = hvnodes st"
  "hdocument (blurred gone doc st) = hdocument st"
  "hbody (blurred gone doc st) = hbody st"
  "nextNode (blurred gone doc st) = nextNode st"
  "hlog (blurred gone doc st) = hlog st"
  "currentHooks (blurred gone doc st) = currentHooks st"
  "currentRedraw (blurred gone doc st) = currentRedraw st"
  "currentParent (blurred gone doc st) = currentParent st"
  "currentRefNode (blurred gone doc st) = currentRefNode st"
  "currentNamespace (blurred gone doc st) = currentNamespace st"
  "currentDocument (blurred gone doc st) = currentDocument st"
  "currentContext (blurred gone doc st) = currentContext st"
  "currentRemoveOnThrow (blurred gone doc st) = currentRemoveOnThrow st"
  "currentlyRendering (blurred gone doc st) = currentlyRendering st"
  "console (blurred gone doc st) = console st"
  by (simp_all add: blurred_def split: option.splits)

lemma detached_fields [simp]:
  "vnodes (detached x st) = vnodes st"
  "nextVnode (detached x st) = nextVnode st"
  "kmaps (detached x st) = kmaps st"
  "attrObjs (detached x st) = attrObjs st"
  "objs (detached x st) = objs st"
  "nextObj (detached x st) = nextObj st"
  "arrays (detached x st) = arrays st"
  "nextArray (detached x st) = nextArray st"
  "selectorCache (detached x st) = selectorCache st"
  "hparent (detached x st) = hparent st"
  "hnamespaceURI (detached x st) = hnamespaceURI st"
  "hvnodes (detached x st) = hvnodes st"
  "hdocument (detached x st) = hdocument st"
  "hbody (detached x st) = hbody st"
  "nextNode (detached x st) = nextNode st"
  "hlog (detached x st) = hlog st"
  "currentHooks (detached x st) = currentHooks st"
  "currentRedraw (detached x st) = currentRedraw st"
  "currentParent (detached x st) = currentParent st"
  "currentRefNode (detached x st) = currentRefNode st"
  "currentNamespace (detached x st) = currentNamespace st"
  "currentDocument (detached x st) = currentDocument st"
  "currentContext (detached x st) = currentContext st"
  "currentRemoveOnThrow (detached x st) = currentRemoveOnThrow st"
  "currentlyRendering (detached x st) = currentlyRendering st"
  "console (detached x st) = console st"
  by (simp_all add: detached_def)

lemma blurred_idle [simp]: "hactive st doc = None \<Longrightarrow> blurred gone doc st = st"
  by (simp add: blurred_def)

lemma andThen_simps [simp]:
  "andThen (Done st) f = f st"
  "andThen (Raised e st) f = Raised e st"
  "andThen Timeout f = Timeout"
  by (simp_all add: andThen_def)

lemma tryCatch_simps [simp]:
  "tryCatch (Done st) h = Done st"
  "tryCatch (Raised e st) h = h e st"
  "tryCatch Timeout h = Timeout"
  by (simp_all add: tryCatch_def)

lemma tryFinally_simps [simp]:
  "tryFinally (Done st) fin = Done (fin st)"
  "tryFinally (Raised e st) fin = Raised e (fin st)"
  "tryFinally Timeout fin = Timeout"
  by (simp_all add: tryFinally_def)

text \<open>Removing a node never throws: \<open>updateNode(old, null)\<close> logs what its handler throws.\<close>

lemma updateNode_remove_not_Raised:
  "updateNode n E x None st \<noteq> Raised e st'"
proof (cases n)
  case 0
  then show ?thesis by simp
next
  case (Suc k)
  show ?thesis
  proof (cases x)
    case None
    with Suc show ?thesis by (simp add: updateNode_body_def)
  next
    case (Some r)
    with Suc show ?thesis
      by (simp add: updateNode_body_def Let_def tryCatch_def split: outcome.splits)
  qed
qed

lemma forEach_not_Raised:
  assumes "\<And>x s e s'. f x s \<noteq> Raised e s'"
  shows "forEach f xs st \<noteq> Raised e st'"
  using assms
  by (induction xs arbitrary: st) (auto simp: andThen_def split: outcome.splits)

lemma forEach_append:
  "forEach f (xs @ ys) st = andThen (forEach f xs st) (forEach f ys)"
  by (induction xs arbitrary: st) (auto simp: andThen_def split: outcome.splits)

text \<open>
  When a counted loop stops on an exception, the iterations before the counter ended
  normally and the one at the counter threw.
\<close>

lemma countLoop_Raised:
  "countLoop f k xs st = LoopRaised i e s1 \<Longrightarrow>
   \<exists>j s0. i = k + j \<and> j < length xs \<and> forEach f (take j xs) st = Done s0 \<and>
           f (xs ! j) s0 = Raised e s1"
proof (induction xs arbitrary: k st)
  case Nil
  then show ?case by simp
next
  case (Cons x xs)
  show ?case
  proof (cases "f x st")
    case (Done s')
    with Cons.prems have "countLoop f (Suc k) xs s' = LoopRaised i e s1" by simp
    from Cons.IH [OF this] obtain j s0 where
      "i = Suc k + j" "j < length xs" "forEach f (take j xs) s' = Done s0"
      "f (xs ! j) s0 = Raised e s1" by blast
    with Done show ?thesis
      by (intro exI [of _ "Suc j"] exI [of _ s0]) simp
  next
    case (Raised e' s')
    with Cons.prems show ?thesis
      by (intro exI [of _ 0] exI [of _ st]) simp
  next
    case Timeout
    with Cons.prems show ?thesis by simp
  qed
qed

section \<open>Teardown and rollback\<close>

text \<open>
  The children that the removal of a vnode visits: the array of a fragment, element,
  context-set or dependency node, the instance of a component or inline view, the values
  of the map of a keyed group.
\<close>

definition kidsOf :: "rstate \<Rightarrow> vref \<Rightarrow> vref option list" where
  "kidsOf st r =
     (let v = vnodes st r; type = vm v AND TYPE_MASK in
      if type = 0 \<or> type = 3 \<or> type = 7 \<or> type = 8 then
        (case vc v of CArr cs \<Rightarrow> cs | _ \<Rightarrow> [])
      else if type = 4 \<or> type = 9 then
        (case vc v of CNode i \<Rightarrow> [Some i] | _ \<Rightarrow> [])
      else if type = 1 then
        (case va v of AMap mr \<Rightarrow> map snd (kmaps st mr) | _ \<Rightarrow> [])
      else [])"

text \<open>
  The vnodes within \<open>n\<close> levels below \<open>r\<close>, \<open>r\<close> included: what a removal of depth
  \<open>n\<close> can reach.
\<close>

fun subtree :: "nat \<Rightarrow> rstate \<Rightarrow> vref \<Rightarrow> vref set" where
  "subtree 0 st r = {}"
| "subtree (Suc n) st r = insert r (\<Union>k \<in> set (kidsOf st r). case k of None \<Rightarrow> {} | Some x \<Rightarrow> subtree n st x)"

text \<open>Text and element vnodes are the ones that own a host node.\<close>

definition holdsNode :: "rstate \<Rightarrow> vref \<Rightarrow> bool" where
  "holdsNode st r = (vm (vnodes st r) AND TYPE_MASK = 2 \<or> vm (vnodes st r) AND TYPE_MASK = 3)"

text \<open>
  \<open>released st st'\<close>: from \<open>st\<close> to \<open>st'\<close> vnodes have only given up host nodes, and
  host nodes have only been detached. No vnode field other than \<open>vd\<close> differs; a vnode
  without a host node stays so; a vnode keeps its host node or has lost it, and then the
  node has no parent; no host node has a new parent; the keyed maps are the same.
\<close>

definition released :: "rstate \<Rightarrow> rstate \<Rightarrow> bool" where
  "released st st' =
     ((\<forall>r. vnodes st' r = (vnodes st r)\<lparr>vd := vd (vnodes st' r)\<rparr>) \<and>
      (\<forall>r. vd (vnodes st r) = None \<longrightarrow> vd (vnodes st' r) = None) \<and>
      (\<forall>r x. vd (vnodes st r) = Some x \<longrightarrow>
             vd (vnodes st' r) = Some x \<or> (vd (vnodes st' r) = None \<and> hparent st' x = None)) \<and>
      (\<forall>y. hparent st' y = None \<or> hparent st' y = hparent st y) \<and>
      kmaps st' = kmaps st)"

text \<open>\<open>old.c[j]\<close> for the positions the old side has, nothing beyond them.\<close>

definition oldAt :: "vref option list \<Rightarrow> nat \<Rightarrow> vref option" where
  "oldAt olds j = (if j < length olds then olds ! j else None)"

text \<open>
  A concrete environment and concrete states, for evaluating the model: views return
  \<open>null\<close>, hooks return, the host creates every element and patches every attribute
  without an exception, and \<open>Object.prototype\<close> has its standard members, functions but
  for \<open>__proto__\<close>.
\<close>

definition objectPrototype :: "string \<Rightarrow> string option" where
  "objectPrototype k =
     (if k = ''constructor'' then Some ''function Object() { [native code] }''
      else if k = ''__proto__'' then Some ''[object Object]''
      else if k \<in> set [''hasOwnProperty'', ''isPrototypeOf'', ''propertyIsEnumerable'',
                         ''toLocaleString'', ''toString'', ''valueOf'', ''__defineGetter__'',
                         ''__defineSetter__'', ''__lookupGetter__'', ''__lookupSetter__'']
      then Some (''function '' @ k @ ''() { [native code] }'')
      else None)"

definition quietEnv :: env where
  "quietEnv = \<lparr>component = (\<lambda>f cx attrs oldAttrs st. (Return (RetTree TNull), st)),
               inlineView = (\<lambda>f cx st. (Return (RetTree TNull), st)),
               hookCallback = (\<lambda>f d st. (Return (), st)),
               fnSource = (\<lambda>f. ''function''),
               toStr = (\<lambda>v. ''[object Object]''),
               createElementError = (\<lambda>ns tg. None),
               setAttr = (\<lambda>v element msk k oldAttrs attrs st. Done st),
               selectValue = (\<lambda>element attrs st. Done st),
               selectIndex = (\<lambda>element attrs st. Done st),
               inherited = objectPrototype\<rparr>"

definition emptyState :: rstate where
  "emptyState =
     \<lparr>vnodes = (\<lambda>r. Vnode TYPE_RETAIN TagNull ANull CNull), nextVnode = 0,
      kmaps = (\<lambda>r. []), attrObjs = (\<lambda>r. []),
      objs = (\<lambda>r. \<lparr>proto = None, props = [], extensible = True\<rparr>), nextObj = 0,
      arrays = (\<lambda>r. []), nextArray = 0,
      selectorCache = Map.empty,
      hparent = (\<lambda>x. None), hnamespaceURI = (\<lambda>x. None), hvnodes = (\<lambda>x. None),
      hdocument = (\<lambda>x. 0), hactive = (\<lambda>x. None), hbody = (\<lambda>x. None), nextNode = 0,
      hlog = [],
      currentHooks = [], currentRedraw = JNull, currentParent = None, currentRefNode = None,
      currentNamespace = None, currentDocument = None, currentContext = None,
      currentRemoveOnThrow = False, currentlyRendering = [], console = []\<rparr>"

text \<open>
  A committed fragment (vnode 0) with a text child \<open>a\<close> (vnode 1, host node 10) and a
  \<open>div\<close> child (vnode 2, host node 11, attributes object 7), both under the host node 0,
  and a new fragment (vnode 3) with a text child \<open>b\<close> (vnode 4) and a \<open>div\<close> child
  (vnode 5) that passes the same attributes object 7 again.
\<close>

definition rollbackState :: rstate where
  "rollbackState =
     emptyState\<lparr>
       vnodes := (vnodes emptyState)
         (0 := \<lparr>vm = 16, vt = TagNull, va = ANull, vc = CArr [Some 1, Some 2], vs = SNull, vd = None\<rparr>,
          1 := \<lparr>vm = 18, vt = TagNull, va = AText ''a'', vc = CNull, vs = SNull, vd = Some 10\<rparr>,
          2 := \<lparr>vm = 83, vt = TagStr ''div'', va = AAttrs 7, vc = CArr [], vs = SNull, vd = Some 11\<rparr>,
          3 := \<lparr>vm = 0, vt = TagNull, va = ANull, vc = CArr [Some 4, Some 5], vs = SNull, vd = None\<rparr>,
          4 := \<lparr>vm = 2, vt = TagNull, va = AText ''b'', vc = CNull, vs = SNull, vd = None\<rparr>,
          5 := \<lparr>vm = 3, vt = TagStr ''div'', va = AAttrs 7, vc = CArr [], vs = SNull, vd = None\<rparr>),
       nextVnode := 6,
       attrObjs := (attrObjs emptyState)(7 := [(''id'', JStr ''x'')]),
       nextObj := 8,
       hparent := (hparent emptyState)(10 := Some 0, 11 := Some 0),
       hnamespaceURI := (hnamespaceURI emptyState)(0 := Some htmlNs, 11 := Some htmlNs),
       nextNode := 12,
       currentParent := Some 0,
       currentDocument := Some 0,
       currentlyRendering := [0]\<rparr>"

text \<open>
  A text or element vnode is committed when it holds a host node that is attached to a
  parent.
\<close>

definition thrown :: "outcome \<Rightarrow> exn option" where
  "thrown oc = (case oc of Raised e st \<Rightarrow> Some e | _ \<Rightarrow> None)"

definition committed :: "rstate \<Rightarrow> vref \<Rightarrow> bool" where
  "committed st r = (case vd (vnodes st r) of None \<Rightarrow> False | Some x \<Rightarrow> hparent st x \<noteq> None)"

definition committedAfter :: "outcome \<Rightarrow> vref \<Rightarrow> bool" where
  "committedAfter oc r =
     (case oc of Done st \<Rightarrow> committed st r | Raised e st \<Rightarrow> committed st r | Timeout \<Rightarrow> False)"

text \<open>
  \<open>removable n st x\<close>: in the state \<open>st\<close> the recursion of \<open>updateNode(x, null)\<close> ends
  within \<open>n\<close> nested calls, so the depth \<open>n\<close> is enough to remove \<open>x\<close>.
\<close>

fun removable :: "nat \<Rightarrow> rstate \<Rightarrow> vref option \<Rightarrow> bool" where
  "removable 0 st x = False"
| "removable (Suc n) st None = True"
| "removable (Suc n) st (Some r) =
     (let v = vnodes st r; type = vm v AND TYPE_MASK in
      if type = 0 \<or> type = 3 \<or> type = 7 \<or> type = 8 then
        (case vc v of CArr cs \<Rightarrow> list_all (removable n st) cs | _ \<Rightarrow> True)
      else if type = 4 \<or> type = 9 then
        (case vc v of CNode i \<Rightarrow> removable n st (Some i) | CNull \<Rightarrow> removable n st None | CArr cs \<Rightarrow> True)
      else if type = 1 then
        (case va v of AMap mr \<Rightarrow> list_all (removable n st) (map snd (kmaps st mr)) | _ \<Rightarrow> True)
      else True)"

text \<open>
  A committed fragment (vnode 0) with three children under the host node 0: the text
  \<open>a\<close> (vnode 1, host node 10), a \<open>div\<close> (vnode 2, host node 11, attributes object 7) and
  the text \<open>c\<close> (vnode 3, host node 12); and a new fragment (vnode 4) with the text \<open>b\<close>
  (vnode 5), a \<open>div\<close> (vnode 6) that passes the same attributes object 7 again, and the
  text \<open>d\<close> (vnode 7).
\<close>

definition tripleState :: rstate where
  "tripleState =
     emptyState\<lparr>
       vnodes := (vnodes emptyState)
         (0 := \<lparr>vm = 16, vt = TagNull, va = ANull, vc = CArr [Some 1, Some 2, Some 3], vs = SNull, vd = None\<rparr>,
          1 := \<lparr>vm = 18, vt = TagNull, va = AText ''a'', vc = CNull, vs = SNull, vd = Some 10\<rparr>,
          2 := \<lparr>vm = 83, vt = TagStr ''div'', va = AAttrs 7, vc = CArr [], vs = SNull, vd = Some 11\<rparr>,
          3 := \<lparr>vm = 18, vt = TagNull, va = AText ''c'', vc = CNull, vs = SNull, vd = Some 12\<rparr>,
          4 := \<lparr>vm = 0, vt = TagNull, va = ANull, vc = CArr [Some 5, Some 6, Some 7], vs = SNull, vd = None\<rparr>,
          5 := \<lparr>vm = 2, vt = TagNull, va = AText ''b'', vc = CNull, vs = SNull, vd = None\<rparr>,
          6 := \<lparr>vm = 3, vt = TagStr ''div'', va = AAttrs 7, vc = CArr [], vs = SNull, vd = None\<rparr>,
          7 := \<lparr>vm = 2, vt = TagNull, va = AText ''d'', vc = CNull, vs = SNull, vd = None\<rparr>),
       nextVnode := 8,
       attrObjs := (attrObjs emptyState)(7 := [(''id'', JStr ''x'')]),
       nextObj := 8,
       hparent := (hparent emptyState)(10 := Some 0, 11 := Some 0, 12 := Some 0),
       hnamespaceURI := (hnamespaceURI emptyState)(0 := Some htmlNs, 11 := Some htmlNs),
       nextNode := 13,
       currentParent := Some 0,
       currentDocument := Some 0,
       currentlyRendering := [0]\<rparr>"

text \<open>
  A committed fragment (vnode 0) whose only child is a keyed group (vnode 1) with the
  entries \<open>a\<close>, \<open>b\<close> and \<open>c\<close>: the text vnodes 2, 3 and 4, on the host nodes 10, 11 and
  12 under the host node 0. The new fragment (vnode 5) holds a keyed group (vnode 6) with
  the same keys: the new text vnodes 7 and 8 and, under \<open>c\<close>, the text vnode 9, which has
  been used before.
\<close>

definition keyedState :: rstate where
  "keyedState =
     emptyState\<lparr>
       vnodes := (vnodes emptyState)
         (0 := \<lparr>vm = 16, vt = TagNull, va = ANull, vc = CArr [Some 1], vs = SNull, vd = None\<rparr>,
          1 := \<lparr>vm = 17, vt = TagNull, va = AMap 0, vc = CNull, vs = SNull, vd = None\<rparr>,
          2 := \<lparr>vm = 18, vt = TagNull, va = AText ''A'', vc = CNull, vs = SNull, vd = Some 10\<rparr>,
          3 := \<lparr>vm = 18, vt = TagNull, va = AText ''B'', vc = CNull, vs = SNull, vd = Some 11\<rparr>,
          4 := \<lparr>vm = 18, vt = TagNull, va = AText ''C'', vc = CNull, vs = SNull, vd = Some 12\<rparr>,
          5 := \<lparr>vm = 0, vt = TagNull, va = ANull, vc = CArr [Some 6], vs = SNull, vd = None\<rparr>,
          6 := \<lparr>vm = 1, vt = TagNull, va = AMap 1, vc = CNull, vs = SNull, vd = None\<rparr>,
          7 := \<lparr>vm = 2, vt = TagNull, va = AText ''A2'', vc = CNull, vs = SNull, vd = None\<rparr>,
          8 := \<lparr>vm = 2, vt = TagNull, va = AText ''B2'', vc = CNull, vs = SNull, vd = None\<rparr>,
          9 := \<lparr>vm = 18, vt = TagNull, va = AText ''C2'', vc = CNull, vs = SNull, vd = None\<rparr>),
       nextVnode := 10,
       kmaps := (kmaps emptyState)
         (0 := [(JStr ''a'', Some 2), (JStr ''b'', Some 3), (JStr ''c'', Some 4)],
          1 := [(JStr ''a'', Some 7), (JStr ''b'', Some 8), (JStr ''c'', Some 9)]),
       hparent := (hparent emptyState)(10 := Some 0, 11 := Some 0, 12 := Some 0),
       hnamespaceURI := (hnamespaceURI emptyState)(0 := Some htmlNs),
       nextNode := 13,
       currentParent := Some 0,
       currentDocument := Some 0,
       currentlyRendering := [0]\<rparr>"

lemma released_refl: "released st st"
  by (simp add: released_def)

lemma released_trans:
  assumes a: "released s1 s2" and b: "released s2 s3"
  shows "released s1 s3"
proof -
  have 1: "\<forall>r. vnodes s3 r = (vnodes s1 r)\<lparr>vd := vd (vnodes s3 r)\<rparr>"
  proof
    fix r
    from a have "vnodes s2 r = (vnodes s1 r)\<lparr>vd := vd (vnodes s2 r)\<rparr>" by (simp add: released_def)
    moreover from b have "vnodes s3 r = (vnodes s2 r)\<lparr>vd := vd (vnodes s3 r)\<rparr>" by (simp add: released_def)
    ultimately show "vnodes s3 r = (vnodes s1 r)\<lparr>vd := vd (vnodes s3 r)\<rparr>"
      by (metis vnode.surjective vnode.update_convs(6))
  qed
  have 2: "\<forall>r. vd (vnodes s1 r) = None \<longrightarrow> vd (vnodes s3 r) = None"
    using a b by (simp add: released_def)
  have 3: "\<forall>r x. vd (vnodes s1 r) = Some x \<longrightarrow>
             vd (vnodes s3 r) = Some x \<or> (vd (vnodes s3 r) = None \<and> hparent s3 x = None)"
  proof (intro allI impI)
    fix r x assume h: "vd (vnodes s1 r) = Some x"
    from a h have "vd (vnodes s2 r) = Some x \<or> (vd (vnodes s2 r) = None \<and> hparent s2 x = None)"
      by (simp add: released_def)
    then show "vd (vnodes s3 r) = Some x \<or> (vd (vnodes s3 r) = None \<and> hparent s3 x = None)"
    proof
      assume "vd (vnodes s2 r) = Some x"
      with b show ?thesis by (simp add: released_def)
    next
      assume c: "vd (vnodes s2 r) = None \<and> hparent s2 x = None"
      from b c have "vd (vnodes s3 r) = None" by (simp add: released_def)
      moreover from b have "hparent s3 x = None \<or> hparent s3 x = hparent s2 x"
        by (simp add: released_def)
      with c have "hparent s3 x = None" by auto
      ultimately show ?thesis by simp
    qed
  qed
  have 4: "\<forall>y. hparent s3 y = None \<or> hparent s3 y = hparent s1 y"
  proof
    fix y
    from a have "hparent s2 y = None \<or> hparent s2 y = hparent s1 y" by (simp add: released_def)
    moreover from b have "hparent s3 y = None \<or> hparent s3 y = hparent s2 y" by (simp add: released_def)
    ultimately show "hparent s3 y = None \<or> hparent s3 y = hparent s1 y" by auto
  qed
  have 5: "kmaps s3 = kmaps s1" using a b by (simp add: released_def)
  from 1 2 3 4 5 show ?thesis unfolding released_def by blast
qed

lemma released_logError: "released st (logError e st)"
  by (simp add: released_def logError_def)

lemma released_removeNode: "released st (removeNode r st)"
  by (auto simp: released_def removeNode_def setVnode_def hostRemove_def split: option.splits)

lemma removeNode_vd [simp]: "vd (vnodes (removeNode r st) r) = None"
  by (auto simp: removeNode_def setVnode_def hostRemove_def split: option.splits)

lemma removeNode_detached: "vd (vnodes st r) = Some x \<Longrightarrow> hparent (removeNode r st) x = None"
  by (auto simp: removeNode_def setVnode_def hostRemove_def split: option.splits)

lemma released_pushHook: "released st (st\<lparr>currentHooks := hs\<rparr>)"
  by (simp add: released_def)

lemma forEach_Done_Cons:
  "forEach f (x # xs) st = Done st' \<longleftrightarrow> (\<exists>s1. f x st = Done s1 \<and> forEach f xs s1 = Done st')"
  by (cases "f x st") simp_all

lemma forEach_released:
  assumes "\<And>x s s'. f x s = Done s' \<Longrightarrow> released s s'"
  shows "forEach f xs st = Done st' \<Longrightarrow> released st st'"
proof (induction xs arbitrary: st)
  case Nil
  then show ?case by (simp add: released_refl)
next
  case (Cons x xs)
  from Cons.prems have "\<exists>s1. f x st = Done s1 \<and> forEach f xs s1 = Done st'"
    by (simp only: forEach_Done_Cons)
  then obtain s1 where 1: "f x st = Done s1" and 2: "forEach f xs s1 = Done st'"
    by blast
  from assms [OF 1] Cons.IH [OF 2] show ?case by (rule released_trans)
qed

lemma updateFragment_remove:
  "updateFragment upd (Some r) None st =
     (case vc (vnodes st r) of
        CArr cs \<Rightarrow> forEach (\<lambda>x. upd x None) cs st
      | _ \<Rightarrow> Raised notAnObject st)"
  by (simp add: updateFragment_def childrenOf_def split: cval.splits)

lemma removeNodeDispatch_released:
  assumes upd: "\<And>x s s'. upd x None s = Done s' \<Longrightarrow> released s s'"
    and nr: "\<And>x s e s'. upd x None s \<noteq> Raised e s'"
  shows "removeNodeDispatch upd type r st = Done st' \<Longrightarrow> released st st'"
    and "removeNodeDispatch upd type r st = Raised e st' \<Longrightarrow> released st st'"
proof -
  have fe: "\<And>cs s s'. forEach (\<lambda>x. upd x None) cs s = Done s' \<Longrightarrow> released s s'"
    by (rule forEach_released [where f = "\<lambda>x. upd x None"]) (rule upd)
  have fr: "\<And>cs s e s'. forEach (\<lambda>x. upd x None) cs s \<noteq> Raised e s'"
    by (rule forEach_not_Raised) (rule nr)
  have frag: "\<And>s s' q. updateFragment upd (Some q) None s = Done s' \<Longrightarrow> released s s'"
    by (auto simp: updateFragment_remove split: cval.splits dest: fe)
  have fragR: "\<And>s s' q e. updateFragment upd (Some q) None s = Raised e s' \<Longrightarrow> released s s'"
    by (auto simp: updateFragment_remove released_refl fr split: cval.splits)
  have elem: "\<And>s'. removeElement upd r st = Done s' \<Longrightarrow> released st s'"
    unfolding removeElement_def
    by (blast intro: released_trans released_removeNode frag)
  have elemR: "\<And>s' e. removeElement upd r st = Raised e s' \<Longrightarrow> released st s'"
    unfolding removeElement_def
    by (blast intro: released_trans released_removeNode fragR)
  have keyed: "\<And>s'. removeKeyed upd r st = Done s' \<Longrightarrow> released st s'"
    by (auto simp: removeKeyed_def split: aval.splits dest: fe)
  have keyedR: "\<And>s' e. removeKeyed upd r st = Raised e s' \<Longrightarrow> released st s'"
    by (auto simp: removeKeyed_def released_refl fr split: aval.splits)
  have inst: "\<And>s'. removeInstance upd r st = Done s' \<Longrightarrow> released st s'"
    by (auto simp: removeInstance_def split: cval.splits dest: upd)
  have instR: "\<And>s' e. removeInstance upd r st = Raised e s' \<Longrightarrow> released st s'"
    by (auto simp: removeInstance_def released_refl nr split: cval.splits)
  show "removeNodeDispatch upd type r st = Done st' \<Longrightarrow> released st st'"
    unfolding removeNodeDispatch_def
    by (auto split: if_splits intro: frag elem keyed inst released_removeNode released_refl
          released_pushHook)
  show "removeNodeDispatch upd type r st = Raised e st' \<Longrightarrow> released st st'"
    unfolding removeNodeDispatch_def
    by (auto split: if_splits intro: fragR elemR keyedR instR released_refl)
qed

lemma updateNode_remove_cases:
  "updateNode (Suc n) E (Some r) None st = Done st' \<Longrightarrow>
     (vm (vnodes st r) AND TYPE_MASK = 15 \<and> st' = st) \<or>
     (vm (vnodes st r) AND TYPE_MASK \<noteq> 15 \<and>
        (removeNodeDispatch (updateNode n E) (vm (vnodes st r) AND TYPE_MASK) r st = Done st' \<or>
         (\<exists>e s. removeNodeDispatch (updateNode n E) (vm (vnodes st r) AND TYPE_MASK) r st = Raised e s \<and>
                st' = logError e s)))"
  by (auto simp: updateNode_body_def Let_def tryCatch_def TYPE_RETAIN_def TYPE_MASK_def
        split: outcome.splits if_splits)

text \<open>A removal only releases host nodes.\<close>

lemma updateNode_remove_released:
  "updateNode n E x None st = Done st' \<Longrightarrow> released st st'"
proof (induction n arbitrary: x st st')
  case 0
  then show ?case by simp
next
  case (Suc n)
  show ?case
  proof (cases x)
    case None
    with Suc.prems show ?thesis by (simp add: updateNode_body_def released_refl)
  next
    case (Some r)
    note d = removeNodeDispatch_released [where upd = "updateNode n E", OF Suc.IH updateNode_remove_not_Raised]
    from Suc.prems Some have "updateNode (Suc n) E (Some r) None st = Done st'" by simp
    from updateNode_remove_cases [OF this] show ?thesis
      by (auto intro: released_refl d released_trans released_logError)
  qed
qed

lemma released_fields:
  assumes "released st st'"
  shows "vm (vnodes st' r) = vm (vnodes st r)" and "vc (vnodes st' r) = vc (vnodes st r)"
    and "va (vnodes st' r) = va (vnodes st r)" and "kmaps st' = kmaps st"
proof -
  from assms have e: "vnodes st' r = (vnodes st r)\<lparr>vd := vd (vnodes st' r)\<rparr>"
    by (simp add: released_def)
  show "vm (vnodes st' r) = vm (vnodes st r)" by (subst e) simp
  show "vc (vnodes st' r) = vc (vnodes st r)" by (subst e) simp
  show "va (vnodes st' r) = va (vnodes st r)" by (subst e) simp
  from assms show "kmaps st' = kmaps st" by (simp add: released_def)
qed

lemma released_vd_None:
  "released st st' \<Longrightarrow> vd (vnodes st r) = None \<Longrightarrow> vd (vnodes st' r) = None"
  by (simp add: released_def)

lemma released_kidsOf:
  assumes "released st st'"
  shows "kidsOf st' r = kidsOf st r"
  using released_fields(1-3) [OF assms, of r] released_fields(4) [OF assms]
  by (simp add: kidsOf_def Let_def split: aval.splits)

lemma released_holdsNode: "released st st' \<Longrightarrow> holdsNode st' r = holdsNode st r"
  by (simp add: holdsNode_def released_fields)

lemma released_subtree: "released st st' \<Longrightarrow> subtree n st' r = subtree n st r"
  by (induction n arbitrary: r) (simp_all add: released_kidsOf cong: option.case_cong)

lemma forEach_remove_subtree:
  assumes IH: "\<And>k s s' x. upd (Some k) None s = Done s' \<Longrightarrow> x \<in> subtree n s k \<Longrightarrow>
                 holdsNode s x \<Longrightarrow> vd (vnodes s' x) = None"
    and rel: "\<And>c s s'. upd c None s = Done s' \<Longrightarrow> released s s'"
  shows "forEach (\<lambda>c. upd c None) cs st = Done st' \<Longrightarrow> Some k \<in> set cs \<Longrightarrow>
         x \<in> subtree n st k \<Longrightarrow> holdsNode st x \<Longrightarrow> vd (vnodes st' x) = None"
proof (induction cs arbitrary: st)
  case Nil
  then show ?case by simp
next
  case (Cons c cs)
  from Cons.prems(1) have "\<exists>s1. upd c None st = Done s1 \<and> forEach (\<lambda>c. upd c None) cs s1 = Done st'"
    by (simp only: forEach_Done_Cons)
  then obtain s1 where 1: "upd c None st = Done s1"
    and 2: "forEach (\<lambda>c. upd c None) cs s1 = Done st'" by blast
  have r1: "released st s1" by (rule rel [OF 1])
  have r2: "released s1 st'"
    by (rule forEach_released [where f = "\<lambda>c. upd c None", OF rel 2])
  show ?case
  proof (cases "c = Some k")
    case True
    with 1 Cons.prems have "vd (vnodes s1 x) = None" by (auto dest: IH)
    with r2 show ?thesis by (rule released_vd_None)
  next
    case False
    with Cons.prems have "Some k \<in> set cs" by simp
    moreover from Cons.prems r1 have "x \<in> subtree n s1 k" by (simp add: released_subtree)
    moreover from Cons.prems r1 have "holdsNode s1 x" by (simp add: released_holdsNode)
    ultimately show ?thesis using Cons.IH [OF 2] by blast
  qed
qed

lemma updateFragment_remove_released:
  assumes upd: "\<And>x s s'. upd x None s = Done s' \<Longrightarrow> released s s'"
    and nr: "\<And>x s e s'. upd x None s \<noteq> Raised e s'"
    and oc: "updateFragment upd (Some q) None s = Done s' \<or> updateFragment upd (Some q) None s = Raised e s'"
  shows "released s s'"
proof (cases "vc (vnodes s q)")
  case (CArr cs)
  have "forEach (\<lambda>x. upd x None) cs s \<noteq> Raised e s'"
    by (rule forEach_not_Raised) (rule nr)
  with oc CArr have "forEach (\<lambda>x. upd x None) cs s = Done s'"
    by (simp add: updateFragment_remove)
  then show ?thesis
    using upd forEach_released [where f = "\<lambda>x. upd x None"] by blast
next
  case CNull
  with oc show ?thesis by (auto simp: updateFragment_remove released_refl)
next
  case (CNode i)
  with oc show ?thesis by (auto simp: updateFragment_remove released_refl)
qed

lemma kidsOf_cases:
  assumes "Some k \<in> set (kidsOf st r)"
  shows "(vm (vnodes st r) AND TYPE_MASK \<in> {0, 3, 7, 8} \<and>
            (\<exists>cs. vc (vnodes st r) = CArr cs \<and> Some k \<in> set cs)) \<or>
         (vm (vnodes st r) AND TYPE_MASK \<in> {4, 9} \<and> vc (vnodes st r) = CNode k) \<or>
         (vm (vnodes st r) AND TYPE_MASK = 1 \<and>
            (\<exists>mr. va (vnodes st r) = AMap mr \<and> Some k \<in> set (map snd (kmaps st mr))))"
proof -
  let ?t = "vm (vnodes st r) AND TYPE_MASK"
  consider (frag) "?t = 0 \<or> ?t = 3 \<or> ?t = 7 \<or> ?t = 8"
    | (inst) "\<not> (?t = 0 \<or> ?t = 3 \<or> ?t = 7 \<or> ?t = 8)" "?t = 4 \<or> ?t = 9"
    | (keyed) "\<not> (?t = 0 \<or> ?t = 3 \<or> ?t = 7 \<or> ?t = 8)" "\<not> (?t = 4 \<or> ?t = 9)" "?t = 1"
    | (other) "\<not> (?t = 0 \<or> ?t = 3 \<or> ?t = 7 \<or> ?t = 8)" "\<not> (?t = 4 \<or> ?t = 9)" "?t \<noteq> 1"
    by blast
  then show ?thesis
  proof cases
    case frag
    with assms have "Some k \<in> set (case vc (vnodes st r) of CArr cs \<Rightarrow> cs | _ \<Rightarrow> [])"
      by (simp add: kidsOf_def Let_def)
    then have "\<exists>cs. vc (vnodes st r) = CArr cs \<and> Some k \<in> set cs"
      by (cases "vc (vnodes st r)") simp_all
    with frag show ?thesis by simp
  next
    case inst
    with assms have "Some k \<in> set (case vc (vnodes st r) of CNode i \<Rightarrow> [Some i] | _ \<Rightarrow> [])"
      by (simp add: kidsOf_def Let_def)
    then have "vc (vnodes st r) = CNode k"
      by (cases "vc (vnodes st r)") simp_all
    with inst show ?thesis by simp
  next
    case keyed
    with assms have "Some k \<in> set (case va (vnodes st r) of AMap mr \<Rightarrow> map snd (kmaps st mr) | _ \<Rightarrow> [])"
      by (simp add: kidsOf_def Let_def)
    then have "\<exists>mr. va (vnodes st r) = AMap mr \<and> Some k \<in> set (map snd (kmaps st mr))"
      by (cases "va (vnodes st r)") simp_all
    with keyed show ?thesis by simp
  next
    case other
    with assms show ?thesis by (simp add: kidsOf_def Let_def)
  qed
qed

lemma removeNodeDispatch_subtree:
  assumes IH: "\<And>k s s' x. upd (Some k) None s = Done s' \<Longrightarrow> x \<in> subtree n s k \<Longrightarrow>
                 holdsNode s x \<Longrightarrow> vd (vnodes s' x) = None"
    and rel: "\<And>c s s'. upd c None s = Done s' \<Longrightarrow> released s s'"
    and nr: "\<And>c s e s'. upd c None s \<noteq> Raised e s'"
    and ty: "type = vm (vnodes st r) AND TYPE_MASK"
    and oc: "removeNodeDispatch upd type r st = Done s \<or> removeNodeDispatch upd type r st = Raised e s"
    and x: "x = r \<or> (\<exists>k. Some k \<in> set (kidsOf st r) \<and> x \<in> subtree n st k)"
    and h: "holdsNode st x"
  shows "vd (vnodes s x) = None"
proof -
  have sub: "vd (vnodes s' x) = None"
    if a: "forEach (\<lambda>c. upd c None) cs s0 = Done s'" and b: "Some k \<in> set cs"
      and c: "x \<in> subtree n s0 k" and d: "holdsNode s0 x" for cs s0 s' k
  proof (rule forEach_remove_subtree [where upd = upd and n = n and cs = cs and st = s0
        and st' = s' and k = k and x = x])
    show "\<And>k s s' x. upd (Some k) None s = Done s' \<Longrightarrow> x \<in> subtree n s k \<Longrightarrow>
            holdsNode s x \<Longrightarrow> vd (vnodes s' x) = None" by (rule IH)
    show "\<And>c s s'. upd c None s = Done s' \<Longrightarrow> released s s'" by (rule rel)
    show "forEach (\<lambda>c. upd c None) cs s0 = Done s'" by (rule a)
    show "Some k \<in> set cs" by (rule b)
    show "x \<in> subtree n s0 k" by (rule c)
    show "holdsNode s0 x" by (rule d)
  qed
  have fr: "\<And>cs s0 e s'. forEach (\<lambda>c. upd c None) cs s0 \<noteq> Raised e s'"
    by (rule forEach_not_Raised) (rule nr)
  show ?thesis
  proof (cases "x = r")
    case True
    with h ty have t: "type = 2 \<or> type = 3" by (simp add: holdsNode_def)
    then show ?thesis
    proof
      assume "type = 2"
      with oc True show ?thesis by (auto simp: removeNodeDispatch_def)
    next
      assume t3: "type = 3"
      let ?s0 = "removeNode r st"
      from oc t3 have "updateFragment upd (Some r) None ?s0 = Done s \<or>
                       updateFragment upd (Some r) None ?s0 = Raised e s"
        by (simp add: removeNodeDispatch_def removeElement_def)
      then have "released ?s0 s"
        using rel nr by (rule updateFragment_remove_released [rotated 2])
      then show ?thesis using True by (simp add: released_vd_None)
    qed
  next
    case False
    with x obtain k where k: "Some k \<in> set (kidsOf st r)" and xs: "x \<in> subtree n st k" by blast
    from kidsOf_cases [OF k] show ?thesis
    proof (elim disjE conjE exE)
      fix cs assume t: "vm (vnodes st r) AND TYPE_MASK \<in> {0, 3, 7, 8}"
        and c: "vc (vnodes st r) = CArr cs" and kin: "Some k \<in> set cs"
      show ?thesis
      proof (cases "type = 3")
        case True
        let ?s0 = "removeNode r st"
        have r0: "released st ?s0" by (rule released_removeNode)
        from c r0 have c0: "vc (vnodes ?s0 r) = CArr cs" by (simp add: released_fields)
        from oc True c0 fr have "forEach (\<lambda>c. upd c None) cs ?s0 = Done s"
          by (simp add: removeNodeDispatch_def removeElement_def updateFragment_remove)
        moreover from xs r0 have "x \<in> subtree n ?s0 k" by (simp add: released_subtree)
        moreover from h r0 have "holdsNode ?s0 x" by (simp add: released_holdsNode)
        ultimately show ?thesis using kin by (blast intro: sub)
      next
        case False
        with t ty have "type = 0 \<or> type = 7 \<or> type = 8" by auto
        with oc c fr have "forEach (\<lambda>c. upd c None) cs st = Done s"
          by (auto simp: removeNodeDispatch_def updateFragment_remove)
        then show ?thesis using kin xs h by (blast intro: sub)
      qed
    next
      assume t: "vm (vnodes st r) AND TYPE_MASK \<in> {4, 9}" and c: "vc (vnodes st r) = CNode k"
      with oc ty nr have "upd (Some k) None st = Done s"
        by (auto simp: removeNodeDispatch_def removeInstance_def)
      then show ?thesis using xs h by (blast intro: IH)
    next
      fix mr assume t: "vm (vnodes st r) AND TYPE_MASK = 1"
        and a: "va (vnodes st r) = AMap mr" and kin: "Some k \<in> set (map snd (kmaps st mr))"
      with oc ty fr have "forEach (\<lambda>c. upd c None) (map snd (kmaps st mr)) st = Done s"
        by (simp add: removeNodeDispatch_def removeKeyed_def)
      then show ?thesis using kin xs h by (blast intro: sub)
    qed
  qed
qed

text \<open>
  A removal that returns has taken the host node away from every text and element vnode
  it could reach.
\<close>

lemma updateNode_remove_subtree:
  "updateNode n E (Some r) None st = Done st' \<Longrightarrow> x \<in> subtree n st r \<Longrightarrow> holdsNode st x \<Longrightarrow>
   vd (vnodes st' x) = None"
proof (induction n arbitrary: r st st' x)
  case 0
  then show ?case by simp
next
  case (Suc n)
  from Suc.prems(2) have x: "x = r \<or> (\<exists>k. Some k \<in> set (kidsOf st r) \<and> x \<in> subtree n st k)"
    by (auto split: option.splits)
  have d: "vd (vnodes s x) = None"
    if "removeNodeDispatch (updateNode n E) (vm (vnodes st r) AND TYPE_MASK) r st = Done s \<or>
        removeNodeDispatch (updateNode n E) (vm (vnodes st r) AND TYPE_MASK) r st = Raised e s"
    for s e
  proof (rule removeNodeDispatch_subtree [where upd = "updateNode n E" and n = n and st = st and r = r])
    show "\<And>k s s' x. updateNode n E (Some k) None s = Done s' \<Longrightarrow> x \<in> subtree n s k \<Longrightarrow>
            holdsNode s x \<Longrightarrow> vd (vnodes s' x) = None" by (rule Suc.IH)
    show "\<And>c s s'. updateNode n E c None s = Done s' \<Longrightarrow> released s s'"
      by (rule updateNode_remove_released)
    show "\<And>c s e s'. updateNode n E c None s \<noteq> Raised e s'"
      by (rule updateNode_remove_not_Raised)
    show "vm (vnodes st r) AND TYPE_MASK = vm (vnodes st r) AND TYPE_MASK" by (rule refl)
    show "removeNodeDispatch (updateNode n E) (vm (vnodes st r) AND TYPE_MASK) r st = Done s \<or>
          removeNodeDispatch (updateNode n E) (vm (vnodes st r) AND TYPE_MASK) r st = Raised e s"
      by (rule that)
    show "x = r \<or> (\<exists>k. Some k \<in> set (kidsOf st r) \<and> x \<in> subtree n st k)" by (rule x)
    show "holdsNode st x" by (rule Suc.prems(3))
  qed
  from updateNode_remove_cases [OF Suc.prems(1)] show ?case
  proof (elim disjE conjE exE)
    assume t: "vm (vnodes st r) AND TYPE_MASK = 15" and "st' = st"
    from t have "kidsOf st r = []" by (simp add: kidsOf_def)
    with x have "x = r" by simp
    with t Suc.prems(3) show ?thesis by (simp add: holdsNode_def)
  next
    assume "removeNodeDispatch (updateNode n E) (vm (vnodes st r) AND TYPE_MASK) r st = Done st'"
    then show ?thesis by (intro d disjI1)
  next
    fix e s
    assume "removeNodeDispatch (updateNode n E) (vm (vnodes st r) AND TYPE_MASK) r st = Raised e s"
      and s: "st' = logError e s"
    then have "vd (vnodes s x) = None" by (intro d disjI2)
    with s show ?thesis by (simp add: logError_def)
  qed
qed

lemma forEach_map: "forEach f (map g xs) st = forEach (\<lambda>x. f (g x)) xs st"
  by (induction xs arbitrary: st) (simp_all add: andThen_def split: outcome.splits)

lemma fragment_pairs:
  "zip (take (if length olds < length news then length olds else length news) olds)
       (take (if length olds < length news then length olds else length news) news) @
   map (Pair None) (drop (if length olds < length news then length olds else length news) news) =
   map (\<lambda>j. (oldAt olds j, news ! j)) [0..<length news]"
  (is "?l = ?r")
proof (rule nth_equalityI)
  show "length ?l = length ?r" by auto
next
  fix j assume "j < length ?l"
  then have j: "j < length news" by (auto split: if_splits)
  show "?l ! j = ?r ! j"
  proof (cases "length olds < length news")
    case True
    then show ?thesis using j
      by (cases "j < length olds") (auto simp: nth_append oldAt_def)
  next
    case False
    then show ?thesis using j
      by (auto simp: nth_append oldAt_def)
  qed
qed

text \<open>
  What an exception out of \<open>updateFragment\<close> means, for any \<open>upd\<close> whose removals do
  not throw.
\<close>

lemma updateFragment_Raised:
  assumes thrown: "updateFragment upd (Some ol) (Some v) st = Raised e st'"
    and olds: "vc (vnodes st ol) = CArr olds" and news: "vc (vnodes st v) = CArr news"
    and nr: "\<And>x s e s'. upd x None s \<noteq> Raised e s'"
  shows "\<exists>i s0 s1 s2. i < length news \<and>
          forEach (\<lambda>j. upd (oldAt olds j) (news ! j)) [0..<i] st = Done s0 \<and>
          upd (oldAt olds i) (news ! i) s0 = Raised e s1 \<and>
          forEach (\<lambda>x. upd x None) (take i news) s1 = Done s2 \<and>
          forEach (\<lambda>x. upd x None) (drop i olds) s2 = Done st'"
proof -
  let ?f = "\<lambda>p. upd (fst p) (snd p)"
  let ?pairs = "map (\<lambda>j. (oldAt olds j, news ! j)) [0..<length news]"
  have fr: "\<And>cs s0 e s'. forEach (\<lambda>c. upd c None) cs s0 \<noteq> Raised e s'"
    by (rule forEach_not_Raised) (rule nr)
  from thrown olds news have
    c: "(case countLoop ?f 0 ?pairs st of
           LoopDone st1 \<Rightarrow> forEach (\<lambda>x. upd x None)
              (drop (if length olds < length news then length olds else length news) olds) st1
         | LoopRaised i e st1 \<Rightarrow>
             andThen (forEach (\<lambda>x. upd x None) (take i news) st1) (\<lambda>st2.
             andThen (forEach (\<lambda>x. upd x None) (drop i olds) st2) (\<lambda>st3. Raised e st3))
         | LoopTimeout \<Rightarrow> Timeout) = Raised e st'"
    by (simp add: updateFragment_def childrenOf_def Let_def fragment_pairs)
  then obtain i s1 where loop: "countLoop ?f 0 ?pairs st = LoopRaised i e s1"
    and rest: "andThen (forEach (\<lambda>x. upd x None) (take i news) s1) (\<lambda>st2.
             andThen (forEach (\<lambda>x. upd x None) (drop i olds) st2) (\<lambda>st3. Raised e st3)) = Raised e st'"
    using fr by (auto split: loop_outcome.splits simp: andThen_def split: outcome.splits)
  from rest fr obtain s2 where t1: "forEach (\<lambda>x. upd x None) (take i news) s1 = Done s2"
    and t2: "forEach (\<lambda>x. upd x None) (drop i olds) s2 = Done st'"
    by (auto simp: andThen_def split: outcome.splits)
  from countLoop_Raised [OF loop] obtain s0 where
    i: "i < length news" and p: "forEach ?f (take i ?pairs) st = Done s0"
    and th: "?f (?pairs ! i) s0 = Raised e s1"
    by auto
  from i have "take i ?pairs = map (\<lambda>j. (oldAt olds j, news ! j)) [0..<i]"
    by (simp add: take_map)
  with p have p': "forEach (\<lambda>j. upd (oldAt olds j) (news ! j)) [0..<i] st = Done s0"
    by (simp add: forEach_map)
  from th i have th': "upd (oldAt olds i) (news ! i) s0 = Raised e s1" by simp
  from i p' th' t1 t2 show ?thesis by blast
qed

lemmas eval_defs = updateFragment_def childrenOf_def updateNode_body_def guarded_def
  updateNodeDispatch_def removeNodeDispatch_def updateText_def updateElement_def openElement_def
  patchAttrs_def handleAttributeError_def removeElement_def removeNode_def setVnode_def
  hostRemove_def transmute_def Let_def type_defs flag_defs rollbackState_def emptyState_def
  quietEnv_def Vnode_def logError_def

lemma released_detached:
  assumes "released st st'" and "vd (vnodes st r) = Some x" and "vd (vnodes st' r) = None"
  shows "hparent st' x = None"
proof -
  from assms(1) have "\<forall>r x. vd (vnodes st r) = Some x \<longrightarrow>
      vd (vnodes st' r) = Some x \<or> (vd (vnodes st' r) = None \<and> hparent st' x = None)"
    unfolding released_def by blast
  with assms(2) have "vd (vnodes st' r) = Some x \<or> (vd (vnodes st' r) = None \<and> hparent st' x = None)"
    by blast
  with assms(3) show ?thesis by simp
qed

text \<open>
  With enough depth a removal returns: nothing on its way can throw past it, and the
  only other way for it not to end is to run out of depth.
\<close>

lemma removable_released:
  assumes "released st st'"
  shows "removable n st' x = removable n st x"
proof (induction n arbitrary: x)
  case 0
  show ?case by simp
next
  case (Suc n)
  show ?case
  proof (cases x)
    case None
    then show ?thesis by simp
  next
    case (Some r)
    have la: "list_all (removable n st') cs = list_all (removable n st) cs" for cs
      by (induction cs) (simp_all add: Suc.IH)
    show ?thesis
      using Some released_fields(1-3) [OF assms, of r] released_fields(4) [OF assms]
      by (simp add: Let_def la Suc.IH split: cval.splits aval.splits)
  qed
qed

lemma removable_released_fun: "released st st' \<Longrightarrow> removable n st' = removable n st"
  by (rule ext) (rule removable_released)

lemma forEach_remove_total:
  assumes IH: "\<And>s x. removable n s x \<Longrightarrow> \<exists>s'. updateNode n E x None s = Done s'"
  shows "list_all (removable n st) cs \<Longrightarrow> \<exists>st'. forEach (\<lambda>c. updateNode n E c None) cs st = Done st'"
proof (induction cs arbitrary: st)
  case Nil
  show ?case by simp
next
  case (Cons c cs)
  from Cons.prems have c: "removable n st c" and cs: "list_all (removable n st) cs" by simp_all
  from IH [OF c] obtain s1 where 1: "updateNode n E c None st = Done s1" by blast
  have "released st s1" using 1 by (rule updateNode_remove_released)
  then have "list_all (removable n s1) cs"
    using cs by (simp add: removable_released_fun)
  from Cons.IH [OF this] obtain st' where "forEach (\<lambda>c. updateNode n E c None) cs s1 = Done st'"
    by blast
  with 1 show ?case by simp
qed

lemma updateNode_remove_total:
  "removable n st x \<Longrightarrow> \<exists>st'. updateNode n E x None st = Done st'"
proof (induction n arbitrary: st x)
  case 0
  then show ?case by simp
next
  case (Suc n)
  show ?case
  proof (cases x)
    case None
    then show ?thesis by (simp add: updateNode_body_def)
  next
    case (Some r)
    let ?t = "vm (vnodes st r) AND TYPE_MASK"
    have fe: "\<exists>s'. forEach (\<lambda>c. updateNode n E c None) cs s = Done s'"
      if "list_all (removable n s) cs" for cs s
      using Suc.IH that by (rule forEach_remove_total)
    have nt: "removeNodeDispatch (updateNode n E) ?t r st \<noteq> Timeout"
    proof -
      consider (frag) "?t = 0 \<or> ?t = 7 \<or> ?t = 8" | (elem) "?t = 3" | (inst) "?t = 4 \<or> ?t = 9"
        | (keyed) "?t = 1" | (other) "?t \<notin> {0, 1, 3, 4, 7, 8, 9}" by auto
      then show ?thesis
      proof cases
        case frag
        show ?thesis
        proof (cases "vc (vnodes st r)")
          case (CArr cs)
          with Suc.prems Some frag have "list_all (removable n st) cs" by (auto simp: Let_def)
          from fe [OF this] obtain s' where "forEach (\<lambda>c. updateNode n E c None) cs st = Done s'" by blast
          with frag CArr show ?thesis
            by (auto simp: removeNodeDispatch_def updateFragment_remove)
        next
          case CNull
          with frag show ?thesis by (auto simp: removeNodeDispatch_def updateFragment_remove)
        next
          case (CNode i)
          with frag show ?thesis by (auto simp: removeNodeDispatch_def updateFragment_remove)
        qed
      next
        case elem
        have r0: "released st (removeNode r st)" by (rule released_removeNode)
        show ?thesis
        proof (cases "vc (vnodes st r)")
          case (CArr cs)
          with Suc.prems Some elem have "list_all (removable n st) cs" by (auto simp: Let_def)
          with r0 have "list_all (removable n (removeNode r st)) cs" by (simp add: removable_released_fun)
          from fe [OF this] obtain s' where
            "forEach (\<lambda>c. updateNode n E c None) cs (removeNode r st) = Done s'" by blast
          moreover from CArr r0 have "vc (vnodes (removeNode r st) r) = CArr cs"
            by (simp add: released_fields)
          ultimately show ?thesis using elem
            by (simp add: removeNodeDispatch_def removeElement_def updateFragment_remove)
        next
          case CNull
          with r0 have "vc (vnodes (removeNode r st) r) = CNull" by (simp add: released_fields)
          with elem show ?thesis
            by (simp add: removeNodeDispatch_def removeElement_def updateFragment_remove)
        next
          case (CNode i)
          with r0 have "vc (vnodes (removeNode r st) r) = CNode i" by (simp add: released_fields)
          with elem show ?thesis
            by (simp add: removeNodeDispatch_def removeElement_def updateFragment_remove)
        qed
      next
        case inst
        show ?thesis
        proof (cases "vc (vnodes st r)")
          case (CNode i)
          with Suc.prems Some inst have "removable n st (Some i)" by (auto simp: Let_def)
          from Suc.IH [OF this] obtain s' where "updateNode n E (Some i) None st = Done s'" by blast
          with inst CNode show ?thesis by (auto simp: removeNodeDispatch_def removeInstance_def)
        next
          case CNull
          with Suc.prems Some inst have "removable n st None" by (auto simp: Let_def)
          from Suc.IH [OF this] obtain s' where "updateNode n E None None st = Done s'" by blast
          with inst CNull show ?thesis by (auto simp: removeNodeDispatch_def removeInstance_def)
        next
          case (CArr cs)
          with inst show ?thesis by (auto simp: removeNodeDispatch_def removeInstance_def)
        qed
      next
        case keyed
        show ?thesis
        proof (cases "va (vnodes st r)")
          case (AMap mr)
          with Suc.prems Some keyed have "list_all (removable n st) (map snd (kmaps st mr))"
            by (auto simp: Let_def)
          from fe [OF this] obtain s' where
            "forEach (\<lambda>c. updateNode n E c None) (map snd (kmaps st mr)) st = Done s'" by blast
          with keyed AMap show ?thesis by (simp add: removeNodeDispatch_def removeKeyed_def)
        qed (use keyed in \<open>simp_all add: removeNodeDispatch_def removeKeyed_def\<close>)
      next
        case other
        then show ?thesis by (auto simp: removeNodeDispatch_def)
      qed
    qed
    show ?thesis
      using Some nt
      by (cases "removeNodeDispatch (updateNode n E) ?t r st")
         (simp_all add: updateNode_body_def Let_def)
  qed
qed

text \<open>
  The converse of \<open>countLoop_Raised\<close>: a loop whose iterations before \<open>j\<close> end normally
  and whose iteration \<open>j\<close> throws stops there with the counter at \<open>j\<close>.
\<close>

lemma countLoop_throws:
  "forEach f (take j xs) st = Done s0 \<Longrightarrow> j < length xs \<Longrightarrow> f (xs ! j) s0 = Raised e s1 \<Longrightarrow>
   countLoop f k xs st = LoopRaised (k + j) e s1"
proof (induction xs arbitrary: j k st)
  case Nil
  then show ?case by simp
next
  case (Cons x xs)
  show ?case
  proof (cases j)
    case 0
    with Cons.prems show ?thesis by simp
  next
    case (Suc j')
    with Cons.prems have "\<exists>s. f x st = Done s \<and> forEach f (take j' xs) s = Done s0"
      by (cases "f x st") simp_all
    then obtain s where 1: "f x st = Done s" and 2: "forEach f (take j' xs) s = Done s0" by blast
    from Cons.prems Suc have "j' < length xs" "f (xs ! j') s0 = Raised e s1" by simp_all
    from Cons.IH [OF 2 this, of "Suc k"] 1 Suc show ?thesis by simp
  qed
qed

text \<open>
  The rollback of \<open>updateFragment\<close>. When the children before position \<open>i\<close> have been
  reconciled and the reconciliation of child \<open>i\<close> throws \<open>e\<close>, the new-side children
  before \<open>i\<close> are torn down in order, then every old-side child from \<open>i\<close> on, and the
  diff ends with the same \<open>e\<close>.
\<close>

lemma updateFragment_rethrows:
  assumes olds: "vc (vnodes st ol) = CArr olds" and news: "vc (vnodes st v) = CArr news"
    and i: "i < length news"
    and before: "forEach (\<lambda>j. updateNode n E (oldAt olds j) (news ! j)) [0..<i] st = Done s0"
    and failing: "updateNode n E (oldAt olds i) (news ! i) s0 = Raised e s1"
    and depth: "list_all (removable n s1) (take i news @ drop i olds)"
  shows "\<exists>s2 st'. forEach (\<lambda>x. updateNode n E x None) (take i news) s1 = Done s2 \<and>
            forEach (\<lambda>x. updateNode n E x None) (drop i olds) s2 = Done st' \<and>
            updateFragment (updateNode n E) (Some ol) (Some v) st = Raised e st'"
proof -
  let ?f = "\<lambda>p. updateNode n E (fst p) (snd p)"
  let ?pairs = "map (\<lambda>j. (oldAt olds j, news ! j)) [0..<length news]"
  from depth have d1: "list_all (removable n s1) (take i news)"
    and d2: "list_all (removable n s1) (drop i olds)" by simp_all
  from forEach_remove_total [OF updateNode_remove_total d1]
  obtain s2 where t1: "forEach (\<lambda>x. updateNode n E x None) (take i news) s1 = Done s2" by blast
  have "released s1 s2"
    using t1 updateNode_remove_released forEach_released [where f = "\<lambda>x. updateNode n E x None"]
    by blast
  with d2 have "list_all (removable n s2) (drop i olds)" by (simp add: removable_released_fun)
  from forEach_remove_total [OF updateNode_remove_total this]
  obtain st' where t2: "forEach (\<lambda>x. updateNode n E x None) (drop i olds) s2 = Done st'" by blast
  from i have tk: "take i ?pairs = map (\<lambda>j. (oldAt olds j, news ! j)) [0..<i]"
    by (simp add: take_map)
  from before have p: "forEach ?f (take i ?pairs) st = Done s0"
    by (simp add: tk forEach_map)
  from i failing have th: "?f (?pairs ! i) s0 = Raised e s1" by simp
  from i have "i < length ?pairs" by simp
  from countLoop_throws [OF p this th, of 0]
  have "countLoop ?f 0 ?pairs st = LoopRaised i e s1" by simp
  with olds news t1 t2
  have "updateFragment (updateNode n E) (Some ol) (Some v) st = Raised e st'"
    by (simp add: updateFragment_def childrenOf_def Let_def fragment_pairs)
  with t1 t2 show ?thesis by blast
qed

text \<open>What the two loops of the \<open>catch\<close> block leave of the children they tear down.\<close>

lemma teardown_removes:
  assumes t1: "forEach (\<lambda>x. updateNode n E x None) (take i news) s1 = Done s2"
    and t2: "forEach (\<lambda>x. updateNode n E x None) (drop i olds) s2 = Done st'"
  shows "released s1 st'"
    and "Some r \<in> set (take i news) \<union> set (drop i olds) \<Longrightarrow> x \<in> subtree n s1 r \<Longrightarrow>
         holdsNode s1 x \<Longrightarrow> vd (vnodes st' x) = None"
proof -
  have r1: "released s1 s2"
    using t1 updateNode_remove_released forEach_released [where f = "\<lambda>x. updateNode n E x None"]
    by blast
  have r2: "released s2 st'"
    using t2 updateNode_remove_released forEach_released [where f = "\<lambda>x. updateNode n E x None"]
    by blast
  from r1 r2 show r: "released s1 st'" by (rule released_trans)
  have sub: "vd (vnodes sb x) = None"
    if a: "forEach (\<lambda>c. updateNode n E c None) cs sa = Done sb" and b: "Some k \<in> set cs"
      and c: "x \<in> subtree n sa k" and d: "holdsNode sa x" for cs sa sb k x
  proof (rule forEach_remove_subtree [where upd = "updateNode n E" and n = n and cs = cs
        and st = sa and st' = sb and k = k and x = x])
    show "\<And>k s s' x. updateNode n E (Some k) None s = Done s' \<Longrightarrow> x \<in> subtree n s k \<Longrightarrow>
            holdsNode s x \<Longrightarrow> vd (vnodes s' x) = None" by (rule updateNode_remove_subtree)
    show "\<And>c s s'. updateNode n E c None s = Done s' \<Longrightarrow> released s s'"
      by (rule updateNode_remove_released)
    show "forEach (\<lambda>c. updateNode n E c None) cs sa = Done sb" by (rule a)
    show "Some k \<in> set cs" by (rule b)
    show "x \<in> subtree n sa k" by (rule c)
    show "holdsNode sa x" by (rule d)
  qed
  assume w: "Some r \<in> set (take i news) \<union> set (drop i olds)"
    and xs: "x \<in> subtree n s1 r" and h: "holdsNode s1 x"
  from w show "vd (vnodes st' x) = None"
  proof
    assume "Some r \<in> set (take i news)"
    with t1 xs h have "vd (vnodes s2 x) = None" by (blast intro: sub)
    with r2 show ?thesis by (rule released_vd_None)
  next
    assume "Some r \<in> set (drop i olds)"
    moreover from xs r1 have "x \<in> subtree n s2 r" by (simp add: released_subtree)
    moreover from h r1 have "holdsNode s2 x" by (simp add: released_holdsNode)
    ultimately show ?thesis using t2 by (blast intro: sub)
  qed
qed

lemmas keyed_defs = updateKeyed_def keyedStep_def removeKeyed_def moveToPosition_body_def
  insertAfterCurrentRefNode_def hostAfter_def hostPrepend_def mapGet_def mapDelete_def

lemma triple_eval:
  "\<exists>s0 s1. forEach (\<lambda>j. updateNode (Suc (Suc 0)) quietEnv (oldAt [Some 1, Some 2, Some 3] j)
                        ([Some 5, Some 6, Some 7] ! j)) [0..<Suc 0] tripleState = Done s0 \<and>
     updateNode (Suc (Suc 0)) quietEnv (oldAt [Some 1, Some 2, Some 3] (Suc 0))
       ([Some 5, Some 6, Some 7] ! Suc 0) s0 = Raised (Error ''Attributes object cannot be reused.'') s1 \<and>
     list_all (removable (Suc (Suc 0)) s1) (take (Suc 0) [Some 5, Some 6, Some 7] @ drop (Suc 0) [Some 1, Some 2, Some 3]) \<and>
     holdsNode s1 5 \<and> vd (vnodes s1 5) = Some 10 \<and> hparent s1 10 = Some 0 \<and>
     holdsNode s1 3 \<and> vd (vnodes s1 3) = Some 12 \<and> hparent s1 12 = Some 0"
  by (simp add: eval_defs tripleState_def oldAt_def holdsNode_def)

text \<open>
  C1, as the code has it. Let a fragment with M old children be patched, let the children
  before position \<open>i\<close> of the new side have been reconciled and let the reconciliation of
  child \<open>i\<close>, the Nth (\<open>i = N - 1\<close>), throw \<open>e\<close>, with a depth \<open>n\<close> that is enough to remove
  the children torn down. Then the fragment diff ends with that exception, and
  afterwards every text and element vnode that was, when the exception was caught, in the
  subtree of one of the first N - 1 new children or of one of the M - N old children after
  the Nth holds no host node and is not committed, and the host node it held then has no
  parent. The new versions of the children visited and the old versions of the children
  not visited are removed; none of the first N - 1 is left committed.
\<close>

theorem rollback_children_removed:
  assumes olds: "vc (vnodes st ol) = CArr olds" and news: "vc (vnodes st v) = CArr news"
    and i: "i < length news"
    and before: "forEach (\<lambda>j. updateNode n E (oldAt olds j) (news ! j)) [0..<i] st = Done s0"
    and failing: "updateNode n E (oldAt olds i) (news ! i) s0 = Raised e s1"
    and depth: "list_all (removable n s1) (take i news @ drop i olds)"
  shows "\<exists>st'. updateFragment (updateNode n E) (Some ol) (Some v) st = Raised e st' \<and>
          (\<forall>j r x. (j < i \<and> news ! j = Some r) \<or> (i < j \<and> j < length olds \<and> olds ! j = Some r) \<longrightarrow>
             x \<in> subtree n s1 r \<longrightarrow> holdsNode s1 x \<longrightarrow>
             vd (vnodes st' x) = None \<and> \<not> committed st' x \<and>
             (\<forall>y. vd (vnodes s1 x) = Some y \<longrightarrow> hparent st' y = None))"
proof -
  from updateFragment_rethrows [OF olds news i before failing depth]
  obtain s2 st' where t1: "forEach (\<lambda>x. updateNode n E x None) (take i news) s1 = Done s2"
    and t2: "forEach (\<lambda>x. updateNode n E x None) (drop i olds) s2 = Done st'"
    and th: "updateFragment (updateNode n E) (Some ol) (Some v) st = Raised e st'"
    by blast
  note r = teardown_removes(1) [OF t1 t2]
  have "\<forall>j r x. (j < i \<and> news ! j = Some r) \<or> (i < j \<and> j < length olds \<and> olds ! j = Some r) \<longrightarrow>
          x \<in> subtree n s1 r \<longrightarrow> holdsNode s1 x \<longrightarrow>
          vd (vnodes st' x) = None \<and> \<not> committed st' x \<and>
          (\<forall>y. vd (vnodes s1 x) = Some y \<longrightarrow> hparent st' y = None)"
  proof (intro allI impI)
    fix j r x
    assume w: "(j < i \<and> news ! j = Some r) \<or> (i < j \<and> j < length olds \<and> olds ! j = Some r)"
      and xs: "x \<in> subtree n s1 r" and h: "holdsNode s1 x"
    from w have "Some r \<in> set (take i news) \<union> set (drop i olds)"
    proof
      assume "j < i \<and> news ! j = Some r"
      with i have "Some r \<in> set (take i news)"
        by (auto simp: in_set_conv_nth intro!: exI [of _ j])
      then show ?thesis by simp
    next
      assume "i < j \<and> j < length olds \<and> olds ! j = Some r"
      then have "Some r \<in> set (drop i olds)"
        by (auto simp: in_set_conv_nth intro!: exI [of _ "j - i"])
      then show ?thesis by simp
    qed
    from teardown_removes(2) [OF t1 t2 this xs h] have g: "vd (vnodes st' x) = None" .
    then have "\<not> committed st' x" by (simp add: committed_def)
    moreover have "\<forall>y. vd (vnodes s1 x) = Some y \<longrightarrow> hparent st' y = None"
      using r g by (blast intro: released_detached)
    ultimately show "vd (vnodes st' x) = None \<and> \<not> committed st' x \<and>
          (\<forall>y. vd (vnodes s1 x) = Some y \<longrightarrow> hparent st' y = None)"
      using g by blast
  qed
  with th show ?thesis by blast
qed

theorem rollback_children_removed_witness:
  "vc (vnodes tripleState 0) = CArr [Some 1, Some 2, Some 3] \<and>
   vc (vnodes tripleState 4) = CArr [Some 5, Some 6, Some 7] \<and>
   Suc 0 < length [Some 5, Some 6, Some (7::nat)] \<and>
   (\<exists>s0 s1.
      forEach (\<lambda>j. updateNode (Suc (Suc 0)) quietEnv (oldAt [Some 1, Some 2, Some 3] j)
                        ([Some 5, Some 6, Some 7] ! j)) [0..<Suc 0] tripleState = Done s0 \<and>
      updateNode (Suc (Suc 0)) quietEnv (oldAt [Some 1, Some 2, Some 3] (Suc 0))
        ([Some 5, Some 6, Some 7] ! Suc 0) s0 = Raised (Error ''Attributes object cannot be reused.'') s1 \<and>
      list_all (removable (Suc (Suc 0)) s1)
        (take (Suc 0) [Some 5, Some 6, Some 7] @ drop (Suc 0) [Some 1, Some 2, Some 3]) \<and>
      holdsNode s1 5 \<and> vd (vnodes s1 5) = Some 10 \<and> hparent s1 10 = Some 0 \<and>
      holdsNode s1 3 \<and> vd (vnodes s1 3) = Some 12 \<and> hparent s1 12 = Some 0 \<and>
      (\<exists>st'. updateFragment (updateNode (Suc (Suc 0)) quietEnv) (Some 0) (Some 4) tripleState =
               Raised (Error ''Attributes object cannot be reused.'') st' \<and>
             vd (vnodes st' 5) = None \<and> \<not> committed st' 5 \<and> hparent st' 10 = None \<and>
             vd (vnodes st' 3) = None \<and> \<not> committed st' 3 \<and> hparent st' 12 = None))"
proof -
  let ?olds = "[Some 1, Some 2, Some (3::nat)]" and ?news = "[Some 5, Some 6, Some (7::nat)]"
  let ?e = "Error ''Attributes object cannot be reused.''"
  have ol: "vc (vnodes tripleState 0) = CArr ?olds" by (simp add: tripleState_def)
  have nw: "vc (vnodes tripleState 4) = CArr ?news" by (simp add: tripleState_def)
  have i: "Suc 0 < length ?news" by simp
  from triple_eval obtain s0 s1 where
    b: "forEach (\<lambda>j. updateNode (Suc (Suc 0)) quietEnv (oldAt ?olds j) (?news ! j)) [0..<Suc 0] tripleState = Done s0"
    and f: "updateNode (Suc (Suc 0)) quietEnv (oldAt ?olds (Suc 0)) (?news ! Suc 0) s0 = Raised ?e s1"
    and d: "list_all (removable (Suc (Suc 0)) s1) (take (Suc 0) ?news @ drop (Suc 0) ?olds)"
    and h5: "holdsNode s1 5" "vd (vnodes s1 5) = Some 10" "hparent s1 10 = Some 0"
    and h3: "holdsNode s1 3" "vd (vnodes s1 3) = Some 12" "hparent s1 12 = Some 0"
    by blast
  from rollback_children_removed [OF ol nw i b f d] obtain st' where
    th: "updateFragment (updateNode (Suc (Suc 0)) quietEnv) (Some 0) (Some 4) tripleState = Raised ?e st'"
    and gone: "\<And>j r x. (j < Suc 0 \<and> ?news ! j = Some r) \<or> (Suc 0 < j \<and> j < length ?olds \<and> ?olds ! j = Some r) \<Longrightarrow>
             x \<in> subtree (Suc (Suc 0)) s1 r \<Longrightarrow> holdsNode s1 x \<Longrightarrow>
             vd (vnodes st' x) = None \<and> \<not> committed st' x \<and>
             (\<forall>y. vd (vnodes s1 x) = Some y \<longrightarrow> hparent st' y = None)"
    by blast
  have g5: "vd (vnodes st' 5) = None \<and> \<not> committed st' 5 \<and>
             (\<forall>y. vd (vnodes s1 5) = Some y \<longrightarrow> hparent st' y = None)"
    by (rule gone [of 0 5 5]) (simp_all add: h5)
  have g3: "vd (vnodes st' 3) = None \<and> \<not> committed st' 3 \<and>
             (\<forall>y. vd (vnodes s1 3) = Some y \<longrightarrow> hparent st' y = None)"
    by (rule gone [of 2 3 3]) (simp_all add: h3)
  from g5 h5 have a5: "vd (vnodes st' 5) = None" "\<not> committed st' 5" "hparent st' 10 = None" by simp_all
  from g3 h3 have a3: "vd (vnodes st' 3) = None" "\<not> committed st' 3" "hparent st' 12 = None" by simp_all
  from ol nw i b f d h5 h3 th a5 a3 show ?thesis by blast
qed

text \<open>
  C1 as stated fails. In \<open>rollbackState\<close> the update of the second new child throws
  (its attributes object is the old one); the first new child, vnode 4, took over the
  committed host node of vnode 1, and after the exception it is not committed.
\<close>

theorem rollback_not_committed_counterexample:
  "thrown (updateFragment (updateNode (Suc (Suc 0)) quietEnv) (Some 0) (Some 3) rollbackState) =
     Some (Error ''Attributes object cannot be reused.'') \<and>
   committed rollbackState 1 \<and>
   \<not> committedAfter (updateFragment (updateNode (Suc (Suc 0)) quietEnv) (Some 0) (Some 3) rollbackState) 4"
  by (simp add: eval_defs thrown_def committedAfter_def committed_def)

text \<open>
  C2 fails on the code. The fragment diff does tear down the new-side children it had
  processed and every old-side child that remained, and it throws the same exception
  again (\<open>updateFragment_rethrows\<close>); but a keyed group that fails after two or more of its
  entries leaves them in the document, so the live tree under the fragment ends part old
  and part new. In \<open>keyedState\<close> the entries \<open>a\<close> and \<open>b\<close> have been patched when the entry
  \<open>c\<close> throws. The loop of \<open>updateKeyed\<close> that removes the new entries leaves at its first
  turn unless the counter \<open>added\<close> is 1, and here it is 2. After the exception has left the
  fragment diff the host nodes 10 and 11 are still attached, held by the old vnodes 2 and
  3 and by the new vnodes 7 and 8, while the old entry \<open>c\<close> (vnode 4) is removed.
\<close>

theorem keyed_rollback_mixed:
  "thrown (updateFragment (updateNode (Suc (Suc (Suc 0))) quietEnv) (Some 0) (Some 5) keyedState) =
     Some (TypeError ''Vnodes must not be reused'') \<and>
   committedAfter (updateFragment (updateNode (Suc (Suc (Suc 0))) quietEnv) (Some 0) (Some 5) keyedState) 2 \<and>
   committedAfter (updateFragment (updateNode (Suc (Suc (Suc 0))) quietEnv) (Some 0) (Some 5) keyedState) 7 \<and>
   committedAfter (updateFragment (updateNode (Suc (Suc (Suc 0))) quietEnv) (Some 0) (Some 5) keyedState) 3 \<and>
   committedAfter (updateFragment (updateNode (Suc (Suc (Suc 0))) quietEnv) (Some 0) (Some 5) keyedState) 8 \<and>
   \<not> committedAfter (updateFragment (updateNode (Suc (Suc (Suc 0))) quietEnv) (Some 0) (Some 5) keyedState) 4"
  by (simp add: eval_defs keyed_defs keyedState_def thrown_def committedAfter_def committed_def)


section \<open>Retained nodes and rendering the same tree again\<close>

text \<open>
  A render target (host node 0) whose committed tree is the text vnode 0 (host node 1),
  and a retain vnode 1 built by \<open>m.retain()\<close>.
\<close>

definition renderFixture :: rstate where
  "renderFixture =
     emptyState\<lparr>vnodes := (vnodes emptyState)
                  (0 := \<lparr>vm = 18, vt = TagNull, va = AText ''a'', vc = CNull, vs = SNull, vd = Some 1\<rparr>,
                   1 := \<lparr>vm = - 1, vt = TagNull, va = ANull, vc = CNull, vs = SNull, vd = None\<rparr>),
                nextVnode := 2,
                hparent := (hparent emptyState)(1 := Some 0, 2 := Some 0),
                hvnodes := (hvnodes emptyState)(0 := Some 0),
                hnamespaceURI := (hnamespaceURI emptyState)(0 := Some htmlNs, 2 := Some htmlNs),
                nextNode := 3\<rparr>"

lemma transmute_eq: "transmute ol n = ol"
  by (cases ol, cases n) (simp add: transmute_def)

text \<open>
  C3. When the old vnode is present and the new vnode is a retain node (negative mask),
  \<open>updateNode\<close> returns at once, and the state it leaves differs from the one it found
  in the new vnode alone, whose six fields are now those of the old vnode: no handler
  has run, the host document and its log are as before.
\<close>

theorem retain_transmutes:
  assumes "vm (vnodes st v) < 0"
  shows "\<exists>st'. updateNode (Suc n) E (Some ol) (Some v) st = Done st' \<and>
           vm (vnodes st' v) = vm (vnodes st ol) \<and> vt (vnodes st' v) = vt (vnodes st ol) \<and>
           vs (vnodes st' v) = vs (vnodes st ol) \<and> va (vnodes st' v) = va (vnodes st ol) \<and>
           vc (vnodes st' v) = vc (vnodes st ol) \<and> vd (vnodes st' v) = vd (vnodes st ol) \<and>
           st' = st\<lparr>vnodes := (vnodes st)(v := vnodes st ol)\<rparr>"
proof (cases "ol = v")
  case True
  then show ?thesis by (simp add: updateNode_body_def)
next
  case False
  with assms show ?thesis
    by (simp add: updateNode_body_def Let_def setVnode_def transmute_eq)
qed

theorem retain_transmutes_witness:
  "vm (vnodes renderFixture 1) < 0 \<and>
   (\<exists>st'. updateNode (Suc 0) quietEnv (Some 0) (Some 1) renderFixture = Done st' \<and>
           vm (vnodes st' 1) = vm (vnodes renderFixture 0) \<and> vt (vnodes st' 1) = vt (vnodes renderFixture 0) \<and>
           vs (vnodes st' 1) = vs (vnodes renderFixture 0) \<and> va (vnodes st' 1) = va (vnodes renderFixture 0) \<and>
           vc (vnodes st' 1) = vc (vnodes renderFixture 0) \<and> vd (vnodes st' 1) = vd (vnodes renderFixture 0) \<and>
           st' = renderFixture\<lparr>vnodes := (vnodes renderFixture)(1 := vnodes renderFixture 0)\<rparr>)"
proof -
  have h: "vm (vnodes renderFixture 1) < 0" by (simp add: renderFixture_def)
  from retain_transmutes [OF h, of 0 quietEnv 0] h show ?thesis by blast
qed

text \<open>
  C4. Reconciling a vnode against itself returns at once with the state as it was; and
  rendering, into a target that is not locked, the very vnode that is the target's
  committed tree ends normally with nothing added to the log of host mutations, no
  host node moved, no vnode changed.
\<close>

theorem render_same_tree:
  assumes committed: "hvnodes st dm = Some r"
    and cb: "checkCallback redrawOpt True ''redraw'' = Return cb"
    and free: "\<not> list_ex (\<lambda>root. contains st dm root) (currentlyRendering st)"
  shows "updateNode (Suc n) E (Some r) (Some r) st = Done st \<and>
         (\<exists>st'. render (Suc n) E (Some dm) (TNode r) redrawOpt removeOnThrow st = Done st' \<and>
                hlog st' = hlog st \<and> hparent st' = hparent st \<and> vnodes st' = vnodes st \<and>
                hvnodes st' = hvnodes st \<and> hactive st' = hactive st \<and> console st' = console st)"
proof -
  have 1: "updateNode (Suc n) E (Some r) (Some r) st = Done st"
    by (simp add: updateNode_body_def)
  have 2: "\<exists>st'. render (Suc n) E (Some dm) (TNode r) redrawOpt removeOnThrow st = Done st' \<and>
                hlog st' = hlog st \<and> hparent st' = hparent st \<and> vnodes st' = vnodes st \<and>
                hvnodes st' = hvnodes st \<and> hactive st' = hactive st \<and> console st' = console st"
    using committed cb free
    by (simp add: render_def renderBody_def renderFinally_def Let_def allocObj_def
          updateNode_body_def fun_upd_idem split: option.splits)
  from 1 2 show ?thesis by blast
qed

theorem render_same_tree_witness:
  "hvnodes renderFixture 0 = Some 0 \<and>
   checkCallback JUndefined True ''redraw'' = Return JUndefined \<and>
   \<not> list_ex (\<lambda>root. contains renderFixture 0 root) (currentlyRendering renderFixture) \<and>
   updateNode (Suc 0) quietEnv (Some 0) (Some 0) renderFixture = Done renderFixture \<and>
   (\<exists>st'. render (Suc 0) quietEnv (Some 0) (TNode 0) JUndefined JUndefined renderFixture = Done st' \<and>
          hlog st' = hlog renderFixture \<and> hparent st' = hparent renderFixture \<and>
          vnodes st' = vnodes renderFixture \<and> hvnodes st' = hvnodes renderFixture \<and>
          hactive st' = hactive renderFixture \<and> console st' = console renderFixture)"
proof -
  have a: "hvnodes renderFixture 0 = Some 0" by (simp add: renderFixture_def)
  have b: "checkCallback JUndefined True ''redraw'' = Return JUndefined"
    by (simp add: checkCallback_def)
  have c: "\<not> list_ex (\<lambda>root. contains renderFixture 0 root) (currentlyRendering renderFixture)"
    by (simp add: renderFixture_def emptyState_def)
  from render_same_tree [OF a b c, of 0 quietEnv JUndefined] a b c show ?thesis by blast
qed


section \<open>The lock on render targets\<close>

definition lockedError :: exn where
  "lockedError = TypeError ''Node is currently being rendered to and thus is locked.''"

text \<open>The host mutations logged when a call has ended.\<close>

definition finalLog :: "outcome \<Rightarrow> hostop list option" where
  "finalLog oc = (case oc of Done st \<Rightarrow> Some (hlog st) | Raised e st \<Rightarrow> Some (hlog st) | Timeout \<Rightarrow> None)"

text \<open>
  A render of the host node 0 is in flight; the host node 1 is a child of node 0.
\<close>

definition lockState :: rstate where
  "lockState =
     emptyState\<lparr>hparent := (hparent emptyState)(1 := Some 0),
                hnamespaceURI := (hnamespaceURI emptyState)(0 := Some htmlNs, 1 := Some htmlNs),
                nextNode := 2,
                currentParent := Some 0,
                currentDocument := Some 0,
                currentlyRendering := [0]\<rparr>"

lemma climb_self: "climb k par a a"
  by (cases k) simp_all

lemma contains_self: "contains st a a"
  by (simp add: contains_def climb_self)

lemma contains_child: "hparent st b = Some a \<Longrightarrow> 0 < nextNode st \<Longrightarrow> contains st a b"
  by (cases "nextNode st") (simp_all add: contains_def climb_self)

text \<open>
  C5, as the code has it. With a valid \<open>redraw\<close> option, \<open>m.render\<close> throws the lock
  TypeError, leaving the state untouched, exactly when the target contains (or is) one of
  the targets in flight; otherwise the call is accepted: it runs the body of its \<open>try\<close>
  block, which starts the reconciliation, and then its \<open>finally\<close> block. A target that
  lies inside a target in flight is therefore accepted.
\<close>

theorem render_lock:
  assumes cb: "checkCallback redrawOpt True ''redraw'' = Return cb"
  shows "(list_ex (\<lambda>root. contains st dm root) (currentlyRendering st) \<longrightarrow>
            render n E (Some dm) t redrawOpt removeOnThrow st = Raised lockedError st) \<and>
         (\<not> list_ex (\<lambda>root. contains st dm root) (currentlyRendering st) \<longrightarrow>
            render n E (Some dm) t redrawOpt removeOnThrow st =
              tryFinally (renderBody n E dm t redrawOpt removeOnThrow (hactive st (hdocument st dm))
                            (hnamespaceURI st dm) (st\<lparr>currentHooks := []\<rparr>))
                (renderFinally st))"
  using cb by (simp add: render_def lockedError_def Let_def)

theorem render_lock_witness:
  "checkCallback JUndefined True ''redraw'' = Return JUndefined \<and>
   list_ex (\<lambda>root. contains lockState 0 root) (currentlyRendering lockState) \<and>
   render (Suc 0) quietEnv (Some 0) TNull JUndefined JUndefined lockState = Raised lockedError lockState \<and>
   \<not> list_ex (\<lambda>root. contains lockState 1 root) (currentlyRendering lockState) \<and>
   render (Suc 0) quietEnv (Some 1) TNull JUndefined JUndefined lockState =
     tryFinally (renderBody (Suc 0) quietEnv 1 TNull JUndefined JUndefined
                   (hactive lockState (hdocument lockState 1)) (hnamespaceURI lockState 1)
                   (lockState\<lparr>currentHooks := []\<rparr>))
       (renderFinally lockState)"
proof -
  have a: "checkCallback JUndefined True ''redraw'' = Return JUndefined"
    by (simp add: checkCallback_def)
  have b: "list_ex (\<lambda>root. contains lockState 0 root) (currentlyRendering lockState)"
    by (simp add: lockState_def emptyState_def contains_self)
  have c: "\<not> list_ex (\<lambda>root. contains lockState 1 root) (currentlyRendering lockState)"
    by (simp add: lockState_def emptyState_def contains_def numeral_2_eq_2)
  from render_lock [OF a, of lockState 0 "Suc 0" quietEnv TNull JUndefined]
       render_lock [OF a, of lockState 1 "Suc 0" quietEnv TNull JUndefined] a b c
  show ?thesis by blast
qed

text \<open>
  C5 as stated fails: the host node 1 is contained in the target 0, which is in flight, and
  a render into node 1 does not throw; it reconciles, clearing node 1 on this first render.
\<close>

theorem render_lock_counterexample:
  "contains lockState 0 1 \<and> currentlyRendering lockState = [0] \<and>
   thrown (render (Suc 0) quietEnv (Some 1) TNull JUndefined JUndefined lockState) = None \<and>
   finalLog (render (Suc 0) quietEnv (Some 1) TNull JUndefined JUndefined lockState) =
     Some [SetTextContent 1]"
  by (simp add: render_def renderBody_def renderFinally_def Let_def allocObj_def
        updateNode_body_def checkCallback_def clearContent_def contains_def lockState_def
        emptyState_def thrown_def finalLog_def numeral_2_eq_2)


section \<open>The dynamic context of a context-set node\<close>













section \<open>The vnode factory (\<open>m\<close>)\<close>

text \<open>
  The first argument of \<open>m\<close>: a selector string, a function (\<open>m.Fragment\<close> or a
  component), or anything else. The second argument, when present: \<open>null\<close> or
  \<open>undefined\<close>; an object that is neither a vnode nor an array, which is the
  attributes object; or a value that is already the first child. The further arguments
  are children.
\<close>

datatype selector = SelString string | SelFn fnid | SelOther

datatype arg = Nullish | Obj oref | Child tree

definition m_Fragment :: fnid where
  "m_Fragment = 0"

text \<open>\<open>{...base, ...extra}\<close>, and a new attributes object with given properties.\<close>

definition spread :: "(string \<times> jsval) list \<Rightarrow> (string \<times> jsval) list \<Rightarrow> (string \<times> jsval) list" where
  "spread base extra = foldl (\<lambda>acc p. mapSet (fst p) (snd p) acc) base extra"

definition allocAttrs :: "(string \<times> jsval) list \<Rightarrow> rstate \<Rightarrow> oref \<times> rstate" where
  "allocAttrs ps st =
     (nextObj st, st\<lparr>attrObjs := (attrObjs st)(nextObj st := ps), nextObj := Suc (nextObj st)\<rparr>)"

definition setProp :: "oref \<Rightarrow> string \<Rightarrow> jsval \<Rightarrow> rstate \<Rightarrow> rstate" where
  "setProp r k x st = st\<lparr>attrObjs := (attrObjs st)(r := mapSet k x (attrObjs st r))\<rparr>"

text \<open>\<open>x != null\<close>.\<close>

definition notNullish :: "jsval \<Rightarrow> bool" where
  "notNullish x = (x \<noteq> JNull \<and> x \<noteq> JUndefined)"

text \<open>
  The block \<open>if (type === TYPE_ELEMENT)\<close> of \<open>m\<close>: the attributes object the vnode gets.
  \<open>compileSelector\<close>, which parses a selector with a regular expression, is a parameter;
  a parsed selector is entered into the cache.
\<close>

definition elementAttrs :: "(string \<Rightarrow> selector_state) \<Rightarrow> env \<Rightarrow> string \<Rightarrow> oref option \<Rightarrow> rstate \<Rightarrow> oref \<times> rstate" where
  "elementAttrs compileSelector E sel attrs0 st =
     (let (attrs, st1) = (case attrs0 of Some r \<Rightarrow> (r, st) | None \<Rightarrow> allocAttrs [] st);
          hasClassName = mapHas (attrObjs st1 attrs) ''className'';
          dynamicClass = (if hasClassName then attrGet st1 (AAttrs attrs) ''className''
                          else attrGet st1 (AAttrs attrs) ''class'');
          (parsed, st2) =
            (case selectorCache st1 sel of
               Some cached \<Rightarrow> (cached, st1)
             | None \<Rightarrow> (compileSelector sel,
                         st1\<lparr>selectorCache := (selectorCache st1)(sel \<mapsto> compileSelector sel)\<rparr>));
          original = attrs;
          (attrs1, st3) =
            (case sel_a parsed of
               Some sa \<Rightarrow> allocAttrs (spread sa (attrObjs st2 attrs)) st2
             | None \<Rightarrow> (attrs, st2))
      in if notNullish dynamicClass \<or> sel_c parsed \<noteq> None then
           let (attrs2, st4) = (if attrs1 \<noteq> original then allocAttrs (attrObjs st3 attrs1) st3
                                else (attrs1, st3));
               cls = (if notNullish dynamicClass then
                        (case sel_c parsed of
                           Some c \<Rightarrow> JStr (c @ '' '' @ stringOf E dynamicClass)
                         | None \<Rightarrow> dynamicClass)
                      else (case sel_c parsed of Some c \<Rightarrow> JStr c | None \<Rightarrow> JUndefined));
               st5 = setProp attrs2 ''class'' cls st4;
               st6 = (if hasClassName then setProp attrs2 ''className'' JNull st5 else st5)
           in (attrs2, st6)
         else (attrs1, st3))"

text \<open>
  \<open>m(selector, attrs, ...children)\<close>, here \<open>m_vnode\<close>. With no third argument the
  children may come from \<open>attrs.children\<close>; a single array argument is the list of
  children; a component receives its children, not normalised, in its attributes.
\<close>

definition m_vnode :: "(string \<Rightarrow> selector_state) \<Rightarrow> env \<Rightarrow> selector \<Rightarrow> arg option \<Rightarrow> tree list \<Rightarrow> rstate \<Rightarrow> vref result \<times> rstate" where
  "m_vnode compileSelector E selector second rest st =
     (case selector of
        SelOther \<Rightarrow> (Throw (Error ''The selector must be either a string or a component.''), st)
      | _ \<Rightarrow>
          let type = (case selector of
                        SelFn f \<Rightarrow> if f = m_Fragment then TYPE_FRAGMENT else TYPE_COMPONENT
                      | _ \<Rightarrow> TYPE_ELEMENT);
              tg = (case selector of SelString s \<Rightarrow> TagStr s | SelFn f \<Rightarrow> TagFn f | SelOther \<Rightarrow> TagNull);
              attrs0 = (case second of Some (Obj r) \<Rightarrow> Some r | _ \<Rightarrow> None);
              fromAttrs =
                (case attrs0 of
                   Some r \<Rightarrow>
                     (if rest = [] then
                        (case attrGet st (AAttrs r) ''children'' of
                           JArr ar \<Rightarrow> Some (arrays st ar)
                         | _ \<Rightarrow> None)
                      else None)
                 | None \<Rightarrow> None);
              given = (case second of Some (Child t) \<Rightarrow> t # rest | _ \<Rightarrow> rest);
              children = (case fromAttrs of
                            Some ts \<Rightarrow> ts
                          | None \<Rightarrow> (case given of [TArr ts] \<Rightarrow> ts | _ \<Rightarrow> given))
          in if type = TYPE_ELEMENT then
               (case selector of
                  SelString sel \<Rightarrow>
                    let (attrs, st1) = elementAttrs compileSelector E sel attrs0 st;
                        (cs, st2) = normalizeAll children st1;
                        (r, st3) = allocVnode (Vnode type tg (AAttrs attrs) (CArr cs)) st2
                    in (Return r, st3)
                | _ \<Rightarrow> (Throw (Error ''The selector must be either a string or a component.''), st))
             else if type = TYPE_COMPONENT then
               let ar = nextArray st;
                   st1 = st\<lparr>arrays := (arrays st)(ar := children), nextArray := Suc ar\<rparr>;
                   (attrs, st2) = allocAttrs (spread [(''children'', JArr ar)]
                                     (case attrs0 of Some r \<Rightarrow> attrObjs st1 r | None \<Rightarrow> [])) st1;
                   (r, st3) = allocVnode (Vnode type tg (AAttrs attrs) CNull) st2
               in (Return r, st3)
             else
               let (cs, st1) = normalizeAll children st;
                   (r, st2) = allocVnode (Vnode type tg (case attrs0 of Some a \<Rightarrow> AAttrs a | None \<Rightarrow> ANull)
                                            (CArr cs)) st1
               in (Return r, st2))"

text \<open>
  The selector \<open>div\<close> has been parsed (tag \<open>div\<close>, no attributes, no class), and the
  caller holds the attributes object 7, \<open>{className: "x"}\<close>.
\<close>

definition factoryState :: rstate where
  "factoryState =
     emptyState\<lparr>attrObjs := (attrObjs emptyState)(7 := [(''className'', JStr ''x'')]),
                nextObj := 8,
                selectorCache := [''div'' \<mapsto> \<lparr>sel_t = ''div'', sel_a = None, sel_c = None\<rparr>]\<rparr>"

lemma allocAttrs_other:
  "r < nextObj st \<Longrightarrow> attrObjs (snd (allocAttrs ps st)) r = attrObjs st r"
  by (simp add: allocAttrs_def)

text \<open>
  When the parsed selector carries attributes, \<open>m\<close> works on copies and the attributes
  object of the caller keeps its properties.
\<close>

lemma elementAttrs_copies:
  assumes c: "selectorCache st sel = Some parsed" and a: "sel_a parsed = Some sa"
    and r: "r < nextObj st"
  shows "attrObjs (snd (elementAttrs compileSelector E sel (Some r) st)) r = attrObjs st r"
  using c a r
  by (simp add: elementAttrs_def Let_def allocAttrs_def setProp_def split: prod.splits)

text \<open>
  C9 fails on the code. \<open>m("div", {className: "x"})\<close>: the selector has no attributes,
  so no copy has been made when the class is merged, and the guard
  \<open>if (attrs !== original) attrs = {...attrs}\<close> copies only an object that is already a
  copy. The object of the caller ends as \<open>{className: null, class: "x"}\<close>.
\<close>

theorem m_mutates_caller_attrs:
  "attrObjs factoryState 7 = [(''className'', JStr ''x'')] \<and>
   attrObjs (snd (m_vnode compileSelector E (SelString ''div'') (Some (Obj 7)) [] factoryState)) 7 =
     [(''className'', JNull), (''class'', JStr ''x'')]"
  by (simp add: m_vnode_def elementAttrs_def factoryState_def emptyState_def Let_def
        attrGet_def mapHas_def mapSet_def setProp_def notNullish_def allocVnode_def
        type_defs split: prod.splits)

section \<open>Route patterns: compile and match\<close>

text \<open>
  The router compiles a pattern into a regular expression, kept in a cache under the
  pattern string, and \<open>match\<close> runs it on the path of the current route. The regular
  expression engine, \<open>URLSearchParams\<close> and \<open>decodeURIComponent\<close> belong to the host:
  \<open>regexError\<close> is the \<open>SyntaxError\<close> of \<open>new RegExp(source, "u")\<close> if there is one,
  \<open>regexExec\<close> gives the named groups of a match in the order of their declaration (a
  group that took no part has the value \<open>undefined\<close>), \<open>searchParams\<close> the entries of
  \<open>new URLSearchParams(init)\<close>, and \<open>decodeURIComponent\<close> converts its argument to a
  string first. Strings are ASCII here, so the classes \<open>ID_Start\<close> and \<open>ID_Continue\<close>
  are the letters, and the letters, the digits and the underscore.
\<close>

record route_host =
  regexError :: "string \<Rightarrow> exn option"
  regexExec :: "string \<Rightarrow> string \<Rightarrow> (string \<times> jsval) list option"
  searchParams :: "string \<Rightarrow> (string \<times> string) list"
  decodeURIComponent :: "jsval \<Rightarrow> string result"

definition isLetter :: "char \<Rightarrow> bool" where
  "isLetter ch = (let k = (of_char ch :: nat) in (65 \<le> k \<and> k \<le> 90) \<or> (97 \<le> k \<and> k \<le> 122))"

definition isDigit :: "char \<Rightarrow> bool" where
  "isDigit ch = (let k = (of_char ch :: nat) in 48 \<le> k \<and> k \<le> 57)"

text \<open>The classes \<open>[$_\p{IDS}]\<close>, \<open>[$\p{IDC}]\<close>, \<open>[:*]\<close> and \<open>[$^*+.()|[\]{}]\<close>, and the
  characters that a dot does not match.\<close>

definition identStart :: "char \<Rightarrow> bool" where
  "identStart ch = (ch = CHR ''$'' \<or> ch = CHR ''_'' \<or> isLetter ch)"

definition identPart :: "char \<Rightarrow> bool" where
  "identPart ch = (ch = CHR ''$'' \<or> ch = CHR ''_'' \<or> isLetter ch \<or> isDigit ch)"

definition lineTerminator :: "char \<Rightarrow> bool" where
  "lineTerminator ch = (of_char ch = (10::nat) \<or> of_char ch = (13::nat))"

definition marker :: "char \<Rightarrow> bool" where
  "marker ch = (ch = CHR '':'' \<or> ch = CHR ''*'')"

definition special :: "char \<Rightarrow> bool" where
  "special ch = (ch \<in> set ''$^*+.()|[]{}'')"

text \<open>
  \<open>invalidMatchTemplate.test(pattern)\<close>: one of the five alternatives matches at some
  position. In \<open>invalidAt\<close> they are, in the order of the source: two slashes; a marker
  before a character that cannot start a name; a marker, any character, name characters
  and a marker again; a star with a character after it that is not a name character; and
  a colon parameter whose name comes again after a later marker. A run of name characters
  ends at a character outside the class, so each greedy or lazy repetition has one way to
  match.
\<close>

fun anywhere :: "(string \<Rightarrow> bool) \<Rightarrow> string \<Rightarrow> bool" where
  "anywhere P [] = P []"
| "anywhere P (c # cs) = (P (c # cs) \<or> anywhere P cs)"

fun laterDuplicate :: "string \<Rightarrow> string \<Rightarrow> bool" where
  "laterDuplicate name [] = False"
| "laterDuplicate name (c # cs) =
     ((marker c \<and> take (length name) cs = name \<and>
       (case drop (length name) cs of [] \<Rightarrow> True | e # es \<Rightarrow> \<not> identPart e)) \<or>
      (\<not> lineTerminator c \<and> laterDuplicate name cs))"

definition invalidAt :: "string \<Rightarrow> bool" where
  "invalidAt s =
     (take 2 s = ''//'' \<or>
      (case s of
         c # d # cs \<Rightarrow>
           (marker c \<and> \<not> identStart d) \<or>
           (marker c \<and> \<not> lineTerminator d \<and>
              (case dropWhile identPart cs of [] \<Rightarrow> False | e # es \<Rightarrow> marker e)) \<or>
           (c = CHR ''*'' \<and> dropWhile identPart (d # cs) \<noteq> []) \<or>
           (c = CHR '':'' \<and> identStart d \<and>
              (case dropWhile identPart cs of
                 [] \<Rightarrow> False
               | e # es \<Rightarrow> laterDuplicate (d # takeWhile identPart cs) es))
       | [c] \<Rightarrow> False
       | [] \<Rightarrow> False))"

definition invalidMatchTemplate :: "string \<Rightarrow> bool" where
  "invalidMatchTemplate pattern = anywhere invalidAt pattern"

text \<open>
  \<open>text.replace(matcherCompile, callback)\<close>, with the variable \<open>rest\<close> of \<open>compile\<close> that
  the callback assigns: \<open>compileBody text rest\<close> is the replaced text and the last value
  of \<open>rest\<close>. At each position the alternatives of \<open>matcherCompile\<close> are tried in order: a
  marker and a name, for which the callback returns a named group (and, for a star, sets
  \<open>rest = name\<close>); two backslashes; a special character with or without a backslash
  before it, returned behind one backslash; a backslash and another character, returned
  without the backslash. A character where none matches is kept.
\<close>

fun emit :: "string \<Rightarrow> string \<times> string option \<Rightarrow> string \<times> string option" where
  "emit piece (out, rest) = (piece @ out, rest)"

function compileBody :: "string \<Rightarrow> string option \<Rightarrow> string \<times> string option" where
  "compileBody [] rest = ([], rest)"
| "compileBody (c # cs) rest =
     (if marker c \<and> cs \<noteq> [] \<and> identStart (hd cs) then
        (let name = hd cs # takeWhile identPart (tl cs);
             after = dropWhile identPart (tl cs)
         in if c = CHR ''*'' then emit (''(?<'' @ name @ ''>.*)'') (compileBody after (Some name))
            else emit (''(?<'' @ name @ ''>[^/]+)'') (compileBody after rest))
      else if c = CHR 0x5C \<and> cs \<noteq> [] \<and> hd cs = CHR 0x5C then
        emit [CHR 0x5C, CHR 0x5C] (compileBody (tl cs) rest)
      else if c = CHR 0x5C \<and> cs \<noteq> [] \<and> special (hd cs) then
        emit [CHR 0x5C, hd cs] (compileBody (tl cs) rest)
      else if special c then
        emit [CHR 0x5C, c] (compileBody cs rest)
      else if c = CHR 0x5C \<and> cs \<noteq> [] \<and> \<not> lineTerminator (hd cs) then
        emit [hd cs] (compileBody (tl cs) rest)
      else
        emit [c] (compileBody cs rest))"
  by pat_completeness auto
termination
proof (relation "measure (\<lambda>(s, r). length s)")
  show "wf (measure (\<lambda>(s, r). length s))" by simp
qed (auto simp: less_Suc_eq_le intro: le_trans [OF length_dropWhile_le])

text \<open>
  A compiled matcher: the source of the regular expression and the two properties that
  \<open>compile\<close> adds to it, \<open>r\<close> (the value of \<open>rest\<close>: \<open>undefined\<close>, here \<open>None\<close>, or the name
  of the wildcard) and \<open>p\<close> (the entries of the fixed query).
\<close>

record matcher =
  re_source :: string
  re_r :: "string option"
  re_p :: "(string \<times> string) list"

type_synonym matcher_cache = "string \<rightharpoonup> matcher"

text \<open>\<open>s.indexOf(ch)\<close>, and \<open>s.slice(i, j)\<close> for indices that are not negative, which
  is how \<open>compile\<close> calls it (\<open>None\<close> is \<open>undefined\<close>).\<close>

definition indexOf :: "char \<Rightarrow> string \<Rightarrow> int" where
  "indexOf ch s = (if ch \<in> set s then int (length (takeWhile (\<lambda>x. x \<noteq> ch) s)) else - 1)"

definition slice :: "string \<Rightarrow> int \<Rightarrow> int option \<Rightarrow> string" where
  "slice s i j =
     (case j of
        None \<Rightarrow> drop (nat i) s
      | Some e \<Rightarrow> take (nat e - nat i) (drop (nat i) s))"

definition compile :: "route_host \<Rightarrow> matcher_cache \<Rightarrow> string \<Rightarrow> matcher result \<times> matcher_cache" where
  "compile H cch pattern =
     (if invalidMatchTemplate pattern then (Throw (SyntaxError ''Invalid pattern''), cch)
      else
        (let queryIndex = indexOf (CHR ''?'') pattern;
             hashIndex = indexOf (CHR ''#'') pattern;
             index = (if queryIndex < hashIndex then queryIndex else hashIndex);
             (body, rest) = compileBody (slice pattern 0 (if index < 0 then None else Some index)) None;
             src = ''^'' @ body @ ''$''
         in case regexError H src of
              Some e \<Rightarrow> (Throw e, cch)
            | None \<Rightarrow>
                (let re = \<lparr> re_source = src, re_r = rest,
                            re_p = searchParams H
                              (if index < 0 then []
                               else slice pattern index (if hashIndex < 0 then None else Some hashIndex)) \<rparr>
                 in (Return re, cch(pattern \<mapsto> re)))))"

text \<open>
  \<open>restIndex--\<close> converts \<open>restIndex\<close> to a number, gives that number as its value and
  stores the number less one. \<open>restIndex\<close> starts as \<open>re.r\<close>: \<open>undefined\<close> converts to
  \<open>NaN\<close>, and a name, which begins with a letter, a dollar sign or an underscore
  (\<open>compile_rest_name\<close> below), converts to \<open>NaN\<close> unless it is the name \<open>Infinity\<close>.
\<close>

definition toNumber :: "string option \<Rightarrow> jsnum" where
  "toNumber v = (case v of None \<Rightarrow> NaN | Some s \<Rightarrow> (if s = ''Infinity'' then PosInf else NaN))"

fun decrement :: "jsnum \<Rightarrow> jsnum" where
  "decrement (Fin x) = roundDouble (x - 1)"
| "decrement NegZero = Fin (- 1)"
| "decrement x = x"

text \<open>The loop \<open>for (var k in exec.groups)\<close> of \<open>match\<close>.\<close>

fun decodeGroups :: "route_host \<Rightarrow> jsnum \<Rightarrow> (string \<times> jsval) list \<Rightarrow> (string \<times> jsval) list result" where
  "decodeGroups H restIndex [] = Return []"
| "decodeGroups H restIndex ((k, v) # groups) =
     (if truthy (JNum restIndex) then
        (case decodeURIComponent H v of
           Throw e \<Rightarrow> Throw e
         | Return s \<Rightarrow>
             (case decodeGroups H (decrement restIndex) groups of
                Throw e \<Rightarrow> Throw e
              | Return done \<Rightarrow> Return ((k, JStr s) # done)))
      else
        (case decodeGroups H (decrement restIndex) groups of
           Throw e \<Rightarrow> Throw e
         | Return done \<Rightarrow> Return ((k, v) # done)))"

text \<open>\<open>var re = cache.get(pattern); if (!re) re = compile(pattern)\<close>.\<close>

definition matcherFor :: "route_host \<Rightarrow> matcher_cache \<Rightarrow> string \<Rightarrow> matcher result \<times> matcher_cache" where
  "matcherFor H cch pattern =
     (case cch pattern of Some re \<Rightarrow> (Return re, cch) | None \<Rightarrow> compile H cch pattern)"

text \<open>\<open>params.get(k) === v\<close>; the query parameters of the route are a list of entries,
  and \<open>get\<close> gives the first value of a key.\<close>

definition agrees :: "(string \<times> string) list \<Rightarrow> string \<times> string \<Rightarrow> bool" where
  "agrees params kv = (mapGet params (fst kv) = Some (snd kv))"

text \<open>\<open>match({path, params}, pattern)\<close>; the value \<open>None\<close> is \<open>undefined\<close>, the match
  failed.\<close>

definition match ::
  "route_host \<Rightarrow> matcher_cache \<Rightarrow> string \<times> (string \<times> string) list \<Rightarrow> string \<Rightarrow>
     (string \<times> jsval) list option result \<times> matcher_cache" where
  "match H cch route pattern =
     (case matcherFor H cch pattern of
        (Throw e, cch1) \<Rightarrow> (Throw e, cch1)
      | (Return re, cch1) \<Rightarrow>
          (case regexExec H (re_source re) (fst route) of
             None \<Rightarrow> (Return None, cch1)
           | Some groups \<Rightarrow>
               if list_ex (\<lambda>kv. \<not> agrees (snd route) kv) (re_p re) then (Return None, cch1)
               else
                 (case decodeGroups H (toNumber (re_r re)) groups of
                    Throw e \<Rightarrow> (Throw e, cch1)
                  | Return done \<Rightarrow> (Return (Some done), cch1))))"

text \<open>
  A host for the examples. Its regular expressions are the one of the pattern
  \<open>/users/:id\<close>, which matches \<open>/users/\<close> and one or more characters other than a slash;
  its only query is \<open>?tab=info\<close>; it decodes the escapes below 128 and raises on the
  others.
\<close>

fun hexValue :: "char \<Rightarrow> nat option" where
  "hexValue ch =
     (let k = (of_char ch :: nat) in
      if 48 \<le> k \<and> k \<le> 57 then Some (k - 48)
      else if 65 \<le> k \<and> k \<le> 70 then Some (k - 55)
      else if 97 \<le> k \<and> k \<le> 102 then Some (k - 87)
      else None)"

fun asciiDecode :: "string \<Rightarrow> string result" where
  "asciiDecode [] = Return []"
| "asciiDecode [c] = (if c = CHR ''%'' then Throw (URIError ''URI malformed'') else Return [c])"
| "asciiDecode [c, d] =
     (if c = CHR ''%'' then Throw (URIError ''URI malformed'')
      else (case asciiDecode [d] of Throw x \<Rightarrow> Throw x | Return out \<Rightarrow> Return (c # out)))"
| "asciiDecode (c # d # e # cs) =
     (if c = CHR ''%'' then
        (case (hexValue d, hexValue e) of
           (Some hi, Some lo) \<Rightarrow>
             if 16 * hi + lo < 128 then
               (case asciiDecode cs of
                  Throw x \<Rightarrow> Throw x
                | Return out \<Rightarrow> Return (char_of (16 * hi + lo) # out))
             else Throw (URIError ''URI malformed'')
         | _ \<Rightarrow> Throw (URIError ''URI malformed''))
      else (case asciiDecode (d # e # cs) of Throw x \<Rightarrow> Throw x | Return out \<Rightarrow> Return (c # out)))"

definition sampleHost :: route_host where
  "sampleHost =
     \<lparr> regexError = (\<lambda>src. None),
       regexExec = (\<lambda>src path.
         if src = ''^/users/(?<id>[^/]+)$'' \<and> take 7 path = ''/users/'' \<and> drop 7 path \<noteq> [] \<and>
            CHR ''/'' \<notin> set (drop 7 path)
         then Some [(''id'', JStr (drop 7 path))] else None),
       searchParams = (\<lambda>init. if init = ''?tab=info'' then [(''tab'', ''info'')] else []),
       decodeURIComponent = (\<lambda>v. case v of JStr s \<Rightarrow> asciiDecode s | _ \<Rightarrow> Return ''undefined'') \<rparr>"

definition restName :: "string option \<Rightarrow> bool" where
  "restName v = (case v of None \<Rightarrow> True | Some n \<Rightarrow> n \<noteq> [] \<and> identStart (hd n))"

lemma asciiDecode_sample: "asciiDecode ''a%20b'' = Return ''a b''"
  by code_simp

lemma decodeGroups_NaN: "decodeGroups H NaN groups = Return groups"
  by (induction groups) auto

lemma list_ex_not_all: "list_ex (\<lambda>kv. \<not> P kv) xs = (\<not> list_all P xs)"
  by (induction xs) auto

lemma snd_emit: "snd (emit piece out) = snd out"
  by (cases out) simp

lemma compileBody_rest: "restName r0 \<Longrightarrow> restName (snd (compileBody s r0))"
proof (induction s r0 rule: compileBody.induct)
  case (1 rest)
  then show ?case by simp
next
  case (2 c cs rest)
  have n: "restName (Some (hd cs # takeWhile identPart (tl cs)))" if "identStart (hd cs)"
    using that by (simp add: restName_def)
  show ?case
    using 2 n
    by (simp add: Let_def snd_emit)
qed

text \<open>What \<open>compile\<close> stores in \<open>r\<close> is \<open>undefined\<close> or a name, never a number.\<close>

lemma compile_rest_name:
  assumes "fst (compile H cch pattern) = Return re"
  shows "restName (re_r re)"
proof -
  let ?index = "if indexOf (CHR ''?'') pattern < indexOf (CHR ''#'') pattern
                then indexOf (CHR ''?'') pattern else indexOf (CHR ''#'') pattern"
  let ?body = "slice pattern 0 (if ?index < 0 then None else Some ?index)"
  have "restName None" by (simp add: restName_def)
  from compileBody_rest [OF this, of ?body] have "restName (snd (compileBody ?body None))" .
  moreover from assms have "re_r re = snd (compileBody ?body None)"
    by (auto simp: compile_def Let_def split: if_splits prod.splits option.splits)
  ultimately show ?thesis by simp
qed

text \<open>
  \<open>index\<close> is the smaller of the two positions, and \<open>- 1\<close> when one of the two characters
  is missing: a pattern with no \<open>#\<close> is compiled whole, its query included, and the
  matcher holds no query entry but those of the empty string.
\<close>

lemma compile_without_hash:
  assumes "CHR ''#'' \<notin> set pattern" and "fst (compile H cch pattern) = Return re"
  shows "re_p re = searchParams H [] \<and>
         re_source re = ''^'' @ fst (compileBody pattern None) @ ''$''"
  using assms
  by (auto simp: compile_def indexOf_def slice_def Let_def split: if_splits prod.splits option.splits)

text \<open>
  Unless the wildcard of the pattern has the name \<open>Infinity\<close>, the counter of the loop
  is \<open>NaN\<close> at every turn and \<open>match\<close> returns the captured texts as the regular
  expression gave them.
\<close>

lemma match_captures_as_is:
  assumes "fst (matcherFor H cch pattern) = Return re"
    and "re_r re \<noteq> Some ''Infinity''"
    and "regexExec H (re_source re) path = Some groups"
    and "list_all (agrees params) (re_p re)"
  shows "fst (match H cch (path, params) pattern) = Return (Some groups)"
proof -
  from assms(2) have "toNumber (re_r re) = NaN"
    by (simp add: toNumber_def split: option.splits)
  with assms(1,3,4) show ?thesis
    by (cases "matcherFor H cch pattern")
       (simp add: match_def list_ex_not_all decodeGroups_NaN)
qed

lemma match_no_exec:
  assumes "fst (matcherFor H cch pattern) = Return re"
    and "regexExec H (re_source re) path = None"
  shows "fst (match H cch (path, params) pattern) = Return None"
  using assms by (cases "matcherFor H cch pattern") (simp add: match_def)

lemmas route_eval =
  matcherFor_def compile_def invalidMatchTemplate_def invalidAt_def indexOf_def slice_def
  marker_def identStart_def identPart_def isLetter_def isDigit_def special_def lineTerminator_def
  sampleHost_def agrees_def mapGet_def Let_def

text \<open>
  A pattern with a query and no \<open>#\<close> is compiled with its query inside the regular
  expression, where \<open>?\<close> makes the character before it optional, and the matcher holds
  no query entry.
\<close>

lemma compile_query_only:
  "fst (compile sampleHost Map.empty ''/a?tab=info'') =
     Return \<lparr> re_source = ''^/a?tab=info$'', re_r = None, re_p = [] \<rparr>"
  by (simp add: route_eval)

text \<open>
  C6 fails on the code. \<open>match\<close> is to give each declared parameter the percent-decoded
  form of the text captured for it, and its loop does call \<open>decodeURIComponent\<close>, under
  the test \<open>restIndex--\<close> that is meant to count down to the position of the wildcard. But
  \<open>compile\<close> stores in \<open>re.r\<close> the name of the wildcard, or nothing, never a position:
  the test is \<open>NaN\<close> at every turn and no value is decoded (\<open>match_captures_as_is\<close>). For
  the pattern \<open>/users/:id\<close> and the path \<open>/users/a%20b\<close> the parameter \<open>id\<close> is the text
  \<open>a%20b\<close>, where its percent-decoded form is \<open>a b\<close>.
\<close>

theorem match_keeps_escapes:
  "fst (match sampleHost Map.empty (''/users/a%20b'', []) ''/users/:id'') =
     Return (Some [(''id'', JStr ''a%20b'')]) \<and>
   decodeURIComponent sampleHost (JStr ''a%20b'') = Return ''a b''"
  by (simp add: match_def toNumber_def route_eval asciiDecode_sample del: asciiDecode.simps)

end
